(* ===== verification/Emo_Prelude.thy ===== *)
theory Emo_Prelude
  imports Main "HOL-Library.AList" "HOL-Library.Multiset" "HOL-Library.Char_ord"
    "HOL-Library.List_Lexorder"
begin

text \<open>
  Shared vocabulary of the development.

  A Go map is an association list with distinct keys. The order of the list stands for the
  order in which one \<^verbatim>\<open>range\<close> over the map visits it, which Go leaves open; a
  lemma whose conclusion only mentions \<^const>\<open>map_of\<close> or \<^const>\<open>mset\<close> therefore holds for
  every iteration order. Strings are lists of bytes, compared bytewise as Go compares them
  (the order instances of \<^verbatim>\<open>Char_ord\<close> and \<^verbatim>\<open>List_Lexorder\<close>). A Go function that returns
  \<^verbatim>\<open>(T, error)\<close> returns the sum \<^typ>\<open>string + 'a\<close>, with the error on the left.
\<close>

type_synonym 'a result = "string + 'a"
type_synonym ('k, 'v) gomap = "('k \<times> 'v) list"

named_theorems go_simps \<open>equations that evaluate the Go library functions of the model\<close>

section \<open>Machine integers\<close>

text \<open>The value of an \<^verbatim>\<open>int64\<close> (or 64-bit \<^verbatim>\<open>int\<close>) expression whose mathematical value is \<open>x\<close>.\<close>

definition max_int64 :: int where
  "max_int64 = 9223372036854775807"

definition min_int64 :: int where
  "min_int64 = -9223372036854775808"

definition wrap64 :: "int \<Rightarrow> int" where
  "wrap64 x = (x + 9223372036854775808) mod 18446744073709551616 - 9223372036854775808"

definition in_int64 :: "int \<Rightarrow> bool" where
  "in_int64 x \<longleftrightarrow> min_int64 \<le> x \<and> x \<le> max_int64"

lemma wrap64_id [simp]: "in_int64 x \<Longrightarrow> wrap64 x = x"
  by (simp add: wrap64_def in_int64_def min_int64_def max_int64_def)

lemma wrap64_range: "in_int64 (wrap64 x)"
proof -
  have "0 \<le> (x + 9223372036854775808) mod 18446744073709551616"
    and "(x + 9223372036854775808) mod 18446744073709551616 < 18446744073709551616"
    by (rule pos_mod_sign, simp) (rule pos_mod_bound, simp)
  then show ?thesis
    by (simp add: wrap64_def in_int64_def min_int64_def max_int64_def)
qed

lemma wrap64_add_left [simp]: "wrap64 (wrap64 a + b) = wrap64 (a + b)"
proof -
  have "(wrap64 a + b + 9223372036854775808) mod 18446744073709551616
      = ((a + 9223372036854775808) mod 18446744073709551616 + b) mod 18446744073709551616"
    by (simp add: wrap64_def algebra_simps)
  also have "\<dots> = (a + 9223372036854775808 + b) mod 18446744073709551616"
    by (rule mod_add_left_eq)
  also have "\<dots> = (a + b + 9223372036854775808) mod 18446744073709551616"
    by (simp add: algebra_simps)
  finally show ?thesis by (simp add: wrap64_def)
qed

lemma wrap64_add_right [simp]: "wrap64 (a + wrap64 b) = wrap64 (a + b)"
  using wrap64_add_left [of b a] by (simp add: add.commute)

lemma wrap64_add4: "wrap64 (wrap64 a + b + (wrap64 c + d)) = wrap64 (a + b + (c + d))"
proof -
  have "wrap64 (wrap64 a + b + (wrap64 c + d)) = wrap64 (wrap64 a + (b + d + wrap64 c))"
    by (simp add: algebra_simps)
  also have "\<dots> = wrap64 (a + (b + d + wrap64 c))" by (rule wrap64_add_left)
  also have "\<dots> = wrap64 (a + (b + d) + wrap64 c)" by (simp only: add.assoc)
  also have "\<dots> = wrap64 (a + (b + d) + c)" by (rule wrap64_add_right)
  finally show ?thesis by (simp add: algebra_simps)
qed

lemma wrap64_0 [simp]: "wrap64 0 = 0"
  by (simp add: wrap64_def)

text \<open>Integer division as Go does it: towards zero.\<close>

definition go_div :: "int \<Rightarrow> int \<Rightarrow> int" where
  "go_div a b = sgn a * sgn b * (\<bar>a\<bar> div \<bar>b\<bar>)"

definition go_mod :: "int \<Rightarrow> int \<Rightarrow> int" where
  "go_mod a b = a - b * go_div a b"

lemma go_div_nonneg: "0 \<le> a \<Longrightarrow> 0 < b \<Longrightarrow> go_div a b = a div b"
  by (cases "a = 0") (simp_all add: go_div_def)

lemma div_less_bound:
  fixes a b n :: int
  assumes "0 < b" "a < n * b"
  shows "a div b < n"
proof -
  have "a div b * b \<le> a" using assms(1) by (simp add: minus_mod_eq_div_mult [symmetric])
  with assms(2) have "a div b * b < n * b" by simp
  with assms(1) show ?thesis by (simp only: mult_less_cancel_right_pos)
qed

lemma go_mod_nonneg: "0 \<le> a \<Longrightarrow> 0 < b \<Longrightarrow> go_mod a b = a mod b"
  by (simp add: go_mod_def go_div_nonneg minus_mult_div_eq_mod)

lemma go_div_pos_iff: "0 < b \<Longrightarrow> 0 < go_div a b \<longleftrightarrow> b \<le> a"
proof (cases "0 < a")
  case True
  assume "0 < b"
  with True show ?thesis by (simp add: go_div_nonneg pos_imp_zdiv_pos_iff)
next
  case False
  assume b: "0 < b"
  have "sgn a * sgn b * (\<bar>a\<bar> div \<bar>b\<bar>) \<le> 0"
    using False b by (cases "a = 0") (auto simp: pos_imp_zdiv_nonneg_iff)
  with False b show ?thesis by (simp add: go_div_def)
qed

section \<open>Maps, lists, options\<close>

text \<open>\<^verbatim>\<open>m[k]\<close> with the zero value \<open>z\<close> for a key that is not there.\<close>

definition get_or :: "'v \<Rightarrow> ('k, 'v) gomap \<Rightarrow> 'k \<Rightarrow> 'v" where
  "get_or z m k = (case map_of m k of Some v \<Rightarrow> v | None \<Rightarrow> z)"

abbreviation has_key :: "('k, 'v) gomap \<Rightarrow> 'k \<Rightarrow> bool" where
  "has_key m k \<equiv> map_of m k \<noteq> None"

abbreviation map_put :: "'k \<Rightarrow> 'v \<Rightarrow> ('k, 'v) gomap \<Rightarrow> ('k, 'v) gomap" where
  "map_put \<equiv> AList.update"

abbreviation map_del :: "'k \<Rightarrow> ('k, 'v) gomap \<Rightarrow> ('k, 'v) gomap" where
  "map_del \<equiv> AList.delete"

abbreviation wf_map :: "('k, 'v) gomap \<Rightarrow> bool" where
  "wf_map m \<equiv> distinct (map fst m)"

lemma get_or_cong: "map_of m = map_of m' \<Longrightarrow> get_or z m k = get_or z m' k"
  by (simp add: get_or_def)

lemma get_or_put [simp]:
  "get_or z (map_put k v m) k' = (if k = k' then v else get_or z m k')"
  by (simp add: get_or_def update_conv')

lemma map_of_put [simp]: "map_of (map_put k v m) = (map_of m)(k \<mapsto> v)"
  by (rule update_conv')

lemma map_of_del [simp]: "map_of (map_del k m) = (map_of m)(k := None)"
  by (rule delete_conv')

lemma wf_map_put [simp]: "wf_map m \<Longrightarrow> wf_map (map_put k v m)"
  by (rule distinct_update)

lemma wf_map_del [simp]: "wf_map m \<Longrightarrow> wf_map (map_del k m)"
  by (rule distinct_delete)

lemma map_of_eq_imp_mset:
  assumes "wf_map xs" "wf_map ys" "map_of xs = map_of ys"
  shows "mset xs = mset ys"
proof -
  have "set xs = set ys"
    using assms by (auto simp: set_eq_iff split_paired_All) (metis assms map_of_eq_Some_iff)+
  moreover have "distinct xs" "distinct ys"
    using assms(1,2) by (simp_all add: distinct_map)
  ultimately show ?thesis by (simp add: set_eq_iff_mset_eq_distinct)
qed

lemma map_of_mset_cong:
  assumes "wf_map xs" "mset xs = mset ys"
  shows "map_of xs = map_of ys"
proof -
  have "mset (map fst xs) = mset (map fst ys)" using assms(2) by simp
  then have "wf_map ys" using assms(1) by (metis mset_eq_imp_distinct_iff)
  moreover have "set xs = set ys" using assms(2) by (rule mset_eq_setD)
  ultimately show ?thesis using assms(1) by (simp add: map_of_inject_set)
qed

text \<open>Two lists sorted by an injective key with the same elements are equal.\<close>

lemma sort_key_perm:
  assumes "mset xs = mset ys" "inj_on f (set xs)"
  shows "sort_key f xs = sort_key f ys"
  by (rule sort_key_inj_key_eq) (use assms in simp_all)

lemma sort_perm: "mset xs = mset ys \<Longrightarrow> sort xs = sort (ys :: 'a :: linorder list)"
  by (rule sort_key_perm) simp_all

lemma map_filter_Cons:
  "List.map_filter f (x # xs) = (case f x of None \<Rightarrow> List.map_filter f xs | Some y \<Rightarrow> y # List.map_filter f xs)"
  by (cases "f x") (simp_all add: map_filter_def)

lemma map_filter_mset:
  assumes "mset xs = mset ys"
  shows "mset (List.map_filter f xs) = mset (List.map_filter f ys)"
proof -
  have "mset (filter (\<lambda>x. f x \<noteq> None) xs) = mset (filter (\<lambda>x. f x \<noteq> None) ys)"
    using assms by (simp only: mset_filter)
  then show ?thesis by (simp add: map_filter_def)
qed

lemma sum_list_ge_mult:
  fixes lo :: int
  shows "\<forall>x \<in> set xs. lo \<le> x \<Longrightarrow> lo * int (length xs) \<le> sum_list xs"
  by (induction xs) (auto simp: algebra_simps)

lemma sum_list_le_mult:
  fixes hi :: int
  shows "\<forall>x \<in> set xs. x \<le> hi \<Longrightarrow> sum_list xs \<le> hi * int (length xs)"
  by (induction xs) (auto simp: algebra_simps)

lemma member_le_sum_list:
  fixes x :: int
  shows "\<forall>y \<in> set xs. 0 \<le> y \<Longrightarrow> x \<in> set xs \<Longrightarrow> x \<le> sum_list xs"
  by (rule member_le_sum_list) auto

section \<open>Sums over the values of a map\<close>

definition sum_of :: "('v \<Rightarrow> int) \<Rightarrow> ('k, 'v) gomap \<Rightarrow> int" where
  "sum_of f m = sum_list (map (\<lambda>(_, v). f v) m)"

lemma sum_of_simps [simp]: "sum_of f [] = 0" "sum_of f ((k, v) # m) = f v + sum_of f m"
  by (simp_all add: sum_of_def)

lemma sum_of_mset: "mset m = mset m' \<Longrightarrow> sum_of f m = sum_of f m'"
  by (metis mset_map sum_mset_sum_list sum_of_def)

lemma sum_of_add: "sum_of (\<lambda>v. f v + g v) m = sum_of f m + sum_of g m"
  by (induction m) auto

lemma sum_of_mono: "\<forall>(k, v) \<in> set m. f v \<le> g v \<Longrightarrow> sum_of f m \<le> sum_of g m"
  by (induction m) auto

lemma sum_of_nonneg: "\<forall>(k, v) \<in> set m. 0 \<le> f v \<Longrightarrow> 0 \<le> sum_of f m"
  by (induction m) auto

lemma wf_map_get: "wf_map m \<Longrightarrow> (k, v) \<in> set m \<Longrightarrow> get_or z m k = v"
  by (simp add: get_or_def)

text \<open>The sum over a map of a function of its keys, for maps over the same keys.\<close>

lemma sum_of_keys: "wf_map m \<Longrightarrow> sum_of f m = (\<Sum>k \<in> dom (map_of m). f (the (map_of m k)))"
proof -
  assume wf: "wf_map m"
  have "sum_of f m = sum_list (map (\<lambda>k. f (the (map_of m k))) (map fst m))"
    unfolding sum_of_def map_map by (rule arg_cong [where f = sum_list], rule map_cong)
      (use wf in \<open>auto\<close>)
  also have "\<dots> = (\<Sum>k \<in> set (map fst m). f (the (map_of m k)))"
    using wf by (rule sum_list_distinct_conv_sum_set)
  also have "set (map fst m) = dom (map_of m)" by (simp add: dom_map_of_conv_image_fst)
  finally show ?thesis .
qed

lemma in_map_filter: "y \<in> set (List.map_filter f xs) \<longleftrightarrow> (\<exists>x \<in> set xs. f x = Some y)"
  by (force simp: map_filter_def)

lemma set_map_put: "set (map_put k v m) \<subseteq> insert (k, v) (set m)"
  by (induction m) auto

lemma sum_of_snoc [simp]: "sum_of f (xs @ [(k, v)]) = sum_of f xs + f v"
  by (simp add: sum_of_def)

lemma prod_cases3_eq: "p = (fst p, fst (snd p), snd (snd p))"
  by simp

text \<open>Lists sorted by a key, with the same elements, differ in the order of ties only.\<close>

lemma fold_sorted_ties:
  assumes "mset xs = mset ys" "sorted (map f xs)" "sorted (map f ys)"
    and "\<And>a b. a \<in> set xs \<Longrightarrow> b \<in> set xs \<Longrightarrow> f a = f b \<Longrightarrow> F a \<circ> F b = F b \<circ> F a"
  shows "fold F xs = fold F ys"
  using assms
proof (induction xs arbitrary: ys)
  case (Cons x xs)
  have "x \<in> set ys" using Cons.prems(1) by (metis list.set_intros(1) mset_eq_setD)
  then obtain A B where ys: "ys = A @ x # B" by (meson split_list)
  have m: "mset xs = mset (A @ B)" using Cons.prems(1) ys by simp
  then have sub: "set A \<subseteq> set xs" by (metis Un_upper1 mset_eq_setD set_append)
  have "f a = f x" if "a \<in> set A" for a
    using Cons.prems(2,3) that sub unfolding ys by (fastforce simp: sorted_append)
  then have "F x \<circ> F a = F a \<circ> F x" if "a \<in> set A" for a
    using that sub by (intro Cons.prems(4)) auto
  then have com: "F x \<circ> fold F A = fold F A \<circ> F x" by (rule fold_commute)
  have "fold F xs = fold F (A @ B)"
    using Cons.prems m unfolding ys by (intro Cons.IH) (auto simp: sorted_append)
  then have "fold F (x # xs) = fold F B \<circ> (fold F A \<circ> F x)" by (simp add: comp_assoc)
  also have "\<dots> = fold F ys" by (simp add: ys com comp_assoc [symmetric]) (simp add: com comp_assoc)
  finally show ?case .
qed simp

lemma sum_list_single:
  "distinct ms \<Longrightarrow> k \<in> set ms \<Longrightarrow> sum_list (map (\<lambda>m. if m = k then c else 0) ms) = (c :: int)"
proof (induction ms)
  case (Cons m ms)
  have "sum_list (map (\<lambda>m. if m = k then c else 0) ms) = 0" if "k \<notin> set ms"
    using that by (induction ms) auto
  with Cons show ?case by auto
qed simp

end
