(* ===== verification/Go_Strings.thy ===== *)
theory Go_Strings
  imports Emo_Prelude "HOL-Library.Sublist"
begin

text \<open>
  The functions of Go's \<^verbatim>\<open>strings\<close> and \<^verbatim>\<open>strconv\<close> packages that the program calls, over
  byte strings. Case mapping is the ASCII one: the program maps case only to compare with
  ASCII words or to print an ASCII kind name.
\<close>

section \<open>strings\<close>

definition has_prefix :: "string \<Rightarrow> string \<Rightarrow> bool" where
  "has_prefix s p \<longleftrightarrow> take (length p) s = p"

definition has_suffix :: "string \<Rightarrow> string \<Rightarrow> bool" where
  "has_suffix s p \<longleftrightarrow> has_prefix (rev s) (rev p)"

definition trim_prefix :: "string \<Rightarrow> string \<Rightarrow> string" where
  "trim_prefix s p = (if has_prefix s p then drop (length p) s else s)"

definition trim_suffix :: "string \<Rightarrow> string \<Rightarrow> string" where
  "trim_suffix s p = (if has_suffix s p then take (length s - length p) s else s)"

text \<open>\<^verbatim>\<open>strings.Cut\<close>: the text before and after the first occurrence of \<open>sep\<close>.\<close>

fun cut :: "string \<Rightarrow> string \<Rightarrow> (string \<times> string) option" where
  "cut [] sep = (if sep = [] then Some ([], []) else None)"
| "cut (c # cs) sep =
     (if has_prefix (c # cs) sep then Some ([], drop (length sep) (c # cs))
      else map_option (\<lambda>(a, b). (c # a, b)) (cut cs sep))"

definition contains :: "string \<Rightarrow> string \<Rightarrow> bool" where
  "contains s sub \<longleftrightarrow> cut s sub \<noteq> None"

definition contains_byte :: "string \<Rightarrow> char \<Rightarrow> bool" where
  "contains_byte s c \<longleftrightarrow> c \<in> set s"

text \<open>\<^verbatim>\<open>strings.Split\<close> with a one-byte separator.\<close>

fun split_byte :: "char \<Rightarrow> string \<Rightarrow> string list" where
  "split_byte d [] = [[]]"
| "split_byte d (c # cs) =
     (if c = d then [] # split_byte d cs
      else (case split_byte d cs of [] \<Rightarrow> [[c]] | w # ws \<Rightarrow> (c # w) # ws))"

fun join :: "string \<Rightarrow> string list \<Rightarrow> string" where
  "join sep [] = []"
| "join sep [w] = w"
| "join sep (w # ws) = w @ sep @ join sep ws"

text \<open>\<^verbatim>\<open>strings.ReplaceAll\<close> of one byte by a string.\<close>

definition replace_byte :: "char \<Rightarrow> string \<Rightarrow> string \<Rightarrow> string" where
  "replace_byte old new s = concat (map (\<lambda>c. if c = old then new else [c]) s)"

definition upper_char :: "char \<Rightarrow> char" where
  "upper_char c = (let n = of_char c :: nat in if 97 \<le> n \<and> n \<le> 122 then char_of (n - 32) else c)"

definition lower_char :: "char \<Rightarrow> char" where
  "lower_char c = (let n = of_char c :: nat in if 65 \<le> n \<and> n \<le> 90 then char_of (n + 32) else c)"

definition to_upper :: "string \<Rightarrow> string" where
  "to_upper s = map upper_char s"

definition to_lower :: "string \<Rightarrow> string" where
  "to_lower s = map lower_char s"

definition equal_fold :: "string \<Rightarrow> string \<Rightarrow> bool" where
  "equal_fold a b \<longleftrightarrow> to_lower a = to_lower b"

text \<open>The ASCII white space \<^verbatim>\<open>strings.TrimSpace\<close> removes.\<close>

definition is_space :: "char \<Rightarrow> bool" where
  "is_space c \<longleftrightarrow> c \<in> {CHR '' '', CHR 0x09, CHR 0x0A, CHR 0x0B, CHR 0x0C, CHR 0x0D}"

text \<open>\<^verbatim>\<open>strings.TrimRight\<close> and \<^verbatim>\<open>strings.TrimSpace\<close>.\<close>

definition trim_right :: "(char \<Rightarrow> bool) \<Rightarrow> string \<Rightarrow> string" where
  "trim_right p s = rev (dropWhile p (rev s))"

definition trim_space :: "string \<Rightarrow> string" where
  "trim_space s = trim_right is_space (dropWhile is_space s)"

abbreviation crlf :: string where
  "crlf \<equiv> [CHR 0x0D, CHR 0x0A]"

abbreviation nl :: string where
  "nl \<equiv> [CHR 0x0A]"

section \<open>strconv\<close>

definition is_digit :: "char \<Rightarrow> bool" where
  "is_digit c \<longleftrightarrow> 48 \<le> (of_char c :: nat) \<and> (of_char c :: nat) \<le> 57"

definition digit_val :: "char \<Rightarrow> int" where
  "digit_val c = int (of_char c) - 48"

definition digit_char :: "nat \<Rightarrow> char" where
  "digit_char d = char_of (48 + d)"

fun nat_text :: "nat \<Rightarrow> string" where
  "nat_text n = (if n < 10 then [digit_char n] else nat_text (n div 10) @ [digit_char (n mod 10)])"

declare nat_text.simps [simp del]

definition itoa :: "int \<Rightarrow> string" where
  "itoa n = (if n < 0 then ''-'' @ nat_text (nat (- n)) else nat_text (nat n))"

datatype num_error = ErrSyntax | ErrRange

definition digits_val :: "string \<Rightarrow> int" where
  "digits_val s = foldl (\<lambda>acc c. 10 * acc + digit_val c) 0 s"

text \<open>
  \<^verbatim>\<open>strconv.ParseInt(s, 10, 64)\<close> (and \<^verbatim>\<open>Atoi\<close> on a 64-bit machine): an optional sign and
  at least one digit. The value is 0 after a syntax error and the nearest bound after a
  range error, as Go returns it beside the error.
\<close>

definition parse_int :: "string \<Rightarrow> int \<times> num_error option" where
  "parse_int s =
     (let neg = (case s of c # _ \<Rightarrow> c = CHR ''-'' | [] \<Rightarrow> False);
          body = (case s of c # cs \<Rightarrow> if c = CHR ''-'' \<or> c = CHR ''+'' then cs else s | [] \<Rightarrow> [])
      in if body = [] \<or> \<not> list_all is_digit body then (0, Some ErrSyntax)
         else let v = (if neg then - digits_val body else digits_val body)
              in if v < min_int64 then (min_int64, Some ErrRange)
                 else if max_int64 < v then (max_int64, Some ErrRange)
                 else (v, None))"

text \<open>The parse as the callers that drop a bad text see it.\<close>

definition parse_int_ok :: "string \<Rightarrow> int option" where
  "parse_int_ok s = (case parse_int s of (v, None) \<Rightarrow> Some v | (_, Some _) \<Rightarrow> None)"

text \<open>Evaluation of single characters by the simplifier.\<close>

lemmas char_eval [go_simps] = char_of_def bit_0

lemma digit_char_simps [go_simps]:
  "digit_char 0 = CHR ''0''" "digit_char 1 = CHR ''1''" "digit_char (Suc 0) = CHR ''1''"
  "digit_char 2 = CHR ''2''" "digit_char 3 = CHR ''3''" "digit_char 4 = CHR ''4''"
  "digit_char 5 = CHR ''5''" "digit_char 6 = CHR ''6''" "digit_char 7 = CHR ''7''"
  "digit_char 8 = CHR ''8''" "digit_char 9 = CHR ''9''"
  by (simp_all add: digit_char_def char_of_def bit_0)

subsection \<open>Decimal text round trip\<close>

lemma of_char_digit_char [simp]: "d < 10 \<Longrightarrow> (of_char (digit_char d) :: nat) = 48 + d"
  by (simp add: digit_char_def)

lemma is_digit_digit_char [simp]: "d < 10 \<Longrightarrow> is_digit (digit_char d)"
  by (simp add: is_digit_def)

lemma digit_val_digit_char [simp]: "d < 10 \<Longrightarrow> digit_val (digit_char d) = int d"
  by (simp add: digit_val_def)

lemma digits_val_snoc [simp]: "digits_val (s @ [c]) = 10 * digits_val s + digit_val c"
  by (simp add: digits_val_def)

lemma digits_val_nil [simp]: "digits_val [] = 0"
  by (simp add: digits_val_def)

lemma nat_text_ne [simp]: "nat_text n \<noteq> []"
  by (subst nat_text.simps) simp

lemma nat_text_digits [simp]: "list_all is_digit (nat_text n)"
proof (induction n rule: nat_text.induct)
  case (1 n)
  then show ?case by (subst nat_text.simps) auto
qed

lemma digits_val_nat_text [simp]: "digits_val (nat_text n) = int n"
proof (induction n rule: nat_text.induct)
  case (1 n)
  show ?case
  proof (cases "n < 10")
    case True
    then show ?thesis
      using digits_val_snoc [of "[]"] by (subst nat_text.simps) simp
  next
    case False
    with 1 have "digits_val (nat_text (n div 10)) = int (n div 10)" by blast
    with False show ?thesis
      by (subst nat_text.simps) (simp add: of_nat_mod of_nat_div)
  qed
qed

lemma is_digit_not_sign: "is_digit c \<Longrightarrow> c \<noteq> CHR ''-'' \<and> c \<noteq> CHR ''+'' \<and> c \<noteq> CHR '':''"
  by (auto simp: is_digit_def)

lemma nat_text_hd: "\<exists>c cs. nat_text n = c # cs \<and> is_digit c"
  using nat_text_ne [of n] nat_text_digits [of n]
  by (cases "nat_text n") auto

lemma parse_int_nat_text:
  "int n \<le> max_int64 \<Longrightarrow> parse_int (nat_text n) = (int n, None)"
proof -
  assume le: "int n \<le> max_int64"
  obtain c cs where c: "nat_text n = c # cs" "is_digit c" using nat_text_hd by blast
  have "list_all is_digit (c # cs)" "digits_val (c # cs) = int n"
    using nat_text_digits [of n] digits_val_nat_text [of n] c(1) by simp_all
  with c le is_digit_not_sign [OF c(2)] show ?thesis
    by (auto simp: parse_int_def Let_def min_int64_def)
qed

lemma parse_int_itoa: "in_int64 n \<Longrightarrow> parse_int (itoa n) = (n, None)"
proof (cases "n < 0")
  case True
  assume r: "in_int64 n"
  with True show ?thesis
    by (auto simp: itoa_def parse_int_def Let_def in_int64_def min_int64_def max_int64_def)
next
  case False
  assume "in_int64 n"
  with False show ?thesis
    by (simp add: itoa_def parse_int_nat_text in_int64_def)
qed

lemma parse_int_ok_itoa [simp]: "in_int64 n \<Longrightarrow> parse_int_ok (itoa n) = Some n"
  by (simp add: parse_int_ok_def parse_int_itoa)

lemma parse_int_ok_in_int64: "parse_int_ok s = Some n \<Longrightarrow> in_int64 n"
  by (auto simp: parse_int_ok_def parse_int_def Let_def in_int64_def split: if_splits option.splits)

lemma nat_text_inj: "nat_text m = nat_text n \<Longrightarrow> m = n"
  by (metis digits_val_nat_text of_nat_eq_iff)

lemma itoa_inj: "itoa m = itoa n \<Longrightarrow> m = n"
proof -
  assume eq: "itoa m = itoa n"
  have hd: "hd (nat_text k) \<noteq> CHR ''-''" for k
    using nat_text_hd [of k] is_digit_not_sign by auto
  then have "m < 0 \<longleftrightarrow> n < 0"
    using eq hd [of "nat m"] hd [of "nat n"]
    by (auto simp: itoa_def split: if_splits) (metis list.sel(1))+
  with eq show ?thesis by (auto simp: itoa_def split: if_splits dest: nat_text_inj)
qed

lemma itoa_no_colon: "CHR '':'' \<notin> set (itoa n)"
  using nat_text_digits [of "nat n"] nat_text_digits [of "nat (- n)"] is_digit_not_sign
  by (auto simp: itoa_def list_all_iff)

subsection \<open>Cuts and splits\<close>

lemma cut_byte_none: "cut s [d] = None \<longleftrightarrow> d \<notin> set s"
  by (induction s) (auto simp: has_prefix_def)

lemma contains_byte_iff: "contains s [d] \<longleftrightarrow> d \<in> set s"
  using cut_byte_none [of s d] by (auto simp: contains_def)

lemma cut_byte_append: "d \<notin> set a \<Longrightarrow> cut (a @ d # b) [d] = Some (a, b)"
  by (induction a) (auto simp: has_prefix_def)

lemma split_byte_ne [simp]: "split_byte d s \<noteq> []"
  by (induction s) (auto split: list.splits)

lemma split_byte_none: "d \<notin> set s \<Longrightarrow> split_byte d s = [s]"
  by (induction s) auto

lemma split_byte_append: "d \<notin> set a \<Longrightarrow> split_byte d (a @ d # b) = a # split_byte d b"
  by (induction a) auto

lemma split_byte_no_sep: "w \<in> set (split_byte d s) \<Longrightarrow> d \<notin> set w"
  by (induction s arbitrary: w) (auto split: list.splits if_splits)

lemma split_byte_join: "ws \<noteq> [] \<Longrightarrow> \<forall>w \<in> set ws. d \<notin> set w \<Longrightarrow> split_byte d (join [d] ws) = ws"
proof (induction ws rule: induct_list012)
  case (2 w)
  then show ?case by (simp add: split_byte_none)
next
  case (3 w v ws)
  then show ?case using split_byte_append [of d w "join [d] (v # ws)"] by simp
qed simp

lemma join_split_byte: "join [d] (split_byte d s) = s"
proof (induction s)
  case (Cons c cs)
  then show ?case
    by (cases "split_byte d cs"; cases "tl (split_byte d cs)") (auto split: list.splits)
qed simp

lemma replace_byte_notin: "old \<notin> set new \<Longrightarrow> old \<notin> set (replace_byte old new s)"
  by (auto simp: replace_byte_def)

lemma replace_byte_keep: "d \<notin> set s \<Longrightarrow> d \<notin> set new \<Longrightarrow> d \<notin> set (replace_byte old new s)"
  by (auto simp: replace_byte_def)

lemma replace_byte_length: "length new = 1 \<Longrightarrow> length (replace_byte old new s) = length s"
  by (induction s) (auto simp: replace_byte_def)

lemma trim_right_append:
  "trim_right p (xs @ ys) = (if trim_right p ys = [] then trim_right p xs else xs @ trim_right p ys)"
  by (auto simp: trim_right_def dropWhile_append dropWhile_eq_Nil_conv)

lemma trim_right_keep: "xs = [] \<or> \<not> p (last xs) \<Longrightarrow> trim_right p xs = xs"
  by (cases xs rule: rev_cases) (auto simp: trim_right_def)

lemma trim_right_nil: "trim_right p xs = [] \<longleftrightarrow> (\<forall>x \<in> set xs. p x)"
  by (simp add: trim_right_def dropWhile_eq_Nil_conv)

lemma trim_right_subset: "set (trim_right p s) \<subseteq> set s"
  by (auto simp: trim_right_def dest: set_dropWhileD)

lemma itoa_digits: "0 \<le> n \<Longrightarrow> list_all is_digit (itoa n)"
  by (simp add: itoa_def)

lemma itoa_ne [simp]: "itoa n \<noteq> []"
  by (simp add: itoa_def)


text \<open>The same digits computed on \<^typ>\<open>int\<close>, for evaluation.\<close>

function int_text :: "int \<Rightarrow> string" where
  "int_text n =
     (if n < 10 then [digit_char (nat n)] else int_text (n div 10) @ [digit_char (nat (n mod 10))])"
  by auto
termination
  by (relation "measure nat") auto

declare int_text.simps [simp del]

lemma int_text_nat: "nat_text n = int_text (int n)"
proof (induction n rule: nat_text.induct)
  case (1 n)
  show ?case
  proof (cases "n < 10")
    case True
    then show ?thesis by (simp add: nat_text.simps int_text.simps)
  next
    case False
    with 1 show ?thesis
      by (subst nat_text.simps, subst int_text.simps) (simp add: zdiv_int nat_mod_distrib zmod_int)
  qed
qed

lemma itoa_code [code]: "itoa n = (if n < 0 then CHR ''-'' # int_text (- n) else int_text n)"
  by (simp add: itoa_def int_text_nat)

text \<open>Characters are compared and converted on \<^typ>\<open>int\<close> when they are evaluated.\<close>

lemma of_char_int: "(of_char c :: int) = int (of_char c)"
  by (rule of_nat_of_char [symmetric])

lemma is_digit_code [code]: "is_digit c \<longleftrightarrow> 48 \<le> (of_char c :: int) \<and> (of_char c :: int) \<le> 57"
  unfolding is_digit_def of_char_int by linarith

lemma digit_val_code [code]: "digit_val c = of_char c - 48"
  unfolding digit_val_def of_char_int ..

lemma digit_char_code [code]: "digit_char d = char_of (48 + int d)"
  unfolding digit_char_def by (metis char_of_nat of_nat_add of_nat_numeral)

lemma upper_char_code [code]:
  "upper_char c = (let n = (of_char c :: int) in if 97 \<le> n \<and> n \<le> 122 then char_of (n - 32) else c)"
proof (cases "97 \<le> (of_char c :: nat)")
  case True
  then have "int (of_char c) - 32 = int (of_char c - 32)" by linarith
  then have "char_of (int (of_char c) - 32) = char_of (of_char c - 32 :: nat)" by (metis char_of_nat)
  moreover have "97 \<le> int (of_char c) \<and> int (of_char c) \<le> 122 \<longleftrightarrow> 97 \<le> (of_char c :: nat) \<and> (of_char c :: nat) \<le> 122"
    by linarith
  ultimately show ?thesis unfolding upper_char_def Let_def of_char_int by argo
next
  case False
  then show ?thesis unfolding upper_char_def Let_def of_char_int by simp
qed

lemma less_char_code [code]: "(c :: char) < d \<longleftrightarrow> (of_char c :: int) < of_char d"
  unfolding less_char_def of_char_int by (simp only: of_nat_less_iff)

lemma less_eq_char_code [code]: "(c :: char) \<le> d \<longleftrightarrow> (of_char c :: int) \<le> of_char d"
  unfolding less_eq_char_def of_char_int by (simp only: of_nat_le_iff)

end
