(* ===== verification/Valkey_Keys.thy ===== *)
theory Valkey_Keys
  imports Go_Strings
begin

text \<open>
  \<^verbatim>\<open>dashboard/internal/keys/keys.go\<close>: the names of the Valkey keys, and why two monitors never
  share one. The notifier that writes the samples refuses dashboard and service names with a
  colon, which is what makes the names injective.
\<close>

definition Dashboards :: string where
  "Dashboards = ''emo:dashboards''"

definition Services :: "string \<Rightarrow> string" where
  "Services dash = ''emo:'' @ dash @ '':svcs''"

definition MetaKey :: "string \<Rightarrow> string \<Rightarrow> string" where
  "MetaKey dash svc = ''emo:'' @ dash @ '':'' @ svc @ '':meta''"

definition StatusHour :: "string \<Rightarrow> string \<Rightarrow> int \<Rightarrow> string" where
  "StatusHour dash svc hourEpoch = ''emo:'' @ dash @ '':'' @ svc @ '':s:'' @ itoa hourEpoch"

definition DetailHour :: "string \<Rightarrow> string \<Rightarrow> int \<Rightarrow> string" where
  "DetailHour dash svc hourEpoch = ''emo:'' @ dash @ '':'' @ svc @ '':d:'' @ itoa hourEpoch"

definition RollupAggregateHour :: "string \<Rightarrow> string \<Rightarrow> string" where
  "RollupAggregateHour dash svc = ''emo:'' @ dash @ '':'' @ svc @ '':rollup:agg:hour''"

definition RollupDaily :: "string \<Rightarrow> string \<Rightarrow> string" where
  "RollupDaily dash svc = ''emo:'' @ dash @ '':'' @ svc @ '':rollup:daily''"

lemmas key_defs = Dashboards_def Services_def MetaKey_def StatusHour_def DetailHour_def
  RollupAggregateHour_def RollupDaily_def

text \<open>A name the notifier accepts.\<close>

definition colon_free :: "string \<Rightarrow> bool" where
  "colon_free s \<longleftrightarrow> CHR '':'' \<notin> set s"

text \<open>The key split at its colons, which a decoder would read.\<close>

abbreviation key_parts :: "string \<Rightarrow> string list" where
  "key_parts \<equiv> split_byte (CHR '':'')"

lemma key_parts_append: "colon_free a \<Longrightarrow> key_parts (a @ CHR '':'' # b) = a # key_parts b"
  by (simp add: colon_free_def split_byte_append)

lemma key_parts_plain: "colon_free a \<Longrightarrow> key_parts a = [a]"
  by (simp add: colon_free_def split_byte_none)

lemma colon_free_itoa [simp]: "colon_free (itoa n)"
  by (simp add: colon_free_def itoa_no_colon)

lemma key_parts_emo: "key_parts (CHR ''e'' # CHR ''m'' # CHR ''o'' # CHR '':'' # b) = ''emo'' # key_parts b"
  using key_parts_append [of "''emo''" b] by (simp add: colon_free_def)

text \<open>What every key splits into.\<close>

lemma parts_Dashboards: "key_parts Dashboards = [''emo'', ''dashboards'']"
  by (simp add: Dashboards_def key_parts_emo)

lemma parts_Services: "colon_free dash \<Longrightarrow> key_parts (Services dash) = [''emo'', dash, ''svcs'']"
  using key_parts_append [of dash "''svcs''"] by (simp add: Services_def key_parts_emo)

lemma parts_service_key:
  assumes "colon_free dash" "colon_free svc"
  shows "key_parts (''emo:'' @ dash @ '':'' @ svc @ '':'' @ rest) = ''emo'' # dash # svc # key_parts rest"
  using key_parts_append [OF assms(1)] key_parts_append [OF assms(2)] by (simp add: key_parts_emo)

lemma parts_Meta:
  "colon_free dash \<Longrightarrow> colon_free svc \<Longrightarrow> key_parts (MetaKey dash svc) = [''emo'', dash, svc, ''meta'']"
  using parts_service_key [of dash svc "''meta''"] by (simp add: MetaKey_def)

lemma parts_StatusHour:
  assumes "colon_free dash" "colon_free svc"
  shows "key_parts (StatusHour dash svc h) = [''emo'', dash, svc, ''s'', itoa h]"
  using parts_service_key [OF assms, of "''s:'' @ itoa h"] key_parts_append [of "''s''" "itoa h"]
    key_parts_plain [of "itoa h"]
  by (simp add: StatusHour_def colon_free_def [of "''s''"])

lemma parts_DetailHour:
  assumes "colon_free dash" "colon_free svc"
  shows "key_parts (DetailHour dash svc h) = [''emo'', dash, svc, ''d'', itoa h]"
  using parts_service_key [OF assms, of "''d:'' @ itoa h"] key_parts_append [of "''d''" "itoa h"]
    key_parts_plain [of "itoa h"]
  by (simp add: DetailHour_def colon_free_def [of "''d''"])

lemma parts_RollupAggregateHour:
  assumes "colon_free dash" "colon_free svc"
  shows "key_parts (RollupAggregateHour dash svc) = [''emo'', dash, svc, ''rollup'', ''agg'', ''hour'']"
  using parts_service_key [OF assms, of "''rollup:agg:hour''"] by (simp add: RollupAggregateHour_def)

lemma parts_RollupDaily:
  assumes "colon_free dash" "colon_free svc"
  shows "key_parts (RollupDaily dash svc) = [''emo'', dash, svc, ''rollup'', ''daily'']"
  using parts_service_key [OF assms, of "''rollup:daily''"] by (simp add: RollupDaily_def)

lemmas key_part_simps = parts_Dashboards parts_Services parts_Meta parts_StatusHour parts_DetailHour
  parts_RollupAggregateHour parts_RollupDaily

text \<open>The kinds of keys, so that one statement covers every pair of them.\<close>

datatype key_kind =
    KDashboards
  | KServices string
  | KMeta string string
  | KStatus string string int
  | KDetail string string int
  | KRollupHour string string
  | KRollupDaily string string

fun key_of :: "key_kind \<Rightarrow> string" where
  "key_of KDashboards = Dashboards"
| "key_of (KServices d) = Services d"
| "key_of (KMeta d s) = MetaKey d s"
| "key_of (KStatus d s h) = StatusHour d s h"
| "key_of (KDetail d s h) = DetailHour d s h"
| "key_of (KRollupHour d s) = RollupAggregateHour d s"
| "key_of (KRollupDaily d s) = RollupDaily d s"

fun names_ok :: "key_kind \<Rightarrow> bool" where
  "names_ok KDashboards = True"
| "names_ok (KServices d) = colon_free d"
| "names_ok (KMeta d s) = (colon_free d \<and> colon_free s)"
| "names_ok (KStatus d s h) = (colon_free d \<and> colon_free s)"
| "names_ok (KDetail d s h) = (colon_free d \<and> colon_free s)"
| "names_ok (KRollupHour d s) = (colon_free d \<and> colon_free s)"
| "names_ok (KRollupDaily d s) = (colon_free d \<and> colon_free s)"

lemma key_of_inj:
  assumes "names_ok k" "names_ok k'" "key_of k = key_of k'"
  shows "k = k'"
proof -
  have "key_parts (key_of k) = key_parts (key_of k')" using assms(3) by simp
  with assms(1,2) show ?thesis
    by (cases k; cases k') (auto simp: key_part_simps dest: itoa_inj)
qed

end
