(* ===== verification/Go_Float.thy ===== *)
theory Go_Float
  imports Complex_Main "HOL-Library.Log_Nat" Emo_Prelude
begin

text \<open>
  Go's \<^verbatim>\<open>float64\<close> on the values the program computes with: finite binary64 numbers as
  rationals, every operation rounded to 53 significant bits, ties to even. The program's
  quantities are sums, products and quotients of counts and of milliseconds held in 64-bit
  integers, so overflow to infinity and subnormal numbers do not arise, and every division
  is guarded by a positive divisor.
\<close>

text \<open>The integer nearest to \<open>x\<close>, the even one at a tie.\<close>

definition round_even :: "rat \<Rightarrow> int" where
  "round_even x =
     (let f = \<lfloor>x\<rfloor>; r = x - of_int f
      in if r < 1 / 2 then f else if 1 / 2 < r then f + 1 else if even f then f else f + 1)"

text \<open>The exponent \<open>e\<close> with \<open>2 ^ 52 \<le> x / 2 ^ e < 2 ^ 53\<close>, for a positive \<open>x\<close>.\<close>

definition f64_exp :: "rat \<Rightarrow> int" where
  "f64_exp x =
     (let (p, q) = quotient_of x; k = bitlen p - bitlen q
      in if x < 2 powi k then k - 53 else k - 52)"

definition f64_pos :: "rat \<Rightarrow> rat" where
  "f64_pos x = of_int (round_even (x / 2 powi f64_exp x)) * 2 powi f64_exp x"

definition f64 :: "rat \<Rightarrow> rat" where
  "f64 x = (if x = 0 then 0 else if 0 < x then f64_pos x else - f64_pos (- x))"

definition f64_add :: "rat \<Rightarrow> rat \<Rightarrow> rat" where "f64_add a b = f64 (a + b)"
definition f64_sub :: "rat \<Rightarrow> rat \<Rightarrow> rat" where "f64_sub a b = f64 (a - b)"
definition f64_mul :: "rat \<Rightarrow> rat \<Rightarrow> rat" where "f64_mul a b = f64 (a * b)"
definition f64_div :: "rat \<Rightarrow> rat \<Rightarrow> rat" where "f64_div a b = f64 (a / b)"

text \<open>\<^verbatim>\<open>float64(n)\<close> of an integer.\<close>

definition f64_of_int :: "int \<Rightarrow> rat" where "f64_of_int n = f64 (of_int n)"

lemmas f64_ops = f64_add_def f64_sub_def f64_mul_def f64_div_def f64_of_int_def

section \<open>The laws of rounding a client relies on\<close>

locale float_arith =
  fixes rnd :: "rat \<Rightarrow> rat"
  assumes rnd_mono: "x \<le> y \<Longrightarrow> rnd x \<le> rnd y"
    and rnd_int: "\<bar>n\<bar> \<le> 2 ^ 53 \<Longrightarrow> rnd (of_int n) = of_int n"
begin

lemma rnd_zero: "rnd 0 = 0"
  using rnd_int [of 0] by simp

lemma rnd_nonneg: "0 \<le> x \<Longrightarrow> 0 \<le> rnd x"
  using rnd_mono [of 0 x] rnd_zero by simp

lemma rnd_between: "of_int lo \<le> x \<Longrightarrow> x \<le> of_int hi \<Longrightarrow> \<bar>lo\<bar> \<le> 2 ^ 53 \<Longrightarrow> \<bar>hi\<bar> \<le> 2 ^ 53
    \<Longrightarrow> of_int lo \<le> rnd x \<and> rnd x \<le> of_int hi"
  using rnd_mono rnd_int by metis

text \<open>The rounded mean of integers lies between their bounds, while the sum is exact.\<close>

lemma mean_between:
  fixes tot lo hi n :: int
  assumes "0 < n" "lo * n \<le> tot" "tot \<le> hi * n" "\<bar>tot\<bar> \<le> 2 ^ 53" "n \<le> 2 ^ 53"
    and "\<bar>lo\<bar> \<le> 2 ^ 53" "\<bar>hi\<bar> \<le> 2 ^ 53"
  shows "of_int lo \<le> rnd (rnd (of_int tot) / rnd (of_int n))"
    and "rnd (rnd (of_int tot) / rnd (of_int n)) \<le> of_int hi"
proof -
  have "rnd (of_int tot) / rnd (of_int n) = (of_int tot / of_int n :: rat)"
    using assms rnd_int [of tot] rnd_int [of n] by simp
  moreover have "of_int lo \<le> (of_int tot / of_int n :: rat)"
  proof -
    have "(of_int (lo * n) :: rat) \<le> of_int tot" using assms by (simp only: of_int_le_iff)
    with assms(1) show ?thesis by (simp add: pos_le_divide_eq)
  qed
  moreover have "(of_int tot / of_int n :: rat) \<le> of_int hi"
  proof -
    have "(of_int tot :: rat) \<le> of_int (hi * n)" using assms by (simp only: of_int_le_iff)
    with assms(1) show ?thesis by (simp add: pos_divide_le_eq)
  qed
  ultimately show "of_int lo \<le> rnd (rnd (of_int tot) / rnd (of_int n))"
    and "rnd (rnd (of_int tot) / rnd (of_int n)) \<le> of_int hi"
    using rnd_between assms(6,7) by simp_all
qed

end

section \<open>Binary64 rounding satisfies the laws\<close>

lemma round_even_cases: "round_even x = \<lfloor>x\<rfloor> \<or> round_even x = \<lfloor>x\<rfloor> + 1"
  by (simp add: round_even_def Let_def)

lemma round_even_int [simp]: "round_even (of_int n) = n"
  by (simp add: round_even_def)

lemma round_even_mono: "x \<le> y \<Longrightarrow> round_even x \<le> round_even y"
proof -
  assume le: "x \<le> y"
  then have fl: "\<lfloor>x\<rfloor> \<le> \<lfloor>y\<rfloor>" by (rule floor_mono)
  show ?thesis
  proof (cases "\<lfloor>x\<rfloor> = \<lfloor>y\<rfloor>")
    case True
    with le show ?thesis by (auto simp: round_even_def Let_def)
  next
    case False
    with fl round_even_cases [of x] round_even_cases [of y] show ?thesis by linarith
  qed
qed

lemma powi_pos [simp]: "0 < (2 :: rat) powi k"
  by simp

lemma powi_le_iff [simp]: "(2 :: rat) powi a \<le> 2 powi b \<longleftrightarrow> a \<le> b"
  by (metis power_int_increasing power_int_strict_increasing linorder_not_le one_le_numeral
      one_less_numeral_iff semiring_norm(76))

lemma powi_less_iff [simp]: "(2 :: rat) powi a < 2 powi b \<longleftrightarrow> a < b"
  by (meson linorder_not_le powi_le_iff)

lemma bitlen_powi:
  assumes "0 < n"
  shows "2 powi (bitlen n - 1) \<le> (of_int n :: rat)" "(of_int n :: rat) < 2 powi bitlen n"
proof -
  have b: "2 ^ nat (bitlen n - 1) \<le> n" "n < 2 ^ nat (bitlen n)" "0 < bitlen n"
    using bitlen_bounds [OF assms] bitlen_ge_iff_power [of 1 n] assms by auto
  have "(2 :: rat) powi (bitlen n - 1) = of_int (2 ^ nat (bitlen n - 1))"
    using b(3) by (simp add: power_int_def)
  with b(1) show "2 powi (bitlen n - 1) \<le> (of_int n :: rat)" by (simp only: of_int_le_iff)
  have "(2 :: rat) powi bitlen n = of_int (2 ^ nat (bitlen n))"
    using b(3) by (simp add: power_int_def)
  with b(2) show "(of_int n :: rat) < 2 powi bitlen n" by (simp only: of_int_less_iff)
qed

lemma f64_exp_bounds:
  assumes "0 < x"
  shows "2 powi (f64_exp x + 52) \<le> x" "x < 2 powi (f64_exp x + 53)"
proof -
  obtain p q where pq: "quotient_of x = (p, q)" by (cases "quotient_of x")
  have q: "0 < q" using quotient_of_denom_pos [OF pq] .
  have x: "x = of_int p / of_int q" using quotient_of_div [OF pq] .
  with assms q have p: "0 < p" by (simp add: zero_less_divide_iff)
  define k where "k = bitlen p - bitlen q"
  have "2 powi (bitlen p - 1) / 2 powi bitlen q \<le> x"
    unfolding x using bitlen_powi [OF p] bitlen_powi [OF q] q p
    by (intro frac_le) (auto intro: less_imp_le)
  then have lo: "2 powi (k - 1) \<le> x"
    by (simp add: k_def algebra_simps power_int_diff [symmetric])
  have "x < 2 powi bitlen p / 2 powi (bitlen q - 1)"
    unfolding x using bitlen_powi [OF p] bitlen_powi [OF q] q p
    by (intro frac_less) auto
  then have hi: "x < 2 powi (k + 1)"
    by (simp add: k_def algebra_simps power_int_diff [symmetric])
  have e: "f64_exp x = (if x < 2 powi k then k - 53 else k - 52)"
    by (simp add: f64_exp_def pq k_def)
  show "2 powi (f64_exp x + 52) \<le> x" using lo by (simp add: e)
  show "x < 2 powi (f64_exp x + 53)" using hi by (simp add: e add.commute)
qed

lemma f64_pos_bounds:
  assumes "0 < x"
  shows "2 powi (f64_exp x + 52) \<le> f64_pos x" "f64_pos x \<le> 2 powi (f64_exp x + 53)"
proof -
  define P :: rat where "P = 2 powi f64_exp x"
  have P: "0 < P" by (simp add: P_def)
  have s: "2 powi (f64_exp x + 52) = of_int (2 ^ 52) * P" "2 powi (f64_exp x + 53) = of_int (2 ^ 53) * P"
    by (simp_all add: P_def power_int_add)
  have "of_int (2 ^ 52) \<le> x / P" "x / P \<le> of_int (2 ^ 53)"
    using f64_exp_bounds [OF assms] P unfolding s by (simp_all add: pos_le_divide_eq pos_divide_le_eq)
  then have "2 ^ 52 \<le> round_even (x / P)" "round_even (x / P) \<le> 2 ^ 53"
    using round_even_mono [of "of_int (2 ^ 52)" "x / P"] round_even_mono [of "x / P" "of_int (2 ^ 53)"]
    by (simp_all del: of_int_power of_int_numeral)
  then show "2 powi (f64_exp x + 52) \<le> f64_pos x" "f64_pos x \<le> 2 powi (f64_exp x + 53)"
    unfolding f64_pos_def s P_def [symmetric] using P
    by (simp_all only: mult_le_cancel_right_pos of_int_le_iff)
qed

lemma f64_pos_mono:
  assumes "0 < x" "x \<le> y"
  shows "f64_pos x \<le> f64_pos y"
proof -
  have y: "0 < y" using assms by simp
  have "2 powi (f64_exp x + 52) < (2 powi (f64_exp y + 53) :: rat)"
    using f64_exp_bounds [OF assms(1)] f64_exp_bounds [OF y] assms(2) by linarith
  then have le: "f64_exp x \<le> f64_exp y" by simp
  show ?thesis
  proof (cases "f64_exp x = f64_exp y")
    case True
    have "x / 2 powi f64_exp y \<le> y / 2 powi f64_exp y"
      using assms(2) by (intro divide_right_mono) auto
    from round_even_mono [OF this] show ?thesis
      by (simp add: f64_pos_def True mult_right_mono)
  next
    case False
    with le have "2 powi (f64_exp x + 53) \<le> (2 powi (f64_exp y + 52) :: rat)" by simp
    with f64_pos_bounds [OF assms(1)] f64_pos_bounds [OF y] show ?thesis by linarith
  qed
qed

lemma f64_pos_pos: "0 < x \<Longrightarrow> 0 < f64_pos x"
  by (rule less_le_trans [OF _ f64_pos_bounds(1)]) simp_all

lemma f64_mono: "x \<le> y \<Longrightarrow> f64 x \<le> f64 y"
  using f64_pos_mono [of x y] f64_pos_mono [of "- y" "- x"] f64_pos_pos [of "- x"] f64_pos_pos [of y]
  by (auto simp: f64_def)

lemma f64_pos_int:
  assumes "0 < n" "n \<le> 2 ^ 53"
  shows "f64_pos (of_int n) = of_int n"
proof -
  let ?e = "f64_exp (of_int n)"
  have "2 powi (?e + 52) \<le> (of_int n :: rat)" using assms by (intro f64_exp_bounds) simp
  also have "(of_int n :: rat) \<le> of_int (2 ^ 53)" using assms(2) by (simp only: of_int_le_iff)
  also have "\<dots> = 2 powi 53" by simp
  finally have e: "?e \<le> 1" by (simp only: powi_le_iff)
  have ex: "\<exists>m. of_int n / 2 powi ?e = (of_int m :: rat)"
  proof (cases "?e = 1")
    case True
    have "2 powi 53 \<le> (of_int n :: rat)"
      using f64_exp_bounds(1) [of "of_int n"] assms True by simp
    then have "(of_int (2 ^ 53) :: rat) \<le> of_int n" by simp
    then have "n = 2 ^ 53" using assms(2) by (simp only: of_int_le_iff)
    then have "of_int n / 2 powi ?e = (of_int (2 ^ 52) :: rat)"
      unfolding True by simp
    then show ?thesis by blast
  next
    case False
    with e obtain k where k: "?e = - int k" using nonpos_int_cases [of ?e] by auto
    have "of_int n / 2 powi ?e = (of_int (n * 2 ^ k) :: rat)"
      unfolding k by (simp add: power_int_minus divide_inverse)
    then show ?thesis by blast
  qed
  then obtain m where m: "of_int n / 2 powi ?e = (of_int m :: rat)" by blast
  then have "f64_pos (of_int n) = of_int m * 2 powi ?e" by (simp add: f64_pos_def)
  also have "\<dots> = of_int n" using m by (simp add: field_simps)
  finally show ?thesis .
qed

lemma f64_int: "\<bar>n\<bar> \<le> 2 ^ 53 \<Longrightarrow> f64 (of_int n) = of_int n"
  using f64_pos_int [of n] f64_pos_int [of "- n"] by (auto simp: f64_def)

interpretation f64: float_arith f64
  by unfold_locales (rule f64_mono, assumption, rule f64_int)

lemma f64_of_int_exact [simp]: "\<bar>n\<bar> \<le> 2 ^ 53 \<Longrightarrow> f64_of_int n = of_int n"
  by (simp add: f64_of_int_def f64_int)

lemmas f64_mean_between = f64.mean_between [folded f64_of_int_def f64_div_def]

lemma f64_zero [simp]: "f64 0 = 0"
  by (simp add: f64_def)

lemma f64_nonneg: "0 \<le> x \<Longrightarrow> 0 \<le> f64 x"
  by (rule f64.rnd_nonneg)

section \<open>Evaluation on integers\<close>

definition round_div :: "int \<Rightarrow> int \<Rightarrow> int" where
  "round_div p q =
     (let f = p div q; r = 2 * (p mod q)
      in if r < q then f else if q < r then f + 1 else if even f then f else f + 1)"

lemma round_even_div:
  assumes "0 < q"
  shows "round_even (of_int p / of_int q) = round_div p q"
proof -
  have fl: "\<lfloor>of_int p / of_int q :: rat\<rfloor> = p div q" by (rule floor_divide_of_int_eq)
  have "(of_int p :: rat) = of_int (p div q * q + p mod q)" by (simp only: div_mult_mod_eq)
  then have "(of_int p :: rat) = of_int (p div q) * of_int q + of_int (p mod q)"
    by (simp only: of_int_add of_int_mult)
  then have r: "of_int p / of_int q - of_int (p div q) = (of_int (p mod q) / of_int q :: rat)"
    using assms by (simp add: field_simps)
  have "(of_int (p mod q) / of_int q < (1 / 2 :: rat)) = (of_int (2 * (p mod q)) < (of_int q :: rat))"
    "((1 / 2 :: rat) < of_int (p mod q) / of_int q) = ((of_int q :: rat) < of_int (2 * (p mod q)))"
    using assms by (simp_all add: field_simps)
  then have "(of_int (p mod q) / of_int q < (1 / 2 :: rat)) = (2 * (p mod q) < q)"
    "((1 / 2 :: rat) < of_int (p mod q) / of_int q) = (q < 2 * (p mod q))"
    by (simp_all only: of_int_less_iff)
  then show ?thesis by (simp only: round_even_def round_div_def Let_def fl r)
qed

definition pow2 :: "int \<Rightarrow> int" where "pow2 k = 2 ^ nat k"

lemma pow2_pos [simp]: "0 < pow2 k"
  by (simp add: pow2_def)

lemma powi_pow2: "2 powi k = (if 0 \<le> k then of_int (pow2 k) else inverse (of_int (pow2 (- k))) :: rat)"
  by (simp add: power_int_def pow2_def power_one_over inverse_eq_divide)

lemma f64_exp_code [code]:
  "f64_exp x =
     (let (p, q) = quotient_of x; k = bitlen p - bitlen q
      in if (if 0 \<le> k then p < q * pow2 k else p * pow2 (- k) < q) then k - 53 else k - 52)"
proof -
  obtain p q where pq: "quotient_of x = (p, q)" by fastforce
  have q: "0 < q" using pq by (rule quotient_of_denom_pos)
  have x: "x = of_int p / of_int q" using pq by (rule quotient_of_div)
  have "(x < 2 powi k) = (if 0 \<le> k then p < q * pow2 k else p * pow2 (- k) < q)" for k
  proof (cases "0 \<le> k")
    case True
    have "(x < of_int (pow2 k)) = ((of_int p :: rat) < of_int (q * pow2 k))"
      using q by (simp add: x pos_divide_less_eq mult.commute)
    with True show ?thesis by (simp only: powi_pow2 if_True of_int_less_iff)
  next
    case False
    have "(x < inverse (of_int (pow2 (- k)))) = ((of_int (p * pow2 (- k)) :: rat) < of_int q)"
      using q by (simp add: x field_simps)
    with False show ?thesis by (simp only: powi_pow2 if_False of_int_less_iff)
  qed
  then show ?thesis by (simp only: f64_exp_def pq Let_def prod.case)
qed

lemma f64_pos_code [code]:
  "f64_pos x =
     (let (p, q) = quotient_of x; e = f64_exp x
      in if 0 \<le> e then of_int (round_div p (q * pow2 e) * pow2 e)
         else Fract (round_div (p * pow2 (- e)) q) (pow2 (- e)))"
proof -
  obtain p q where pq: "quotient_of x = (p, q)" by fastforce
  have q: "0 < q" using pq by (rule quotient_of_denom_pos)
  have x: "x = of_int p / of_int q" using pq by (rule quotient_of_div)
  let ?e = "f64_exp x"
  show ?thesis
  proof (cases "0 \<le> ?e")
    case True
    have "x / 2 powi ?e = of_int p / of_int (q * pow2 ?e)"
      using True by (simp add: x powi_pow2)
    then have "round_even (x / 2 powi ?e) = round_div p (q * pow2 ?e)"
      using q by (simp only: round_even_div mult_pos_pos pow2_pos)
    then show ?thesis using True by (simp add: f64_pos_def pq powi_pow2 Let_def)
  next
    case False
    have "x / 2 powi ?e = of_int (p * pow2 (- ?e)) / of_int q"
      using False by (simp add: x powi_pow2 field_simps)
    then have "round_even (x / 2 powi ?e) = round_div (p * pow2 (- ?e)) q"
      using q by (simp only: round_even_div)
    then show ?thesis using False by (simp add: f64_pos_def pq powi_pow2 Let_def Fract_of_int_quotient divide_inverse)
  qed
qed

end
