(* ===== verification/Status_Ladder.thy ===== *)
theory Status_Ladder
  imports Emo_Prelude
begin

text \<open>
  \<^verbatim>\<open>dashboard/internal/status/ladder.go\<close>: the status of one location in one hour, the status
  across locations, and the worse of two statuses. Both statuses are Go string types, so a
  value read back from storage can be any string; the constants below are the ones the code
  produces.
\<close>

type_synonym location_status = string
type_synonym aggregate_status = string

definition LocationSuccess :: location_status where "LocationSuccess = ''success''"
definition LocationDegraded :: location_status where "LocationDegraded = ''degraded''"
definition LocationOutage :: location_status where "LocationOutage = ''outage''"

definition AggregateUnknown :: aggregate_status where "AggregateUnknown = ''unknown''"
definition AggregateOperational :: aggregate_status where "AggregateOperational = ''operational''"
definition AggregateDegraded :: aggregate_status where "AggregateDegraded = ''degraded''"
definition AggregateMajorOutage :: aggregate_status where "AggregateMajorOutage = ''major_outage''"

lemmas location_consts = LocationSuccess_def LocationDegraded_def LocationOutage_def
lemmas aggregate_consts = AggregateUnknown_def AggregateOperational_def AggregateDegraded_def
  AggregateMajorOutage_def

definition LocationFromCounts :: "int \<Rightarrow> int \<Rightarrow> location_status" where
  "LocationFromCounts successes failures =
     (if failures = 0 then LocationSuccess
      else if successes < failures then LocationOutage
      else LocationDegraded)"

definition count_status :: "(location_status \<Rightarrow> bool) \<Rightarrow> location_status list \<Rightarrow> nat" where
  "count_status p ss = length (filter p ss)"

definition AggregateFromLocations :: "location_status list \<Rightarrow> aggregate_status" where
  "AggregateFromLocations locStatuses =
     (if locStatuses = [] then AggregateUnknown
      else let nonSuccess = count_status (\<lambda>s. s \<noteq> LocationSuccess) locStatuses;
               outages = count_status (\<lambda>s. s = LocationOutage) locStatuses
        in if nonSuccess = length locStatuses \<and> 0 < outages then AggregateMajorOutage
           else if 0 < outages \<or> 1 < nonSuccess \<or> nonSuccess = length locStatuses
                then AggregateDegraded
           else AggregateOperational)"

text \<open>\<^verbatim>\<open>rank[s]\<close> of \<^verbatim>\<open>WorstAggregate\<close>: a string that is not in the table reads as 0.\<close>

definition status_rank :: "aggregate_status \<Rightarrow> int" where
  "status_rank = get_or 0
     [(AggregateUnknown, 0), (AggregateOperational, 1), (AggregateDegraded, 2),
      (AggregateMajorOutage, 3)]"

definition WorstAggregate :: "aggregate_status \<Rightarrow> aggregate_status \<Rightarrow> aggregate_status" where
  "WorstAggregate a b = (if status_rank b \<le> status_rank a then a else b)"

section \<open>The abstract scale of severities\<close>

datatype severity = Unknown | Operational | Degraded | MajorOutage

fun severity_index :: "severity \<Rightarrow> nat" where
  "severity_index Unknown = 0"
| "severity_index Operational = 1"
| "severity_index Degraded = 2"
| "severity_index MajorOutage = 3"

instantiation severity :: linorder
begin

definition less_eq_severity :: "severity \<Rightarrow> severity \<Rightarrow> bool" where
  "less_eq_severity a b \<longleftrightarrow> severity_index a \<le> severity_index b"

definition less_severity :: "severity \<Rightarrow> severity \<Rightarrow> bool" where
  "less_severity a b \<longleftrightarrow> severity_index a < severity_index b"

instance
proof
  fix a b :: severity
  show "a \<le> b \<Longrightarrow> b \<le> a \<Longrightarrow> a = b"
    by (cases a; cases b) (simp_all add: less_eq_severity_def)
qed (auto simp: less_eq_severity_def less_severity_def)

end

definition severity_of :: "aggregate_status \<Rightarrow> severity" where
  "severity_of s =
     (if s = AggregateMajorOutage then MajorOutage
      else if s = AggregateDegraded then Degraded
      else if s = AggregateOperational then Operational
      else Unknown)"

lemma status_rank_severity: "status_rank s = int (severity_index (severity_of s))"
  by (simp add: status_rank_def severity_of_def get_or_def aggregate_consts)

lemma severity_of_le: "severity_of a \<le> severity_of b \<longleftrightarrow> status_rank a \<le> status_rank b"
  by (simp add: status_rank_severity less_eq_severity_def)

lemma severity_of_worst: "severity_of (WorstAggregate a b) = max (severity_of a) (severity_of b)"
proof (cases "status_rank b \<le> status_rank a")
  case True
  then have "severity_of b \<le> severity_of a" by (simp add: severity_of_le)
  with True show ?thesis by (simp add: WorstAggregate_def max_absorb1)
next
  case False
  then have "severity_of a \<le> severity_of b" by (simp add: severity_of_le)
  with False show ?thesis by (simp add: WorstAggregate_def max_absorb2)
qed

section \<open>How bad one location is\<close>

definition location_level :: "location_status \<Rightarrow> nat" where
  "location_level s = (if s = LocationSuccess then 0 else if s = LocationOutage then 2 else 1)"

lemma location_level_simps [simp]:
  "location_level LocationSuccess = 0" "location_level LocationDegraded = 1"
  "location_level LocationOutage = 2"
  by (simp_all add: location_level_def location_consts)

lemma location_level_zero: "location_level s = 0 \<longleftrightarrow> s = LocationSuccess"
  by (simp add: location_level_def)

lemma location_level_two: "2 \<le> location_level s \<longleftrightarrow> s = LocationOutage"
  by (auto simp: location_level_def location_consts)

lemma severity_index_cases:
  "severity_index (severity_of AggregateUnknown) = 0"
  "severity_index (severity_of AggregateOperational) = 1"
  "severity_index (severity_of AggregateDegraded) = 2"
  "severity_index (severity_of AggregateMajorOutage) = 3"
  by (simp_all add: severity_of_def aggregate_consts)

lemma count_status_mset: "mset xs = mset ys \<Longrightarrow> count_status p xs = count_status p ys"
  by (metis count_status_def mset_filter size_mset)

lemma AggregateFromLocations_perm:
  assumes "mset xs = mset ys"
  shows "AggregateFromLocations xs = AggregateFromLocations ys"
proof -
  have "length xs = length ys" using assms by (metis size_mset)
  moreover have "(xs = []) = (ys = [])" using assms by auto
  ultimately show ?thesis
    by (simp only: AggregateFromLocations_def count_status_mset [OF assms])
qed

lemma count_status_all: "count_status p ss = length ss \<longleftrightarrow> (\<forall>s \<in> set ss. p s)"
  by (auto simp: count_status_def) (metis filter_True length_filter_less less_irrefl)

lemma count_status_pos: "0 < count_status p ss \<longleftrightarrow> (\<exists>s \<in> set ss. p s)"
  by (auto simp: count_status_def filter_empty_conv)

lemma count_status_rel:
  "list_all2 R xs ys \<Longrightarrow> (\<And>x y. R x y \<Longrightarrow> p x \<Longrightarrow> q y) \<Longrightarrow> count_status p xs \<le> count_status q ys"
  by (induction rule: list_all2_induct) (auto simp: count_status_def le_SucI)

text \<open>
  The meaning of the aggregate, read off the sources: a major outage needs every location
  to be failing and one of them to be out.
\<close>

lemma aggregate_major_iff:
  "AggregateFromLocations ss = AggregateMajorOutage \<longleftrightarrow>
     (\<forall>s \<in> set ss. s \<noteq> LocationSuccess) \<and> LocationOutage \<in> set ss"
  using count_status_all [of "\<lambda>s. s \<noteq> LocationSuccess" ss]
    count_status_pos [of "\<lambda>s. s = LocationOutage" ss]
  by (auto simp: AggregateFromLocations_def Let_def aggregate_consts)

lemma aggregate_operational_iff:
  "AggregateFromLocations ss = AggregateOperational \<longleftrightarrow>
     LocationSuccess \<in> set ss \<and> LocationOutage \<notin> set ss
     \<and> count_status (\<lambda>s. s \<noteq> LocationSuccess) ss \<le> 1"
  using count_status_all [of "\<lambda>s. s \<noteq> LocationSuccess" ss]
    count_status_pos [of "\<lambda>s. s = LocationOutage" ss]
  by (auto simp: AggregateFromLocations_def Let_def aggregate_consts location_consts)

lemma aggregate_unknown_iff: "AggregateFromLocations ss = AggregateUnknown \<longleftrightarrow> ss = []"
  by (simp add: AggregateFromLocations_def Let_def aggregate_consts)

lemma aggregate_severity_mono:
  assumes le: "list_all2 (\<lambda>a b. location_level a \<le> location_level b) xs ys"
  shows "severity_of (AggregateFromLocations xs) \<le> severity_of (AggregateFromLocations ys)"
proof -
  let ?ns = "\<lambda>s. s \<noteq> LocationSuccess" and ?out = "\<lambda>s. s = LocationOutage"
  have len: "length xs = length ys" using le by (rule list_all2_lengthD)
  have ns: "count_status ?ns xs \<le> count_status ?ns ys"
    by (rule count_status_rel [OF le]) (auto simp flip: location_level_zero)
  have out: "count_status ?out xs \<le> count_status ?out ys"
    by (rule count_status_rel [OF le]) (auto simp flip: location_level_two)
  have "count_status ?ns ys \<le> length ys" by (simp add: count_status_def)
  with ns out len show ?thesis
    by (auto simp: AggregateFromLocations_def Let_def less_eq_severity_def severity_index_cases)
qed

end
