(* ===== verification/Rollup_Data.thy ===== *)
theory Rollup_Data
  imports Go_Strings Go_Float Status_Ladder "HOL-Library.Monad_Syntax"
begin

text \<open>
  The records the dashboard stores (\<^verbatim>\<open>LocationRollup\<close>, \<^verbatim>\<open>FailureRun\<close>, \<^verbatim>\<open>AggregateRollup\<close>,
  \<^verbatim>\<open>DailyRollup\<close> of \<^verbatim>\<open>dashboard/internal/store/store.go\<close>) and their JSON documents, as
  \<^verbatim>\<open>encoding/json\<close> writes and reads them under the \<^verbatim>\<open>json:\<close> tags. A stored text that
  \<^verbatim>\<open>json.Marshal\<close> wrote is kept as the document it denotes (\<open>Doc\<close>); any other text is a
  \<open>Text\<close>, which \<^verbatim>\<open>json.Unmarshal\<close> refuses.
\<close>

record failure_run =
  fr_start :: int
  fr_end :: int
  fr_count :: int
  fr_message :: string
  fr_open_start :: bool
  fr_open_end :: bool

record location_rollup =
  lr_total :: int
  lr_success :: int
  lr_failure :: int
  lr_avg :: rat
  lr_min :: rat
  lr_max :: rat
  lr_measured :: int
  lr_status :: string
  lr_runs :: "failure_run list"

record aggregate_rollup =
  ag_status :: string
  ag_success :: int
  ag_failure :: int
  ag_avg :: rat
  ag_per_location :: "(string, location_rollup) gomap"
  ag_missing :: "string list"
  ag_in_progress :: bool

record daily_rollup =
  dr_date :: string
  dr_success :: int
  dr_failure :: int
  dr_total :: int

definition zero_lr :: location_rollup where
  "zero_lr = \<lparr>lr_total = 0, lr_success = 0, lr_failure = 0, lr_avg = 0, lr_min = 0, lr_max = 0,
     lr_measured = 0, lr_status = [], lr_runs = []\<rparr>"

definition zero_ag :: aggregate_rollup where
  "zero_ag = \<lparr>ag_status = [], ag_success = 0, ag_failure = 0, ag_avg = 0, ag_per_location = [],
     ag_missing = [], ag_in_progress = False\<rparr>"

definition zero_dr :: daily_rollup where
  "zero_dr = \<lparr>dr_date = [], dr_success = 0, dr_failure = 0, dr_total = 0\<rparr>"

lemma zero_lr_total [simp]: "lr_total zero_lr = 0"
  by (simp add: zero_lr_def)

lemma zero_ag_simps [simp]: "ag_per_location zero_ag = []" "ag_missing zero_ag = []"
  by (simp_all add: zero_ag_def)

section \<open>Texts inside JSON\<close>

definition byte_in :: "nat \<Rightarrow> nat \<Rightarrow> char \<Rightarrow> bool" where
  "byte_in lo hi c \<longleftrightarrow> lo \<le> of_char c \<and> of_char c \<le> hi"

text \<open>The length of the UTF-8 sequence a text starts with; 0 for a byte that starts none.\<close>

fun rune_len :: "string \<Rightarrow> nat" where
  "rune_len [] = 0"
| "rune_len (a # bs) =
     (if byte_in 0 127 a then 1
      else (case bs of
        [] \<Rightarrow> 0
      | b # cs \<Rightarrow>
          if byte_in 194 223 a then (if byte_in 128 191 b then 2 else 0)
          else (case cs of
            [] \<Rightarrow> 0
          | c # ds \<Rightarrow>
              if byte_in 224 239 a
              then (if byte_in (if byte_in 224 224 a then 160 else 128)
                         (if byte_in 237 237 a then 159 else 191) b \<and> byte_in 128 191 c
                    then 3 else 0)
              else if byte_in 240 244 a \<and> ds \<noteq> []
              then (if byte_in (if byte_in 240 240 a then 144 else 128)
                         (if byte_in 244 244 a then 143 else 191) b
                       \<and> byte_in 128 191 c \<and> byte_in 128 191 (hd ds)
                    then 4 else 0)
              else 0)))"

declare rune_len.simps(2) [simp del]

text \<open>
  The text as \<^verbatim>\<open>json.Marshal\<close> writes it: every byte that starts no UTF-8 sequence becomes the
  replacement character.
\<close>

definition replacement :: string where
  "replacement = [CHR 0xEF, CHR 0xBF, CHR 0xBD]"

function json_text :: "string \<Rightarrow> string" where
  "json_text [] = []"
| "json_text (c # cs) =
     (let n = rune_len (c # cs)
      in if n = 0 then replacement @ json_text cs
         else take n (c # cs) @ json_text (drop n (c # cs)))"
  by pat_completeness auto
termination
  by (relation "measure length") auto

declare json_text.simps(2) [simp del]

function utf8_valid :: "string \<Rightarrow> bool" where
  "utf8_valid [] = True"
| "utf8_valid (c # cs) =
     (let n = rune_len (c # cs) in if n = 0 then False else utf8_valid (drop n (c # cs)))"
  by pat_completeness auto
termination
  by (relation "measure length") auto

declare utf8_valid.simps(2) [simp del]

lemma json_text_valid: "utf8_valid s \<Longrightarrow> json_text s = s"
proof (induction s rule: utf8_valid.induct)
  case (2 c cs)
  then show ?case
    by (simp add: utf8_valid.simps(2) json_text.simps(2) Let_def split: if_splits)
qed simp

lemma ascii_valid: "list_all (byte_in 0 127) s \<Longrightarrow> utf8_valid s"
  by (induction s) (simp_all add: utf8_valid.simps(2) rune_len.simps(2))

section \<open>JSON documents\<close>

datatype json =
    JNull
  | JBool bool
  | JNum rat
  | JStr string
  | JArr "json list"
  | JObj "(string \<times> json) list"

datatype payload = Text string | Doc json

text \<open>
  The stored bytes where the code reads a value as a plain text. Only rollups are stored as
  documents, and the text of one starts with a brace.
\<close>

fun payload_text :: "payload \<Rightarrow> string" where
  "payload_text (Text s) = s"
| "payload_text (Doc j) = ''{}''"

text \<open>A field with \<^verbatim>\<open>omitempty\<close>.\<close>

definition omit :: "bool \<Rightarrow> string \<Rightarrow> json \<Rightarrow> (string \<times> json) list" where
  "omit skip k v = (if skip then [] else [(k, v)])"

abbreviation jint :: "int \<Rightarrow> json" where "jint n \<equiv> JNum (of_int n)"
abbreviation jstr :: "string \<Rightarrow> json" where "jstr s \<equiv> JStr (json_text s)"

definition marshal_run :: "failure_run \<Rightarrow> json" where
  "marshal_run r = JObj
     ([(''start'', jint (fr_start r)), (''end'', jint (fr_end r)), (''count'', jint (fr_count r)),
       (''message'', jstr (fr_message r))]
      @ omit (\<not> fr_open_start r) ''openStart'' (JBool (fr_open_start r))
      @ omit (\<not> fr_open_end r) ''openEnd'' (JBool (fr_open_end r)))"

definition marshal_location :: "location_rollup \<Rightarrow> json" where
  "marshal_location r = JObj
     ([(''total'', jint (lr_total r)), (''success'', jint (lr_success r)),
       (''failure'', jint (lr_failure r)), (''avgMs'', JNum (lr_avg r))]
      @ omit (lr_min r = 0) ''minMs'' (JNum (lr_min r))
      @ omit (lr_max r = 0) ''maxMs'' (JNum (lr_max r))
      @ omit (lr_measured r = 0) ''measured'' (jint (lr_measured r))
      @ [(''status'', jstr (lr_status r))]
      @ omit (lr_runs r = []) ''runs'' (JArr (map marshal_run (lr_runs r))))"

text \<open>A map is written with its keys in order.\<close>

definition sort_map :: "(string, 'v) gomap \<Rightarrow> (string, 'v) gomap" where
  "sort_map m = sort_key fst m"

definition marshal_aggregate :: "aggregate_rollup \<Rightarrow> json" where
  "marshal_aggregate r = JObj
     ([(''status'', jstr (ag_status r)), (''success'', jint (ag_success r)),
       (''failure'', jint (ag_failure r)), (''avgMs'', JNum (ag_avg r)),
       (''perLocation'', JObj (map (\<lambda>(k, v). (json_text k, marshal_location v))
          (sort_map (ag_per_location r))))]
      @ omit (ag_missing r = []) ''missing'' (JArr (map jstr (ag_missing r)))
      @ omit (\<not> ag_in_progress r) ''inProgress'' (JBool (ag_in_progress r)))"

definition marshal_daily :: "daily_rollup \<Rightarrow> json" where
  "marshal_daily r = JObj
     [(''date'', jstr (dr_date r)), (''success'', jint (dr_success r)),
      (''failure'', jint (dr_failure r)), (''total'', jint (dr_total r))]"

text \<open>
  Reading: a missing field and a \<^verbatim>\<open>null\<close> leave the zero value, a value of the wrong type or
  an integer out of range is an error of the whole document.
\<close>

fun dec_int :: "json \<Rightarrow> int option" where
  "dec_int (JNum q) = (if of_int \<lfloor>q\<rfloor> = q \<and> in_int64 \<lfloor>q\<rfloor> then Some \<lfloor>q\<rfloor> else None)"
| "dec_int _ = None"

fun dec_num :: "json \<Rightarrow> rat option" where
  "dec_num (JNum q) = Some q"
| "dec_num _ = None"

fun dec_str :: "json \<Rightarrow> string option" where
  "dec_str (JStr s) = Some s"
| "dec_str _ = None"

fun dec_bool :: "json \<Rightarrow> bool option" where
  "dec_bool (JBool b) = Some b"
| "dec_bool _ = None"

fun dec_list :: "(json \<Rightarrow> 'a option) \<Rightarrow> json \<Rightarrow> 'a list option" where
  "dec_list f (JArr js) = those (map f js)"
| "dec_list f _ = None"

text \<open>The entries of an object are stored in the map one after the other.\<close>

definition put_all :: "('k, 'v) gomap \<Rightarrow> ('k, 'v) gomap \<Rightarrow> ('k, 'v) gomap" where
  "put_all kvs m = fold (\<lambda>(k, v). map_put k v) kvs m"

fun dec_map :: "(json \<Rightarrow> 'a option) \<Rightarrow> json \<Rightarrow> (string, 'a) gomap option" where
  "dec_map f (JObj kvs) =
     map_option (\<lambda>l. put_all l []) (those (map (\<lambda>(k, j). map_option (Pair k) (f j)) kvs))"
| "dec_map f _ = None"

text \<open>An element of a list or map that is \<^verbatim>\<open>null\<close> is the zero value too.\<close>

definition or_null :: "'a \<Rightarrow> (json \<Rightarrow> 'a option) \<Rightarrow> json \<Rightarrow> 'a option" where
  "or_null z f j = (if j = JNull then Some z else f j)"

text \<open>
  A field is found under its exact name. In documents that the program did not write, the library would also
  take names in other cases, and the last of several entries.
\<close>

definition dec_field :: "'a \<Rightarrow> (json \<Rightarrow> 'a option) \<Rightarrow> (string \<times> json) list \<Rightarrow> string \<Rightarrow> 'a option" where
  "dec_field z f kvs k = (case map_of kvs k of None \<Rightarrow> Some z | Some j \<Rightarrow> or_null z f j)"

fun unmarshal_run :: "json \<Rightarrow> failure_run option" where
  "unmarshal_run (JObj o1) = do {
     s \<leftarrow> dec_field 0 dec_int o1 ''start'';
     e \<leftarrow> dec_field 0 dec_int o1 ''end'';
     n \<leftarrow> dec_field 0 dec_int o1 ''count'';
     m \<leftarrow> dec_field [] dec_str o1 ''message'';
     os \<leftarrow> dec_field False dec_bool o1 ''openStart'';
     oe \<leftarrow> dec_field False dec_bool o1 ''openEnd'';
     Some \<lparr>fr_start = s, fr_end = e, fr_count = n, fr_message = m, fr_open_start = os, fr_open_end = oe\<rparr>
   }"
| "unmarshal_run _ = None"

definition zero_run :: failure_run where
  "zero_run = \<lparr>fr_start = 0, fr_end = 0, fr_count = 0, fr_message = [], fr_open_start = False,
     fr_open_end = False\<rparr>"

fun unmarshal_location :: "json \<Rightarrow> location_rollup option" where
  "unmarshal_location (JObj o1) = do {
     t \<leftarrow> dec_field 0 dec_int o1 ''total'';
     s \<leftarrow> dec_field 0 dec_int o1 ''success'';
     f \<leftarrow> dec_field 0 dec_int o1 ''failure'';
     av \<leftarrow> dec_field 0 dec_num o1 ''avgMs'';
     mi \<leftarrow> dec_field 0 dec_num o1 ''minMs'';
     ma \<leftarrow> dec_field 0 dec_num o1 ''maxMs'';
     me \<leftarrow> dec_field 0 dec_int o1 ''measured'';
     st \<leftarrow> dec_field [] dec_str o1 ''status'';
     rs \<leftarrow> dec_field [] (dec_list (or_null zero_run unmarshal_run)) o1 ''runs'';
     Some \<lparr>lr_total = t, lr_success = s, lr_failure = f, lr_avg = av, lr_min = mi, lr_max = ma,
       lr_measured = me, lr_status = st, lr_runs = rs\<rparr>
   }"
| "unmarshal_location _ = None"

fun unmarshal_aggregate :: "json \<Rightarrow> aggregate_rollup option" where
  "unmarshal_aggregate (JObj o1) = do {
     st \<leftarrow> dec_field [] dec_str o1 ''status'';
     s \<leftarrow> dec_field 0 dec_int o1 ''success'';
     f \<leftarrow> dec_field 0 dec_int o1 ''failure'';
     av \<leftarrow> dec_field 0 dec_num o1 ''avgMs'';
     pl \<leftarrow> dec_field [] (dec_map (or_null zero_lr unmarshal_location)) o1 ''perLocation'';
     mi \<leftarrow> dec_field [] (dec_list (or_null [] dec_str)) o1 ''missing'';
     ip \<leftarrow> dec_field False dec_bool o1 ''inProgress'';
     Some \<lparr>ag_status = st, ag_success = s, ag_failure = f, ag_avg = av, ag_per_location = pl,
       ag_missing = mi, ag_in_progress = ip\<rparr>
   }"
| "unmarshal_aggregate JNull = Some zero_ag"
| "unmarshal_aggregate _ = None"

fun unmarshal_daily :: "json \<Rightarrow> daily_rollup option" where
  "unmarshal_daily (JObj o1) = do {
     d \<leftarrow> dec_field [] dec_str o1 ''date'';
     s \<leftarrow> dec_field 0 dec_int o1 ''success'';
     f \<leftarrow> dec_field 0 dec_int o1 ''failure'';
     t \<leftarrow> dec_field 0 dec_int o1 ''total'';
     Some \<lparr>dr_date = d, dr_success = s, dr_failure = f, dr_total = t\<rparr>
   }"
| "unmarshal_daily JNull = Some zero_dr"
| "unmarshal_daily _ = None"

text \<open>\<^verbatim>\<open>json.Unmarshal\<close> of a stored value.\<close>

fun unmarshal :: "(json \<Rightarrow> 'a option) \<Rightarrow> payload \<Rightarrow> 'a option" where
  "unmarshal f (Doc j) = f j"
| "unmarshal f (Text _) = None"

section \<open>What is written reads back\<close>

text \<open>
  The rollups the code stores: counts within \<^verbatim>\<open>int64\<close>, texts of valid UTF-8, one entry per
  location.
\<close>

definition run_ok :: "failure_run \<Rightarrow> bool" where
  "run_ok r \<longleftrightarrow> in_int64 (fr_start r) \<and> in_int64 (fr_end r) \<and> in_int64 (fr_count r)
     \<and> utf8_valid (fr_message r)"

definition lr_ok :: "location_rollup \<Rightarrow> bool" where
  "lr_ok r \<longleftrightarrow> in_int64 (lr_total r) \<and> in_int64 (lr_success r) \<and> in_int64 (lr_failure r)
     \<and> in_int64 (lr_measured r) \<and> utf8_valid (lr_status r) \<and> list_all run_ok (lr_runs r)"

definition ag_ok :: "aggregate_rollup \<Rightarrow> bool" where
  "ag_ok r \<longleftrightarrow> in_int64 (ag_success r) \<and> in_int64 (ag_failure r) \<and> utf8_valid (ag_status r)
     \<and> list_all (\<lambda>(k, v). utf8_valid k \<and> lr_ok v) (ag_per_location r) \<and> wf_map (ag_per_location r)
     \<and> list_all utf8_valid (ag_missing r)"

lemma dec_int_jint [simp]: "in_int64 n \<Longrightarrow> dec_int (jint n) = Some n"
  by simp

lemma or_null_simps [simp]:
  "or_null z f (JNum q) = f (JNum q)" "or_null z f (JStr s) = f (JStr s)"
  "or_null z f (JBool b) = f (JBool b)" "or_null z f (JArr js) = f (JArr js)"
  "or_null z f (JObj kvs) = f (JObj kvs)"
  by (simp_all add: or_null_def)

lemma those_map_Some: "\<forall>x \<in> set xs. f x = Some (g x) \<Longrightarrow> those (map f xs) = Some (map g xs)"
  by (induction xs) auto

lemma unmarshal_marshal_run: "run_ok r \<Longrightarrow> unmarshal_run (marshal_run r) = Some r"
  by (simp add: run_ok_def marshal_run_def omit_def dec_field_def json_text_valid)

lemma unmarshal_marshal_runs:
  "list_all run_ok rs \<Longrightarrow> those (map (or_null zero_run unmarshal_run \<circ> marshal_run) rs) = Some rs"
proof (induction rs)
  case (Cons r rs)
  then have "or_null zero_run unmarshal_run (marshal_run r) = Some r"
    using unmarshal_marshal_run [of r] by (simp add: marshal_run_def)
  with Cons show ?case by simp
qed simp

lemma unmarshal_marshal_location: "lr_ok r \<Longrightarrow> unmarshal_location (marshal_location r) = Some r"
  by (auto simp: lr_ok_def marshal_location_def omit_def dec_field_def json_text_valid
      unmarshal_marshal_runs)

lemma unmarshal_marshal_locations:
  assumes "list_all (\<lambda>(k, v). utf8_valid k \<and> lr_ok v) m"
  shows "those (map ((\<lambda>(k, j). map_option (Pair k) (or_null zero_lr unmarshal_location j))
      \<circ> (\<lambda>(k, v). (json_text k, marshal_location v))) m) = Some m"
  using assms
proof (induction m)
  case (Cons kv m)
  then have "or_null zero_lr unmarshal_location (marshal_location (snd kv)) = Some (snd kv)"
    using unmarshal_marshal_location [of "snd kv"] by (auto simp: marshal_location_def)
  with Cons show ?case by (auto simp: json_text_valid split: prod.splits)
qed simp

lemma unmarshal_marshal_strings:
  "list_all utf8_valid ss \<Longrightarrow> those (map (or_null [] dec_str \<circ> (\<lambda>s. jstr s)) ss) = Some ss"
  by (induction ss) (auto simp: json_text_valid)

lemma sort_map_all: "list_all p (sort_map m) = list_all p m"
  by (simp add: sort_map_def list_all_iff)

lemma map_of_sort_map: "wf_map m \<Longrightarrow> map_of (sort_map m) = map_of m"
  by (rule map_of_mset_cong [symmetric]) (simp_all add: sort_map_def)

lemma wf_sort_map: "wf_map (sort_map m) = wf_map m"
proof -
  have "mset (map fst (sort_map m)) = mset (map fst m)" by (simp add: sort_map_def)
  then show ?thesis by (metis mset_eq_imp_distinct_iff)
qed

text \<open>Storing the entries one after the other keeps a well-formed map as it is.\<close>

lemma map_put_new: "\<not> has_key m k \<Longrightarrow> map_put k v m = m @ [(k, v)]"
  by (induction m) auto

lemma put_all_append: "wf_map (m @ kvs) \<Longrightarrow> put_all kvs m = m @ kvs"
proof (induction kvs arbitrary: m)
  case (Cons kv kvs)
  then have "\<not> has_key m (fst kv)"
    by (auto simp: map_of_eq_None_iff)
  with Cons show ?case
    by (cases kv) (simp add: put_all_def map_put_new)
qed (simp add: put_all_def)

lemma put_all_id: "wf_map kvs \<Longrightarrow> put_all kvs [] = kvs"
  using put_all_append [of "[]" kvs] by simp

lemma wf_put_all: "wf_map m \<Longrightarrow> wf_map (put_all kvs m)"
  by (induction kvs arbitrary: m) (auto simp: put_all_def split: prod.splits)

lemma unmarshal_marshal_aggregate:
  assumes "ag_ok r"
  shows "unmarshal_aggregate (marshal_aggregate r) =
    Some (r\<lparr>ag_per_location := sort_map (ag_per_location r)\<rparr>)"
proof -
  have "list_all (\<lambda>(k, v). utf8_valid k \<and> lr_ok v) (sort_map (ag_per_location r))"
    using assms by (simp add: sort_map_all ag_ok_def)
  note pl = unmarshal_marshal_locations [OF this]
  have pa: "put_all (sort_map (ag_per_location r)) [] = sort_map (ag_per_location r)"
    using assms by (intro put_all_id) (simp add: wf_sort_map ag_ok_def)
  show ?thesis
    using assms
    by (auto simp: ag_ok_def marshal_aggregate_def omit_def dec_field_def json_text_valid
        pl pa unmarshal_marshal_strings)
qed

lemma unmarshal_marshal_daily:
  "in_int64 (dr_success r) \<Longrightarrow> in_int64 (dr_failure r) \<Longrightarrow> in_int64 (dr_total r)
    \<Longrightarrow> utf8_valid (dr_date r) \<Longrightarrow> unmarshal_daily (marshal_daily r) = Some r"
  by (simp add: marshal_daily_def dec_field_def json_text_valid)

text \<open>Visiting a map by its sorted keys is visiting its sorted entries.\<close>

lemma sorted_keys_entries:
  assumes "wf_map (m :: (string, 'v) gomap)"
  shows "map (get_or z m) (sort (map fst m)) = map snd (sort_map m)"
proof -
  have "sort (map fst m) = map fst (sort_map m)"
    by (rule properties_for_sort) (simp_all add: sort_map_def)
  moreover have "map (get_or z m) (map fst (sort_map m)) = map snd (sort_map m)"
    using assms by (auto simp: sort_map_def wf_map_get)
  ultimately show ?thesis by simp
qed

lemma sort_map_cong:
  assumes "wf_map m" "wf_map m'" "map_of m = map_of (m' :: (string, 'v) gomap)"
  shows "sort_map m = sort_map m'"
  unfolding sort_map_def
proof (rule sort_key_perm)
  show "mset m = mset m'" using assms by (rule map_of_eq_imp_mset)
  show "inj_on fst (set m)" using assms(1) by (simp add: distinct_map)
qed

lemma map_of_put_all: "wf_map kvs \<Longrightarrow> map_of (put_all kvs []) = map_of kvs"
  by (simp add: put_all_id)

lemma set_put_all: "set (put_all kvs m) \<subseteq> set kvs \<union> set m"
proof (induction kvs arbitrary: m)
  case (Cons kv kvs)
  have "set (put_all kvs (map_put (fst kv) (snd kv) m)) \<subseteq> set kvs \<union> insert kv (set m)"
    using Cons.IH [of "map_put (fst kv) (snd kv) m"] set_map_put [of "fst kv" "snd kv" m] by auto
  then show ?case by (auto simp: put_all_def case_prod_unfold)
qed (simp add: put_all_def)

end
