(* ===== verification/Valkey_Client.thy ===== *)
theory Valkey_Client
  imports Rollup_Data
begin

text \<open>
  What the dashboard uses of a Valkey connection: the table of client calls is an argument of
  every store operation, over a state \<open>'s\<close> of the server behind the connection. A call that
  only reads returns its value or an error; a call that writes returns the next state and its
  error, if any. The locale states what the store relies on; the in-memory server of
  \<^verbatim>\<open>valkeytest\<close> provides it (theory \<open>Valkey_Test_Server\<close>).
\<close>

record 's valkey_client =
  vc_smembers :: "'s \<Rightarrow> string \<Rightarrow> string list result"
  vc_hgetall :: "'s \<Rightarrow> string \<Rightarrow> (string, payload) gomap result"
  vc_hget :: "'s \<Rightarrow> string \<Rightarrow> string \<Rightarrow> payload option result"
  vc_hkeys :: "'s \<Rightarrow> string \<Rightarrow> string list result"
  vc_hset :: "'s \<Rightarrow> string \<Rightarrow> string \<Rightarrow> payload \<Rightarrow> 's \<times> string option"
  vc_hexpire :: "'s \<Rightarrow> string \<Rightarrow> int \<Rightarrow> string \<Rightarrow> 's \<times> string option"
  vc_hdel :: "'s \<Rightarrow> string \<Rightarrow> string \<Rightarrow> 's \<times> string option"
  vc_persist :: "'s \<Rightarrow> string \<Rightarrow> 's \<times> string option"

text \<open>
  \<open>hash\<close>, \<open>field_ttl\<close> and \<open>key_ttl\<close> read the server's state: the fields of a hash, the
  time to live in seconds of each field, and that of a whole key.
\<close>

locale valkey_laws =
  fixes vc :: "'s valkey_client"
    and hash :: "'s \<Rightarrow> string \<Rightarrow> string \<Rightarrow> payload option"
    and field_ttl :: "'s \<Rightarrow> string \<Rightarrow> string \<Rightarrow> int option"
    and key_ttl :: "'s \<Rightarrow> string \<Rightarrow> int option"
  assumes hget: "vc_hget vc s k f = Inr x \<Longrightarrow> x = hash s k f"
    and hgetall: "vc_hgetall vc s k = Inr m \<Longrightarrow> map_of m = hash s k \<and> wf_map m"
    and hset: "vc_hset vc s k f v = (s', None) \<Longrightarrow> hash s' = (hash s)(k := (hash s k)(f \<mapsto> v))"
    and hset_err: "vc_hset vc s k f v = (s', Some e) \<Longrightarrow> hash s' = hash s"
    and hexpire: "0 < ttl \<Longrightarrow> in_int64 ttl \<Longrightarrow> vc_hexpire vc s k ttl f = (s', r) \<Longrightarrow> hash s' = hash s"
    and hexpire_ttl: "0 < ttl \<Longrightarrow> in_int64 ttl \<Longrightarrow> hash s k f \<noteq> None \<Longrightarrow> vc_hexpire vc s k ttl f = (s', None)
      \<Longrightarrow> field_ttl s' k f = Some ttl"
    and hdel: "vc_hdel vc s k f = (s', None) \<Longrightarrow> hash s' = (hash s)(k := (hash s k)(f := None))"
    and hdel_err: "vc_hdel vc s k f = (s', Some e) \<Longrightarrow> hash s' = hash s"
    and persist: "vc_persist vc s k = (s', r) \<Longrightarrow> hash s' = hash s \<and> field_ttl s' = field_ttl s"
    and persist_ttl: "vc_persist vc s k = (s', None) \<Longrightarrow> key_ttl s' k = None"

end
