(* ===== verification/Valkey_Test_Server.thy ===== *)
theory Valkey_Test_Server
  imports Valkey_Client
begin

text \<open>
  \<^verbatim>\<open>dashboard/internal/valkeytest/valkeytest.go\<close>: the in-memory server the repository tests its
  store against, command by command, and the proof that it gives the laws of
  \<open>valkey_laws\<close>. The log of received commands is in \<open>Valkey_Test_Control\<close>. A
  request that would index past its arguments, where the Go code panics, has no reply.
\<close>

record vt_failure =
  fl_cmd :: string
  fl_key_part :: string
  fl_msg :: string

record vt_server =
  vt_hashes :: "(string, (string, payload) gomap) gomap"
  vt_sets :: "(string, string list) gomap"
  vt_key_ttl :: "(string, int) gomap"
  vt_field_ttl :: "(string, (string, int) gomap) gomap"
  vt_failures :: "vt_failure list"

datatype resp =
    RStatus string
  | RError string
  | RInt int
  | RNull
  | RBulk payload
  | RArray "resp list"
  | RMap "(payload \<times> payload) list"
  | RSet "payload list"

definition vt_hash :: "vt_server \<Rightarrow> string \<Rightarrow> (string, payload) gomap" where
  "vt_hash s k = get_or [] (vt_hashes s) k"

definition vt_set :: "vt_server \<Rightarrow> string \<Rightarrow> string list" where
  "vt_set s k = get_or [] (vt_sets s) k"

definition vt_fttl :: "vt_server \<Rightarrow> string \<Rightarrow> (string, int) gomap" where
  "vt_fttl s k = get_or [] (vt_field_ttl s) k"

text \<open>\<^verbatim>\<open>Start\<close>, \<^verbatim>\<open>Fail\<close> and \<^verbatim>\<open>Heal\<close>: an empty server, and the failures the tests set.\<close>

definition vt_start :: vt_server where
  "vt_start = \<lparr>vt_hashes = [], vt_sets = [], vt_key_ttl = [], vt_field_ttl = [], vt_failures = []\<rparr>"

definition vt_fail :: "vt_server \<Rightarrow> string \<Rightarrow> string \<Rightarrow> string \<Rightarrow> vt_server" where
  "vt_fail s cmd keyPart msg =
     s\<lparr>vt_failures := vt_failures s @ [\<lparr>fl_cmd = cmd, fl_key_part = keyPart, fl_msg = msg\<rparr>]\<rparr>"

definition vt_heal :: "vt_server \<Rightarrow> vt_server" where
  "vt_heal s = s\<lparr>vt_failures := []\<rparr>"

definition vt_hset :: "vt_server \<Rightarrow> string \<Rightarrow> string \<Rightarrow> payload \<Rightarrow> vt_server" where
  "vt_hset s k f v = s\<lparr>vt_hashes := map_put k (map_put f v (vt_hash s k)) (vt_hashes s)\<rparr>"

definition vt_del :: "vt_server \<Rightarrow> string \<Rightarrow> vt_server" where
  "vt_del s k = s\<lparr>vt_hashes := map_del k (vt_hashes s), vt_sets := map_del k (vt_sets s),
     vt_key_ttl := map_del k (vt_key_ttl s), vt_field_ttl := map_del k (vt_field_ttl s)\<rparr>"

text \<open>\<^verbatim>\<open>delete\<close> on a nested map that does not exist changes nothing.\<close>

definition del_nested :: "string \<Rightarrow> string \<Rightarrow> (string, (string, 'a) gomap) gomap
    \<Rightarrow> (string, (string, 'a) gomap) gomap" where
  "del_nested k f m = (case map_of m k of None \<Rightarrow> m | Some h \<Rightarrow> map_put k (map_del f h) m)"

definition vt_hdel :: "vt_server \<Rightarrow> string \<Rightarrow> string \<Rightarrow> vt_server" where
  "vt_hdel s k f =
     (let s1 = s\<lparr>vt_hashes := del_nested k f (vt_hashes s),
                 vt_field_ttl := del_nested k f (vt_field_ttl s)\<rparr>
      in if vt_hash s1 k = [] then vt_del s1 k else s1)"

definition vt_sadd :: "vt_server \<Rightarrow> string \<Rightarrow> string \<Rightarrow> vt_server" where
  "vt_sadd s k m = s\<lparr>vt_sets := map_put k (List.insert m (vt_set s k)) (vt_sets s)\<rparr>"

definition vt_exists :: "vt_server \<Rightarrow> string \<Rightarrow> bool" where
  "vt_exists s k \<longleftrightarrow> has_key (vt_hashes s) k \<or> has_key (vt_sets s) k"

text \<open>The fields of a hash in the order the replies list them.\<close>

definition sorted_fields :: "(string, payload) gomap \<Rightarrow> string list" where
  "sorted_fields h = sort (remdups (map fst h))"

fun hset_pairs :: "vt_server \<Rightarrow> string \<Rightarrow> payload list \<Rightarrow> int \<times> vt_server" where
  "hset_pairs s k (f # v # rest) =
     (let added = (if has_key (vt_hash s k) (payload_text f) then 0 else 1);
          (n, s') = hset_pairs (vt_hset s k (payload_text f) v) k rest
      in (added + n, s'))"
| "hset_pairs s k _ = (0, s)"

fun hdel_fields :: "vt_server \<Rightarrow> string \<Rightarrow> payload list \<Rightarrow> int \<times> vt_server" where
  "hdel_fields s k [] = (0, s)"
| "hdel_fields s k (f # fs) =
     (if has_key (vt_hash s k) (payload_text f)
      then (let (n, s') = hdel_fields (vt_hdel s k (payload_text f)) k fs in (1 + n, s'))
      else hdel_fields s k fs)"

fun hexpire_fields :: "vt_server \<Rightarrow> string \<Rightarrow> int \<Rightarrow> payload list \<Rightarrow> resp list \<times> vt_server" where
  "hexpire_fields s k ttl [] = ([], s)"
| "hexpire_fields s k ttl (f # fs) =
     (if \<not> has_key (vt_hash s k) (payload_text f)
      then (let (rs, s') = hexpire_fields s k ttl fs in (RInt (-2) # rs, s'))
      else if ttl \<le> 0
      then (let (rs, s') = hexpire_fields (vt_hdel s k (payload_text f)) k ttl fs in (RInt 2 # rs, s'))
      else (let s1 = s\<lparr>vt_field_ttl := map_put k (map_put (payload_text f) ttl (vt_fttl s k)) (vt_field_ttl s)\<rparr>;
                (rs, s') = hexpire_fields s1 k ttl fs
            in (RInt 1 # rs, s')))"

fun sadd_members :: "vt_server \<Rightarrow> string \<Rightarrow> payload list \<Rightarrow> int \<times> vt_server" where
  "sadd_members s k [] = (0, s)"
| "sadd_members s k (m # ms) =
     (let added = (if payload_text m \<in> set (vt_set s k) then 0 else 1);
          (n, s') = sadd_members (vt_sadd s k (payload_text m)) k ms
      in (added + n, s'))"

fun del_keys :: "vt_server \<Rightarrow> payload list \<Rightarrow> int \<times> vt_server" where
  "del_keys s [] = (0, s)"
| "del_keys s (k # ks) =
     (let removed = (if vt_exists s (payload_text k) then 1 else 0);
          (n, s') = del_keys (vt_del s (payload_text k)) ks
      in (removed + n, s'))"

text \<open>The message of the first failure set on the command and a part of its key.\<close>

fun vt_failing :: "vt_failure list \<Rightarrow> string \<Rightarrow> string \<Rightarrow> string option" where
  "vt_failing [] cmd key = None"
| "vt_failing (f # fs) cmd key =
     (if fl_cmd f = cmd \<and> contains key (fl_key_part f) then Some (fl_msg f)
      else vt_failing fs cmd key)"

definition wrong_args :: resp where
  "wrong_args = RError (''ERR wrong number of arguments for '' @ [CHR 0x27] @ ''hset'' @ [CHR 0x27] @ '' command'')"

definition not_integer :: resp where
  "not_integer = RError ''ERR value is not an integer or out of range''"

text \<open>
  The commands that run under the server's lock: \<open>name\<close> as received, \<open>cmd\<close> in upper case, and
  the arguments that follow.
\<close>

definition vt_command :: "vt_server \<Rightarrow> string \<Rightarrow> string \<Rightarrow> payload list \<Rightarrow> (resp \<times> vt_server) option" where
  "vt_command s name cmd args =
     (if cmd = ''HSET'' then
        (if length args < 3 \<or> even (length args) then Some (wrong_args, s)
         else let (n, s') = hset_pairs s (payload_text (args ! 0)) (drop 1 args) in Some (RInt n, s'))
      else if cmd = ''HGETALL'' then
        (case args of k # _ \<Rightarrow>
           (let h = vt_hash s (payload_text k)
            in Some (RMap (map (\<lambda>f. (Text f, get_or (Text []) h f)) (sorted_fields h)), s))
         | [] \<Rightarrow> None)
      else if cmd = ''HGET'' then
        (case args of k # f # _ \<Rightarrow>
           (case map_of (vt_hash s (payload_text k)) (payload_text f) of
              Some v \<Rightarrow> Some (RBulk v, s) | None \<Rightarrow> Some (RNull, s))
         | _ \<Rightarrow> None)
      else if cmd = ''HKEYS'' then
        (case args of k # _ \<Rightarrow>
           Some (RArray (map (\<lambda>f. RBulk (Text f)) (sorted_fields (vt_hash s (payload_text k)))), s)
         | [] \<Rightarrow> None)
      else if cmd = ''HDEL'' then
        (case args of k # fs \<Rightarrow> (let (n, s') = hdel_fields s (payload_text k) fs in Some (RInt n, s'))
         | [] \<Rightarrow> None)
      else if cmd = ''HEXPIRE'' then
        (if length args < 5 \<or> to_upper (payload_text (args ! 2)) \<noteq> ''FIELDS''
         then Some (RError ''ERR syntax error'', s)
         else (case parse_int_ok (payload_text (args ! 1)) of
             None \<Rightarrow> Some (not_integer, s)
           | Some ttl \<Rightarrow>
               if parse_int_ok (payload_text (args ! 3)) \<noteq> Some (int (length (drop 4 args)))
               then Some (RError ''ERR numfields does not match the number of fields'', s)
               else let (rs, s') = hexpire_fields s (payload_text (args ! 0)) ttl (drop 4 args)
                    in Some (RArray rs, s')))
      else if cmd = ''EXPIRE'' then
        (case args of k # t # _ \<Rightarrow>
           (case parse_int_ok (payload_text t) of
              None \<Rightarrow> Some (not_integer, s)
            | Some ttl \<Rightarrow>
                if \<not> vt_exists s (payload_text k) then Some (RInt 0, s)
                else if ttl \<le> 0 then Some (RInt 1, vt_del s (payload_text k))
                else Some (RInt 1, s\<lparr>vt_key_ttl := map_put (payload_text k) ttl (vt_key_ttl s)\<rparr>))
         | _ \<Rightarrow> None)
      else if cmd = ''PERSIST'' then
        (case args of k # _ \<Rightarrow>
           if has_key (vt_key_ttl s) (payload_text k)
           then Some (RInt 1, s\<lparr>vt_key_ttl := map_del (payload_text k) (vt_key_ttl s)\<rparr>)
           else Some (RInt 0, s)
         | [] \<Rightarrow> None)
      else if cmd = ''SADD'' then
        (case args of k # ms \<Rightarrow> (let (n, s') = sadd_members s (payload_text k) ms in Some (RInt n, s'))
         | [] \<Rightarrow> None)
      else if cmd = ''SMEMBERS'' then
        (case args of k # _ \<Rightarrow> Some (RSet (map Text (sort (vt_set s (payload_text k)))), s)
         | [] \<Rightarrow> None)
      else if cmd = ''DEL'' then (let (n, s') = del_keys s args in Some (RInt n, s'))
      else Some (RError (''ERR unknown command '' @ [CHR 0x27] @ name @ [CHR 0x27]), s))"

text \<open>\<^verbatim>\<open>(*Server).reply\<close>: the commands answered without the lock, then the failures, then the rest.\<close>

definition vt_reply :: "vt_server \<Rightarrow> payload list \<Rightarrow> (resp \<times> vt_server) option" where
  "vt_reply s args =
     (case args of
        [] \<Rightarrow> Some (RError ''ERR empty command'', s)
      | c # rest \<Rightarrow>
         (let cmd = to_upper (payload_text c)
          in if cmd = ''HELLO'' then
               Some (RMap [(Text ''server'', Text ''valkey''), (Text ''version'', Text ''9.0.0''),
                 (Text ''proto'', Text ''3''), (Text ''mode'', Text ''standalone'')], s)
             else if cmd \<in> {''CLIENT'', ''SELECT'', ''AUTH''} then Some (RStatus ''OK'', s)
             else if cmd = ''PING'' then Some (RStatus ''PONG'', s)
             else if cmd = ''CLUSTER'' then
               Some (RError ''ERR This instance has cluster support disabled'', s)
             else (case rest of
                 k # _ \<Rightarrow> (case vt_failing (vt_failures s) cmd (payload_text k) of
                              Some msg \<Rightarrow> Some (RError msg, s)
                            | None \<Rightarrow> vt_command s (payload_text c) cmd rest)
               | [] \<Rightarrow> vt_command s (payload_text c) cmd rest)))"

section \<open>The client calls against the in-memory server\<close>

definition protocol_error :: string where
  "protocol_error = ''unexpected reply''"

definition vt_read :: "vt_server \<Rightarrow> payload list \<Rightarrow> (resp \<Rightarrow> 'a option) \<Rightarrow> 'a result" where
  "vt_read s args f =
     (case vt_reply s args of
        Some (RError e, _) \<Rightarrow> Inl e
      | Some (r, _) \<Rightarrow> (case f r of Some v \<Rightarrow> Inr v | None \<Rightarrow> Inl protocol_error)
      | None \<Rightarrow> Inl protocol_error)"

definition vt_write :: "vt_server \<Rightarrow> payload list \<Rightarrow> vt_server \<times> string option" where
  "vt_write s args =
     (case vt_reply s args of
        Some (RError e, s') \<Rightarrow> (s', Some e)
      | Some (_, s') \<Rightarrow> (s', None)
      | None \<Rightarrow> (s, Some protocol_error))"

fun as_text_list :: "resp \<Rightarrow> string list option" where
  "as_text_list (RSet vs) = Some (map payload_text vs)"
| "as_text_list (RArray rs) =
     those (map (\<lambda>r. case r of RBulk v \<Rightarrow> Some (payload_text v) | _ \<Rightarrow> None) rs)"
| "as_text_list _ = None"

fun as_map :: "resp \<Rightarrow> (string, payload) gomap option" where
  "as_map (RMap kvs) = Some (map (\<lambda>(k, v). (payload_text k, v)) kvs)"
| "as_map _ = None"

fun as_value :: "resp \<Rightarrow> payload option option" where
  "as_value (RBulk v) = Some (Some v)"
| "as_value RNull = Some None"
| "as_value _ = None"

definition vt_client :: "vt_server valkey_client" where
  "vt_client = \<lparr>
     vc_smembers = (\<lambda>s k. vt_read s [Text ''SMEMBERS'', Text k] as_text_list),
     vc_hgetall = (\<lambda>s k. vt_read s [Text ''HGETALL'', Text k] as_map),
     vc_hget = (\<lambda>s k f. vt_read s [Text ''HGET'', Text k, Text f] as_value),
     vc_hkeys = (\<lambda>s k. vt_read s [Text ''HKEYS'', Text k] as_text_list),
     vc_hset = (\<lambda>s k f v. vt_write s [Text ''HSET'', Text k, Text f, v]),
     vc_hexpire = (\<lambda>s k ttl f. vt_write s
        [Text ''HEXPIRE'', Text k, Text (itoa ttl), Text ''FIELDS'', Text ''1'', Text f]),
     vc_hdel = (\<lambda>s k f. vt_write s [Text ''HDEL'', Text k, Text f]),
     vc_persist = (\<lambda>s k. vt_write s [Text ''PERSIST'', Text k])\<rparr>"

section \<open>The server gives the laws\<close>

lemma command_names:
  "to_upper ''HSET'' = ''HSET''" "to_upper ''HGET'' = ''HGET''" "to_upper ''HGETALL'' = ''HGETALL''"
  "to_upper ''HKEYS'' = ''HKEYS''" "to_upper ''HDEL'' = ''HDEL''" "to_upper ''HEXPIRE'' = ''HEXPIRE''"
  "to_upper ''PERSIST'' = ''PERSIST''" "to_upper ''SMEMBERS'' = ''SMEMBERS''" "to_upper ''FIELDS'' = ''FIELDS''"
  "to_upper ''SADD'' = ''SADD''" "to_upper ''DEL'' = ''DEL''" "to_upper ''EXPIRE'' = ''EXPIRE''"
  by (simp_all add: to_upper_def upper_char_def Let_def)

text \<open>A locked command is refused by the first failure set for it, and runs otherwise.\<close>

lemma vt_reply_locked:
  assumes "to_upper c = c" "c \<notin> {''HELLO'', ''CLIENT'', ''SELECT'', ''AUTH'', ''PING'', ''CLUSTER''}"
  shows "vt_reply s (Text c # Text k # args) =
    (case vt_failing (vt_failures s) c k of
       Some msg \<Rightarrow> Some (RError msg, s)
     | None \<Rightarrow> vt_command s c c (Text k # args))"
  using assms by (simp add: vt_reply_def Let_def split: option.split)

lemma vt_hash_hset [simp]:
  "map_of (vt_hash (vt_hset s k f v) k') =
    (if k' = k then (map_of (vt_hash s k))(f \<mapsto> v) else map_of (vt_hash s k'))"
  by (simp add: vt_hash_def vt_hset_def)

lemma get_or_del: "get_or z (map_del k m) k' = (if k' = k then z else get_or z m k')"
  by (simp add: get_or_def)

lemma map_of_del_nested:
  "map_of (get_or [] (del_nested k f m) k') =
    (if k' = k then (map_of (get_or [] m k))(f := None) else map_of (get_or [] m k'))"
  by (auto simp: del_nested_def get_or_def split: option.splits)

lemma vt_hash_hdel [simp]:
  "map_of (vt_hash (vt_hdel s k f) k') =
    (if k' = k then (map_of (vt_hash s k))(f := None) else map_of (vt_hash s k'))"
proof -
  let ?s1 = "s\<lparr>vt_hashes := del_nested k f (vt_hashes s), vt_field_ttl := del_nested k f (vt_field_ttl s)\<rparr>"
  have s1: "map_of (vt_hash ?s1 k') =
      (if k' = k then (map_of (vt_hash s k))(f := None) else map_of (vt_hash s k'))" for k'
    by (simp add: vt_hash_def map_of_del_nested)
  show ?thesis
  proof (cases "vt_hash ?s1 k = []")
    case True
    then have "map_of (vt_hash ?s1 k) = Map.empty" by (simp only: map_of.simps)
    with True s1 [of k] s1 [of k'] show ?thesis
      by (simp add: vt_hdel_def Let_def vt_del_def vt_hash_def get_or_del)
  next
    case False
    with s1 show ?thesis by (simp add: vt_hdel_def Let_def)
  qed
qed

lemma map_of_sorted_fields:
  "map_of (map (\<lambda>f. (f, get_or z h f)) (sorted_fields h)) = map_of h"
proof (rule ext)
  fix f
  have "f \<in> set (sorted_fields h) \<longleftrightarrow> map_of h f \<noteq> None"
    by (simp add: sorted_fields_def map_of_eq_None_iff)
  then show "map_of (map (\<lambda>f. (f, get_or z h f)) (sorted_fields h)) f = map_of h f"
    by (cases "map_of h f") (simp_all add: map_of_map_restrict get_or_def)
qed

lemma as_map_hgetall:
  "as_map (RMap (map (\<lambda>f. (Text f, g f)) fs)) = Some (map (\<lambda>f. (f, g f)) fs)"
  by (simp add: comp_def)

lemma distinct_sorted_fields: "distinct (sorted_fields h)"
  by (simp add: sorted_fields_def)

definition vt_fields :: "vt_server \<Rightarrow> string \<Rightarrow> string \<Rightarrow> payload option" where
  "vt_fields s k = map_of (vt_hash s k)"

definition vt_field_expiry :: "vt_server \<Rightarrow> string \<Rightarrow> string \<Rightarrow> int option" where
  "vt_field_expiry s k = map_of (vt_fttl s k)"

definition vt_key_expiry :: "vt_server \<Rightarrow> string \<Rightarrow> int option" where
  "vt_key_expiry s = map_of (vt_key_ttl s)"

lemmas vt_call = vt_client_def vt_read_def vt_write_def vt_reply_locked command_names vt_command_def

interpretation vt: valkey_laws vt_client vt_fields vt_field_expiry vt_key_expiry
proof
  fix s s' :: vt_server and k f :: string and v x m e r and ttl :: int
  show "vc_hget vt_client s k f = Inr x \<Longrightarrow> x = vt_fields s k f"
    by (auto simp: vt_call vt_fields_def split: option.splits)
  show "vc_hgetall vt_client s k = Inr m \<Longrightarrow> map_of m = vt_fields s k \<and> wf_map m"
    using map_of_sorted_fields [of "Text []" "vt_hash s k"] distinct_sorted_fields [of "vt_hash s k"]
    by (auto simp: vt_call vt_fields_def Let_def comp_def split: option.splits)
  show "vc_hset vt_client s k f v = (s', None) \<Longrightarrow>
      vt_fields s' = (vt_fields s)(k := (vt_fields s k)(f \<mapsto> v))"
    by (auto simp: vt_call vt_fields_def fun_eq_iff Let_def split: option.splits)
  show "vc_hset vt_client s k f v = (s', Some e) \<Longrightarrow> vt_fields s' = vt_fields s"
    by (auto simp: vt_call Let_def split: option.splits)
  show "0 < ttl \<Longrightarrow> in_int64 ttl \<Longrightarrow> vc_hexpire vt_client s k ttl f = (s', r) \<Longrightarrow> vt_fields s' = vt_fields s"
    by (auto simp: vt_call vt_fields_def vt_hash_def Let_def fun_eq_iff split: option.splits if_splits)
  show "0 < ttl \<Longrightarrow> in_int64 ttl \<Longrightarrow> vt_fields s k f \<noteq> None \<Longrightarrow> vc_hexpire vt_client s k ttl f = (s', None)
      \<Longrightarrow> vt_field_expiry s' k f = Some ttl"
    by (auto simp: vt_call vt_fields_def vt_field_expiry_def vt_fttl_def Let_def split: option.splits if_splits)
  show "vc_hdel vt_client s k f = (s', None) \<Longrightarrow> vt_fields s' = (vt_fields s)(k := (vt_fields s k)(f := None))"
    by (auto simp: vt_call vt_fields_def fun_eq_iff Let_def split: option.splits if_splits)
  show "vc_hdel vt_client s k f = (s', Some e) \<Longrightarrow> vt_fields s' = vt_fields s"
    by (auto simp: vt_call Let_def split: option.splits if_splits)
  show "vc_persist vt_client s k = (s', r) \<Longrightarrow>
      vt_fields s' = vt_fields s \<and> vt_field_expiry s' = vt_field_expiry s"
    by (auto simp: vt_call vt_fields_def vt_hash_def vt_field_expiry_def vt_fttl_def Let_def fun_eq_iff
        split: option.splits if_splits)
  show "vc_persist vt_client s k = (s', None) \<Longrightarrow> vt_key_expiry s' k = None"
    by (auto simp: vt_call vt_key_expiry_def Let_def split: option.splits if_splits)
qed

end
