(* ===== verification/Go_Time.thy ===== *)
theory Go_Time
  imports Go_Strings
begin

text \<open>
  Go's \<^verbatim>\<open>time\<close> package as the program uses it. A \<^verbatim>\<open>time.Time\<close> is the number of nanoseconds
  since the Unix epoch, read in UTC (the dashboard converts every time to UTC), and a
  \<^verbatim>\<open>time.Duration\<close> a number of nanoseconds that fits an \<^verbatim>\<open>int64\<close>. Calendar dates follow the
  proleptic Gregorian calendar by the 400, 100, 4 and 1 year cycles.
\<close>

type_synonym time = int
type_synonym duration = int

definition nsec :: int where "nsec = 1000000000"
definition second :: duration where "second = 1000000000"
definition minute :: duration where "minute = 60 * 1000000000"
definition hour :: duration where "hour = 3600 * 1000000000"
definition day :: duration where "day = 86400 * 1000000000"

lemmas time_units = nsec_def second_def minute_def hour_def day_def

text \<open>The zero \<^verbatim>\<open>time.Time\<close>: January 1 of year 1, which \<^verbatim>\<open>IsZero\<close> tests for.\<close>

definition zero_time :: time where
  "zero_time = -62135596800 * 1000000000"

definition is_zero :: "time \<Rightarrow> bool" where
  "is_zero t \<longleftrightarrow> t = zero_time"

definition unix :: "time \<Rightarrow> int" where
  "unix t = t div nsec"

definition of_unix :: "int \<Rightarrow> time" where
  "of_unix s = s * nsec"

text \<open>\<^verbatim>\<open>t.Truncate(d)\<close> counts from the zero time.\<close>

definition time_truncate :: "time \<Rightarrow> duration \<Rightarrow> time" where
  "time_truncate t d = (if d \<le> 0 then t else t - (t - zero_time) mod d)"

text \<open>\<^verbatim>\<open>t.Sub(u)\<close>: the difference, or the nearest bound when it does not fit.\<close>

definition time_sub :: "time \<Rightarrow> time \<Rightarrow> duration" where
  "time_sub t u = max min_int64 (min max_int64 (t - u))"

text \<open>\<^verbatim>\<open>t.AddDate(0, 0, n)\<close> in UTC.\<close>

definition add_days :: "time \<Rightarrow> int \<Rightarrow> time" where
  "add_days t n = t + n * day"

text \<open>\<^verbatim>\<open>d.Round(m)\<close>: half away from zero, saturating at the bounds of a duration.\<close>

definition dur_round :: "duration \<Rightarrow> duration \<Rightarrow> duration" where
  "dur_round d m =
     (if m \<le> 0 then d
      else let r = go_mod d m in
        if d < 0
        then (if (- r) + (- r) < m then d - r
              else if d - r - m < min_int64 then min_int64 else d - r - m)
        else (if r + r < m then d - r
              else if max_int64 < d - r + m then max_int64 else d - r + m))"

lemma zero_time_hours: "zero_time = hour * (-17259888)"
  by (simp add: zero_time_def hour_def)

lemma zero_time_days: "zero_time = day * (-719162)"
  by (simp add: zero_time_def day_def)

lemma time_truncate_hour: "time_truncate t hour = t - t mod hour"
proof -
  have "(t - zero_time) mod hour = (t + hour * 17259888) mod hour"
    by (simp add: zero_time_hours)
  also have "\<dots> = t mod hour" by (rule mod_mult_self2)
  finally show ?thesis by (simp add: time_truncate_def hour_def)
qed

lemma time_truncate_day: "time_truncate t day = t - t mod day"
proof -
  have "(t - zero_time) mod day = (t + day * 719162) mod day"
    by (simp add: zero_time_days)
  also have "\<dots> = t mod day" by (rule mod_mult_self2)
  finally show ?thesis by (simp add: time_truncate_def day_def)
qed

lemma hour_nsec: "hour = nsec * 3600"
  by (simp add: hour_def nsec_def)

lemma day_nsec: "day = nsec * 86400"
  by (simp add: day_def nsec_def)

lemma time_truncate_hour_div: "time_truncate t hour = hour * (t div hour)"
  by (simp only: time_truncate_hour minus_mod_eq_mult_div)

lemma time_truncate_day_div: "time_truncate t day = day * (t div day)"
  by (simp only: time_truncate_day minus_mod_eq_mult_div)

lemma time_truncate_hour_mult: "time_truncate t hour = nsec * (3600 * (t div hour))"
  by (simp only: time_truncate_hour_div) (simp only: hour_nsec mult.assoc)

lemma time_truncate_day_mult: "time_truncate t day = nsec * (86400 * (t div day))"
  by (simp only: time_truncate_day_div) (simp only: day_nsec mult.assoc)

lemma time_truncate_hour_le: "time_truncate t hour \<le> t" "t < time_truncate t hour + hour"
  using pos_mod_sign [of hour t] pos_mod_bound [of hour t]
  by (simp_all add: time_truncate_hour) (simp_all add: hour_def)

lemma time_truncate_day_le: "time_truncate t day \<le> t" "t < time_truncate t day + day"
  using pos_mod_sign [of day t] pos_mod_bound [of day t]
  by (simp_all add: time_truncate_day) (simp_all add: day_def)

lemma time_truncate_day_idem [simp]: "time_truncate (time_truncate t day) day = time_truncate t day"
  by (simp add: time_truncate_day minus_mod_eq_mult_div)

lemma time_truncate_hour_idem [simp]: "time_truncate (time_truncate t hour) hour = time_truncate t hour"
  by (simp add: time_truncate_hour minus_mod_eq_mult_div)

lemma unix_of_unix [simp]: "unix (of_unix s) = s"
  by (simp add: unix_def of_unix_def nsec_def)

lemma unix_mono: "t \<le> u \<Longrightarrow> unix t \<le> unix u"
  by (simp add: unix_def zdiv_mono1 nsec_def)

lemma of_unix_le: "of_unix s \<le> t \<longleftrightarrow> s \<le> unix t"
proof
  assume "of_unix s \<le> t"
  then have "s * nsec div nsec \<le> t div nsec"
    by (intro zdiv_mono1) (simp_all add: of_unix_def nsec_def)
  then show "s \<le> unix t" by (simp add: unix_def nsec_def)
next
  assume "s \<le> unix t"
  then have "s * nsec \<le> t div nsec * nsec" by (simp add: unix_def nsec_def)
  also have "\<dots> \<le> t"
    using div_mult_mod_eq [of t nsec] pos_mod_sign [of nsec t] by (simp add: nsec_def)
  finally show "of_unix s \<le> t" by (simp add: of_unix_def)
qed

text \<open>A time that is a whole number of seconds, as every time_truncated time is.\<close>

lemma of_unix_unix: "t mod nsec = 0 \<Longrightarrow> of_unix (unix t) = t"
  using mult_div_mod_eq [of nsec t] by (simp add: of_unix_def unix_def mult.commute)

lemma time_truncate_hour_whole: "time_truncate t hour mod nsec = 0"
  by (simp add: time_truncate_hour_mult)

lemma time_truncate_day_whole: "time_truncate t day mod nsec = 0"
  by (simp add: time_truncate_day_mult)

lemma of_unix_time_truncate_hour [simp]: "of_unix (unix (time_truncate t hour)) = time_truncate t hour"
  by (rule of_unix_unix [OF time_truncate_hour_whole])

lemma of_unix_time_truncate_day [simp]: "of_unix (unix (time_truncate t day)) = time_truncate t day"
  by (rule of_unix_unix [OF time_truncate_day_whole])

section \<open>Calendar dates\<close>

text \<open>Days since the Unix epoch of a time.\<close>

definition day_number :: "time \<Rightarrow> int" where
  "day_number t = t div day"

text \<open>
  Year, month and day of a day number. Years start in March inside a 400-year era, so that
  the leap day is the last of its year.
\<close>

definition civil_of_days :: "int \<Rightarrow> int \<times> int \<times> int" where
  "civil_of_days n =
     (let z = n + 719468;
          era = z div 146097;
          doe = z mod 146097;
          c = min 3 (doe div 36524);
          rc = doe - c * 36524;
          q = rc div 1461;
          rq = rc mod 1461;
          y = min 3 (rq div 365);
          doy = rq - y * 365;
          mp = (5 * doy + 2) div 153;
          d = doy - (153 * mp + 2) div 5 + 1;
          m = (if mp < 10 then mp + 3 else mp - 9);
          yr = 400 * era + 100 * c + 4 * q + y
      in (if m \<le> 2 then yr + 1 else yr, m, d))"

definition days_of_civil :: "int \<Rightarrow> int \<Rightarrow> int \<Rightarrow> int" where
  "days_of_civil y m d =
     (let yr = (if m \<le> 2 then y - 1 else y);
          era = yr div 400;
          yoe = yr mod 400;
          mp = (if m > 2 then m - 3 else m + 9);
          doy = (153 * mp + 2) div 5 + d - 1;
          doe = yoe * 365 + yoe div 4 - yoe div 100 + doy
      in era * 146097 + doe - 719468)"

definition is_leap :: "int \<Rightarrow> bool" where
  "is_leap y \<longleftrightarrow> y mod 4 = 0 \<and> (y mod 100 \<noteq> 0 \<or> y mod 400 = 0)"

definition days_in :: "int \<Rightarrow> int \<Rightarrow> int" where
  "days_in y m =
     (if m = 2 then (if is_leap y then 29 else 28)
      else if m = 4 \<or> m = 6 \<or> m = 9 \<or> m = 11 then 30 else 31)"

text \<open>Zero-padded decimal text of at least \<open>w\<close> digits, as Go's layouts print numbers.\<close>

definition pad_nat :: "nat \<Rightarrow> nat \<Rightarrow> string" where
  "pad_nat w n = replicate (w - length (nat_text n)) (CHR ''0'') @ nat_text n"

definition pad_int :: "nat \<Rightarrow> int \<Rightarrow> string" where
  "pad_int w n = (if n < 0 then ''-'' @ pad_nat w (nat (- n)) else pad_nat w (nat n))"

definition pad_text :: "nat \<Rightarrow> string \<Rightarrow> string" where
  "pad_text w s = replicate (w - length s) (CHR ''0'') @ s"

lemma pad_int_code [code]:
  "pad_int w n = (if n < 0 then CHR ''-'' # pad_text w (int_text (- n)) else pad_text w (int_text n))"
  by (simp add: pad_int_def pad_nat_def pad_text_def int_text_nat)

text \<open>The verb \<^verbatim>\<open>%0<w>d\<close> of \<^verbatim>\<open>fmt\<close>: its width counts the sign.\<close>

definition fmt_int :: "nat \<Rightarrow> int \<Rightarrow> string" where
  "fmt_int w n = (if n < 0 then ''-'' @ pad_nat (w - 1) (nat (- n)) else pad_nat w (nat n))"

lemma fmt_int_code [code]:
  "fmt_int w n = (if n < 0 then CHR ''-'' # pad_text (w - 1) (int_text (- n)) else pad_text w (int_text n))"
  by (simp add: fmt_int_def pad_nat_def pad_text_def int_text_nat)

lemma fmt_int_nonneg [simp]: "0 \<le> n \<Longrightarrow> fmt_int w n = pad_int w n"
  by (simp add: fmt_int_def pad_int_def)

text \<open>\<^verbatim>\<open>t.Format("2006-01-02")\<close>.\<close>

definition format_date :: "time \<Rightarrow> string" where
  "format_date t =
     (case civil_of_days (day_number t) of
        (y, m, d) \<Rightarrow> pad_int 4 y @ ''-'' @ pad_int 2 m @ ''-'' @ pad_int 2 d)"

text \<open>
  \<^verbatim>\<open>time.Parse("2006-01-02", s)\<close>: four, two and two digits with dashes between them, of a
  day that exists.
\<close>

definition parse_date :: "string \<Rightarrow> time option" where
  "parse_date s =
     (if length s = 10 \<and> s ! 4 = CHR ''-'' \<and> s ! 7 = CHR ''-''
         \<and> list_all is_digit (take 4 s) \<and> list_all is_digit (take 2 (drop 5 s))
         \<and> list_all is_digit (drop 8 s)
      then let y = digits_val (take 4 s); m = digits_val (take 2 (drop 5 s));
               d = digits_val (drop 8 s)
           in if 1 \<le> m \<and> m \<le> 12 \<and> 1 \<le> d \<and> d \<le> days_in y m
              then Some (days_of_civil y m d * day) else None
      else None)"

subsection \<open>The calendar round trip\<close>

text \<open>The parts of a day number inside its era, with their bounds.\<close>

lemma era_parts:
  fixes e :: int
  assumes "0 \<le> e" "e < 146097"
    and "c = min 3 (e div 36524)" "rc = e - c * 36524" "q = rc div 1461" "rq = rc mod 1461"
    and "y = min 3 (rq div 365)" "doy = rq - y * 365"
  shows "0 \<le> c" "c \<le> 3" "0 \<le> q" "q \<le> 24" "0 \<le> y" "y \<le> 3" "0 \<le> doy" "doy \<le> 365"
    "e = 36524 * c + 1461 * q + 365 * y + doy"
proof -
  have c: "0 \<le> c" "c \<le> 3" "0 \<le> rc" "rc \<le> 36524"
    using assms(1-4) by (auto simp: min_def split: if_splits)
  then show "0 \<le> c" "c \<le> 3" "0 \<le> q" "q \<le> 24" using assms(5) by auto
  have rq: "0 \<le> rq" "rq \<le> 1460" "rc = 1461 * q + rq" using assms(5,6) by auto
  then show y: "0 \<le> y" "y \<le> 3" "0 \<le> doy" "doy \<le> 365"
    using assms(7,8) by (auto simp: min_def split: if_splits)
  show "e = 36524 * c + 1461 * q + 365 * y + doy" using assms(4,8) rq by simp
qed

lemma march_day:
  fixes doy :: int
  assumes "0 \<le> doy" "doy \<le> 365" "mp = (5 * doy + 2) div 153" "d = doy - (153 * mp + 2) div 5 + 1"
  shows "0 \<le> mp" "mp \<le> 11" "1 \<le> d" "d \<le> 31" "(153 * mp + 2) div 5 + d - 1 = doy"
  using assms by auto

lemma civil_of_days_parts:
  obtains era c q y doy mp d where
    "0 \<le> c" "c \<le> 3" "0 \<le> q" "q \<le> 24" "0 \<le> y" "y \<le> 3" "0 \<le> doy" "doy \<le> 365"
    "n = 146097 * era + 36524 * c + 1461 * q + 365 * y + doy - 719468"
    "mp = (5 * doy + 2) div 153" "d = doy - (153 * mp + 2) div 5 + 1"
    "civil_of_days n =
       (let m = (if mp < 10 then mp + 3 else mp - 9); yr = 400 * era + 100 * c + 4 * q + y
        in (if m \<le> 2 then yr + 1 else yr, m, d))"
    "y = 3 \<and> (q \<noteq> 24 \<or> c = 3) \<or> doy \<le> 364"
proof -
  define z where "z = n + 719468"
  define e where "e = z mod 146097"
  define c where "c = min 3 (e div 36524)"
  define rc where "rc = e - c * 36524"
  define q where "q = rc div 1461"
  define rq where "rq = rc mod 1461"
  define y where "y = min 3 (rq div 365)"
  define doy where "doy = rq - y * 365"
  have e: "0 \<le> e" "e < 146097" by (simp_all add: e_def)
  note p = era_parts [OF e c_def rc_def q_def rq_def y_def doy_def]
  have n: "n = 146097 * (z div 146097) + e - 719468" by (simp add: e_def z_def)
  have leap: "y = 3 \<and> (q \<noteq> 24 \<or> c = 3) \<or> doy \<le> 364"
  proof (cases "doy = 365")
    case True
    have "y = 3"
    proof (rule ccontr)
      assume "y \<noteq> 3"
      then have "y = rq div 365" by (simp add: y_def min_def split: if_splits)
      then have "doy = rq mod 365" by (simp add: doy_def minus_div_mult_eq_mod)
      with True show False using pos_mod_bound [of 365 rq] by simp
    qed
    then have y3: "y = 3" "rq = 1460" using True by (simp_all add: doy_def)
    have "c = 3" if "q = 24"
    proof (rule ccontr)
      assume "c \<noteq> 3"
      then have "c = e div 36524" by (simp add: c_def min_def split: if_splits)
      then have "rc = e mod 36524" by (simp add: rc_def minus_div_mult_eq_mod)
      moreover have "rc = 1461 * q + rq" by (simp add: q_def rq_def)
      ultimately show False using that y3 pos_mod_bound [of 36524 e] by simp
    qed
    with y3 show ?thesis by blast
  qed (use p in auto)
  have cv: "civil_of_days n =
     (let m = (if (5 * doy + 2) div 153 < 10 then (5 * doy + 2) div 153 + 3
               else (5 * doy + 2) div 153 - 9);
          yr = 400 * (z div 146097) + 100 * c + 4 * q + y
      in (if m \<le> 2 then yr + 1 else yr, m, doy - (153 * ((5 * doy + 2) div 153) + 2) div 5 + 1))"
    by (simp only: civil_of_days_def Let_def z_def e_def c_def rc_def q_def rq_def y_def doy_def)
  have n': "n = 146097 * (z div 146097) + 36524 * c + 1461 * q + 365 * y + doy - 719468"
    using n p(9) by linarith
  show ?thesis
    by (rule that [OF p(1-8) n' refl refl cv leap])
qed

lemma days_of_civil_of_days:
  assumes "civil_of_days n = (y, m, d)"
  shows "days_of_civil y m d = n"
proof -
  obtain era c q yy doy mp dd where
    b: "0 \<le> c" "c \<le> 3" "0 \<le> q" "q \<le> 24" "0 \<le> yy" "yy \<le> 3" "0 \<le> doy" "doy \<le> 365"
    and n: "n = 146097 * era + 36524 * c + 1461 * q + 365 * yy + doy - 719468"
    and mp: "mp = (5 * doy + 2) div 153" and dd: "dd = doy - (153 * mp + 2) div 5 + 1"
    and cv: "civil_of_days n =
       (let m = (if mp < 10 then mp + 3 else mp - 9); yr = 400 * era + 100 * c + 4 * q + yy
        in (if m \<le> 2 then yr + 1 else yr, m, dd))"
    by (rule civil_of_days_parts)
  note md = march_day [OF b(7,8) mp dd]
  define yr where "yr = 400 * era + 100 * c + 4 * q + yy"
  have m: "m = (if mp < 10 then mp + 3 else mp - 9)" and d: "d = dd"
    and y: "y = (if m \<le> 2 then yr + 1 else yr)"
    using cv assms by (auto simp: Let_def yr_def split: if_splits)
  have yr: "(if m \<le> 2 then y - 1 else y) = yr" using y by simp
  have mp': "(if m > 2 then m - 3 else m + 9) = mp" using m md by auto
  have yr400: "yr = 400 * era + (100 * c + 4 * q + yy)" "0 \<le> 100 * c + 4 * q + yy"
    "100 * c + 4 * q + yy < 400"
    using b by (simp_all add: yr_def)
  then have div: "yr div 400 = era" "yr mod 400 = 100 * c + 4 * q + yy" by simp_all
  have yoe: "(100 * c + 4 * q + yy) div 4 = 25 * c + q" "(100 * c + 4 * q + yy) div 100 = c"
    using b by auto
  show ?thesis
    unfolding days_of_civil_def Let_def yr mp' div yoe d
    using md(5) n by simp
qed

lemma civil_of_days_valid:
  assumes "civil_of_days n = (y, m, d)"
  shows "1 \<le> m" "m \<le> 12" "1 \<le> d" "d \<le> days_in y m"
proof -
  obtain era c q yy doy mp dd where
    b: "0 \<le> c" "c \<le> 3" "0 \<le> q" "q \<le> 24" "0 \<le> yy" "yy \<le> 3" "0 \<le> doy" "doy \<le> 365"
    and mp: "mp = (5 * doy + 2) div 153" and dd: "dd = doy - (153 * mp + 2) div 5 + 1"
    and cv: "civil_of_days n =
       (let m = (if mp < 10 then mp + 3 else mp - 9); yr = 400 * era + 100 * c + 4 * q + yy
        in (if m \<le> 2 then yr + 1 else yr, m, dd))"
    and leap: "yy = 3 \<and> (q \<noteq> 24 \<or> c = 3) \<or> doy \<le> 364"
    by (rule civil_of_days_parts)
  note md = march_day [OF b(7,8) mp dd]
  define yr where "yr = 400 * era + 100 * c + 4 * q + yy"
  have m: "m = (if mp < 10 then mp + 3 else mp - 9)" and d: "d = dd"
    and y: "y = (if m \<le> 2 then yr + 1 else yr)"
    using cv assms by (auto simp: Let_def yr_def split: if_splits)
  show "1 \<le> m" "m \<le> 12" "1 \<le> d" using m md d by auto
  have range: "mp = 0 \<or> mp = 1 \<or> mp = 2 \<or> mp = 3 \<or> mp = 4 \<or> mp = 5 \<or> mp = 6 \<or> mp = 7 \<or> mp = 8
     \<or> mp = 9 \<or> mp = 10 \<or> mp = 11" using md(1,2) by presburger
  have leapy: "is_leap (yr + 1)" if "yy = 3" "q \<noteq> 24 \<or> c = 3"
  proof -
    have "yr + 1 = 4 * (100 * era + 25 * c + q + 1)" using that by (simp add: yr_def)
    then have 4: "(yr + 1) mod 4 = 0" by simp
    show ?thesis
    proof (cases "q = 24")
      case True
      with that have "yr + 1 = 400 * (era + 1)" by (simp add: yr_def)
      with 4 show ?thesis by (simp add: is_leap_def)
    next
      case False
      with b have q: "0 \<le> 4 * q + 4" "4 * q + 4 < 100" "4 * q + 4 \<noteq> 0" by auto
      have "yr + 1 = (4 * q + 4) + (4 * era + c) * 100" using that by (simp add: yr_def)
      then have "(yr + 1) mod 100 = (4 * q + 4) mod 100" by (simp only: mod_mult_self1)
      then have "(yr + 1) mod 100 = 4 * q + 4" using q by simp
      with q 4 show ?thesis by (simp add: is_leap_def)
    qed
  qed
  have dd_le: "mp = 11 \<Longrightarrow> dd \<le> 29 \<and> (doy \<le> 364 \<longrightarrow> dd \<le> 28)"
    and dd_gen: "mp \<in> {1, 3, 6, 8} \<Longrightarrow> dd \<le> 30" "dd \<le> 31"
    using b mp dd by auto
  show "d \<le> days_in y m"
    using range dd_le dd_gen leap leapy m d y by (auto simp: days_in_def)
qed

subsection \<open>The text of a date and back\<close>

lemma nat_text_length_le: "n < 10 ^ w \<Longrightarrow> 0 < w \<Longrightarrow> length (nat_text n) \<le> w"
proof (induction n arbitrary: w rule: nat_text.induct)
  case (1 n)
  show ?case
  proof (cases "n < 10")
    case True
    with 1(3) show ?thesis by (subst nat_text.simps) simp
  next
    case False
    then obtain v where w: "w = Suc v" "0 < v" using "1.prems" by (cases w; cases "w - 1") auto
    with False "1.prems" have "length (nat_text (n div 10)) \<le> v" by (intro "1.IH") auto
    with False w show ?thesis by (subst nat_text.simps) simp
  qed
qed

lemma digits_val_append: "digits_val (xs @ ys) = digits_val xs * 10 ^ length ys + digits_val ys"
  by (induction ys rule: rev_induct) (simp_all flip: append_assoc add: algebra_simps)

lemma digits_val_zeros [simp]: "digits_val (replicate k (CHR ''0'')) = 0"
proof (induction k)
  case (Suc k)
  have "replicate (Suc k) (CHR ''0'') = replicate k (CHR ''0'') @ [CHR ''0'']"
    by (simp add: replicate_append_same)
  with Suc show ?case by (simp only: digits_val_snoc) (simp add: digit_val_def)
qed simp

lemma pad_nat_val [simp]: "digits_val (pad_nat w n) = int n"
  by (simp add: pad_nat_def digits_val_append)

lemma pad_nat_digits [simp]: "list_all is_digit (pad_nat w n)"
  using nat_text_digits [of n] by (auto simp: pad_nat_def list_all_iff is_digit_def)

lemma pad_nat_length: "n < 10 ^ w \<Longrightarrow> 0 < w \<Longrightarrow> length (pad_nat w n) = w"
  using nat_text_length_le [of n w] by (simp add: pad_nat_def)

definition year_of :: "time \<Rightarrow> int" where
  "year_of t = fst (civil_of_days (day_number t))"

definition date_range :: "time \<Rightarrow> bool" where
  "date_range t \<longleftrightarrow> 0 \<le> year_of t \<and> year_of t \<le> 9999"

lemma parse_format_date:
  assumes "date_range t"
  shows "parse_date (format_date t) = Some (time_truncate t day)"
proof -
  obtain y m d where c: "civil_of_days (day_number t) = (y, m, d)" by (cases "civil_of_days (day_number t)")
  note v = civil_of_days_valid [OF c]
  have y: "0 \<le> y" "y \<le> 9999" using assms c by (simp_all add: date_range_def year_of_def)
  have "d \<le> 31" using v by (auto simp: days_in_def split: if_splits)
  then have len: "length (pad_nat 4 (nat y)) = 4" "length (pad_nat 2 (nat m)) = 2"
    "length (pad_nat 2 (nat d)) = 2"
    using y v by (auto intro!: pad_nat_length)
  have f: "format_date t = pad_nat 4 (nat y) @ ''-'' @ pad_nat 2 (nat m) @ ''-'' @ pad_nat 2 (nat d)"
    using y v by (simp add: format_date_def c pad_int_def)
  have "parse_date (format_date t) = Some (days_of_civil y m d * day)"
    unfolding parse_date_def f
    using len y v by (simp add: nth_append Let_def)
  also have "days_of_civil y m d * day = time_truncate t day"
    using days_of_civil_of_days [OF c] by (simp add: time_truncate_day day_number_def minus_mod_eq_div_mult)
  finally show ?thesis .
qed

lemma format_date_inj:
  "date_range t \<Longrightarrow> date_range u \<Longrightarrow> format_date t = format_date u \<Longrightarrow> time_truncate t day = time_truncate u day"
  by (metis parse_format_date option.inject)

lemma format_date_time_truncate [simp]: "format_date (time_truncate t day) = format_date t"
proof -
  have "day_number (time_truncate t day) = day_number t"
    unfolding day_number_def time_truncate_day_div by (simp add: day_def)
  then show ?thesis by (simp only: format_date_def)
qed

lemma digits_zero: "list_all is_digit s \<Longrightarrow> (\<forall>c \<in> set s. c = CHR ''0'') \<Longrightarrow> digits_val s = 0"
  by (metis digits_val_zeros replicate_eqI)

lemma day_whole_hours: "24 * hour - second < day" "0 < day" "0 < second"
  by (simp_all add: time_units)

lemma time_truncate_day_mono: "x \<le> y \<Longrightarrow> time_truncate x day \<le> time_truncate y day"
  unfolding time_truncate_day_div by (intro mult_left_mono zdiv_mono1) (simp_all add: day_def)

text \<open>Every hour read for a day falls on that day.\<close>

lemma truncate_in_day:
  assumes "time_truncate dy day \<le> t" "t < time_truncate dy day + day"
  shows "time_truncate t day = time_truncate dy day"
proof -
  let ?q = "dy div day"
  have b: "day * ?q \<le> t" "t < day * ?q + day"
    using assms by (simp_all add: time_truncate_day_div)
  have "t div day = ?q"
    by (rule int_div_pos_eq [where r = "t - day * ?q"]) (use b in linarith)+
  then show ?thesis by (simp add: time_truncate_day_div)
qed

lemma format_date_in_day:
  assumes "time_truncate dy day \<le> t" "t < time_truncate dy day + day"
  shows "format_date t = format_date dy"
  using truncate_in_day [OF assms] by (metis format_date_time_truncate)

lemma date_range_truncate [simp]: "date_range (time_truncate t day) = date_range t"
proof -
  have "day_number (time_truncate t day) = day_number t"
    by (simp only: day_number_def time_truncate_day_div) (simp add: day_def)
  then show ?thesis by (simp add: date_range_def year_of_def)
qed


end
