(* ===== verification/Store_Rollup.thy ===== *)
theory Store_Rollup
  imports Valkey_Client Valkey_Keys Go_Time
begin

text \<open>
  \<^verbatim>\<open>dashboard/internal/store/store.go\<close>, first part: the store and its locations, the sets read
  across them, and the rollup of one hour computed from the raw samples.

  A store holds one connection per location; the state behind each connection is of type
  \<open>'s\<close>, and every call on it goes through the client table \<open>vc\<close>. \<^verbatim>\<open>validate\<close> in
  \<^verbatim>\<open>internal/config\<close> refuses two locations of one name, so the pointer \<^verbatim>\<open>primary\<close> is kept
  as the name of its location.
\<close>

record 's store =
  st_locations :: "(string, 's) gomap"
  st_primary :: string
  st_retention :: int
  st_retention_days :: int

record meta =
  mt_endpoint :: string
  mt_driver :: string
  mt_name :: string

definition store_ok :: "'s store \<Rightarrow> bool" where
  "store_ok st \<longleftrightarrow> wf_map (st_locations st) \<and> has_key (st_locations st) (st_primary st)"

definition primary_conn :: "'s store \<Rightarrow> 's" where
  "primary_conn st = the (map_of (st_locations st) (st_primary st))"

definition set_primary :: "'s store \<Rightarrow> 's \<Rightarrow> 's store" where
  "set_primary st s = st\<lparr>st_locations := map_put (st_primary st) s (st_locations st)\<rparr>"

definition LocationNames :: "'s store \<Rightarrow> string list" where
  "LocationNames st = sort (map fst (st_locations st))"

text \<open>\<^verbatim>\<open>errors.Join\<close> inside \<^verbatim>\<open>%w\<close>; without an error the verb has no operand.\<close>

definition joined_errors :: "string list \<Rightarrow> string" where
  "joined_errors errs = (if errs = [] then ''%!w(<nil>)'' else join nl errs)"

definition location_error :: "string \<Rightarrow> string \<Rightarrow> string" where
  "location_error name e = ''location '' @ name @ '': '' @ e"

section \<open>Sets read across the locations\<close>

definition add_unseen :: "string list \<Rightarrow> string list \<Rightarrow> string list" where
  "add_unseen items out = fold (\<lambda>item acc. if item \<in> set acc then acc else acc @ [item]) items out"

fun union_scan :: "'s valkey_client \<Rightarrow> 's store \<Rightarrow> string \<Rightarrow> string list
    \<Rightarrow> string list \<times> string list \<Rightarrow> string list \<times> string list" where
  "union_scan vc st key [] acc = acc"
| "union_scan vc st key (name # names) (out, errs) =
     union_scan vc st key names
       (case vc_smembers vc (the (map_of (st_locations st) name)) key of
          Inl e \<Rightarrow> (out, errs @ [location_error name e])
        | Inr items \<Rightarrow> (add_unseen items out, errs))"

definition union_set :: "'s valkey_client \<Rightarrow> 's store \<Rightarrow> string \<Rightarrow> string list result" where
  "union_set vc st key =
     (case union_scan vc st key (LocationNames st) ([], []) of
        (out, errs) \<Rightarrow>
          if length errs = length (st_locations st)
          then Inl (''reading '' @ key @ '': '' @ joined_errors errs)
          else Inr out)"

definition ListDashboards :: "'s valkey_client \<Rightarrow> 's store \<Rightarrow> string list result" where
  "ListDashboards vc st = union_set vc st Dashboards"

definition ListServices :: "'s valkey_client \<Rightarrow> 's store \<Rightarrow> string \<Rightarrow> string list result" where
  "ListServices vc st dash = union_set vc st (Services dash)"

section \<open>The meta hash\<close>

definition text_field :: "(string, payload) gomap \<Rightarrow> string \<Rightarrow> string" where
  "text_field m k = payload_text (get_or (Text []) m k)"

fun meta_scan :: "'s valkey_client \<Rightarrow> 's store \<Rightarrow> string \<Rightarrow> string list \<Rightarrow> string list
    \<Rightarrow> meta option \<times> string list" where
  "meta_scan vc st key [] errs = (None, errs)"
| "meta_scan vc st key (name # names) errs =
     (case vc_hgetall vc (the (map_of (st_locations st) name)) key of
        Inl e \<Rightarrow> meta_scan vc st key names (errs @ [location_error name e])
      | Inr m \<Rightarrow>
          if text_field m ''endpoint'' = [] \<and> text_field m ''driver'' = []
          then meta_scan vc st key names errs
          else (Some \<lparr>mt_endpoint = text_field m ''endpoint'', mt_driver = text_field m ''driver'',
                  mt_name = text_field m ''name''\<rparr>, errs))"

definition GetMeta :: "'s valkey_client \<Rightarrow> 's store \<Rightarrow> string \<Rightarrow> string \<Rightarrow> meta result" where
  "GetMeta vc st dash svc =
     (case meta_scan vc st (MetaKey dash svc)
         (st_primary st # filter (\<lambda>n. n \<noteq> st_primary st) (LocationNames st)) [] of
        (Some m, _) \<Rightarrow> Inr m
      | (None, errs) \<Rightarrow>
          if errs \<noteq> []
          then Inl (''meta for '' @ dash @ ''/'' @ svc @ '': '' @ joined_errors errs)
          else Inl (''meta not found for '' @ dash @ ''/'' @ svc))"

section \<open>The samples of one hour\<close>

record lsample =
  ls_ts :: int
  ls_fail :: bool
  ls_ms :: int
  ls_msg :: string
  ls_has_detail :: bool

fun splitDetail :: "string \<Rightarrow> string \<times> string option" where
  "splitDetail [] = ([], None)"
| "splitDetail (c # cs) =
     (if c = CHR ''|'' then ([], Some cs)
      else (case splitDetail cs of (a, b) \<Rightarrow> (c # a, b)))"

definition parseDetail :: "string \<Rightarrow> int \<times> string" where
  "parseDetail detail =
     (case splitDetail detail of (a, b) \<Rightarrow>
        (fst (parse_int a), case b of Some m \<Rightarrow> m | None \<Rightarrow> []))"

definition sample_of :: "(string, payload) gomap \<Rightarrow> string \<times> payload \<Rightarrow> lsample option" where
  "sample_of details entry =
     (case entry of (tss, st) \<Rightarrow>
       (case parse_int_ok tss of
          None \<Rightarrow> None
        | Some ts \<Rightarrow> Some
            (case map_of details tss of
               Some d \<Rightarrow> \<lparr>ls_ts = ts, ls_fail = (payload_text st = ''f''),
                  ls_ms = fst (parseDetail (payload_text d)), ls_msg = snd (parseDetail (payload_text d)),
                  ls_has_detail = True\<rparr>
             | None \<Rightarrow> \<lparr>ls_ts = ts, ls_fail = (payload_text st = ''f''), ls_ms = 0, ls_msg = [],
                  ls_has_detail = False\<rparr>)))"

text \<open>
  \<^verbatim>\<open>sort.Slice\<close> by time stamp. It is not stable: two fields that spell the same number, which
  no writer produces, could come out in either order.
\<close>

definition samples_of :: "(string, payload) gomap \<Rightarrow> (string, payload) gomap \<Rightarrow> lsample list" where
  "samples_of statuses details = sort_key ls_ts (List.map_filter (sample_of details) statuses)"

section \<open>The scan over the samples\<close>

record scan =
  sc_index :: nat
  sc_successes :: int
  sc_failures :: int
  sc_total_ms :: int
  sc_ms_samples :: int
  sc_min_ms :: int
  sc_max_ms :: int
  sc_runs :: "failure_run list"
  sc_cur :: failure_run
  sc_open :: bool

definition scan_start :: scan where
  "scan_start = \<lparr>sc_index = 0, sc_successes = 0, sc_failures = 0, sc_total_ms = 0, sc_ms_samples = 0,
     sc_min_ms = 0, sc_max_ms = 0, sc_runs = [], sc_cur = zero_run, sc_open = False\<rparr>"

definition flush :: "bool \<Rightarrow> scan \<Rightarrow> scan" where
  "flush openEnd sc =
     (if sc_open sc
      then sc\<lparr>sc_runs := sc_runs sc @ [(sc_cur sc)\<lparr>fr_open_end := openEnd\<rparr>], sc_open := False\<rparr>
      else sc)"

definition measure_sample :: "lsample \<Rightarrow> scan \<Rightarrow> scan" where
  "measure_sample smp sc =
     (if ls_has_detail smp \<and> \<not> ls_fail smp
      then sc\<lparr>sc_min_ms := (if sc_ms_samples sc = 0 \<or> ls_ms smp < sc_min_ms sc then ls_ms smp
                             else sc_min_ms sc),
              sc_max_ms := (if sc_max_ms sc < ls_ms smp then ls_ms smp else sc_max_ms sc),
              sc_total_ms := wrap64 (sc_total_ms sc + ls_ms smp),
              sc_ms_samples := sc_ms_samples sc + 1\<rparr>
      else sc)"

definition count_sample :: "lsample \<Rightarrow> scan \<Rightarrow> scan" where
  "count_sample smp sc =
     (if ls_fail smp
      then (let sc1 = sc\<lparr>sc_failures := sc_failures sc + 1\<rparr>
            in if sc_open sc1 \<and> fr_message (sc_cur sc1) = ls_msg smp
               then sc1\<lparr>sc_cur := (sc_cur sc1)\<lparr>fr_end := ls_ts smp, fr_count := fr_count (sc_cur sc1) + 1\<rparr>\<rparr>
               else (flush False sc1)\<lparr>sc_cur := \<lparr>fr_start = ls_ts smp, fr_end = ls_ts smp, fr_count = 1,
                        fr_message = ls_msg smp, fr_open_start = (sc_index sc = 0), fr_open_end = False\<rparr>,
                      sc_open := True\<rparr>)
      else flush False (sc\<lparr>sc_successes := sc_successes sc + 1\<rparr>))"

definition scan_sample :: "lsample \<Rightarrow> scan \<Rightarrow> scan" where
  "scan_sample smp sc = (count_sample smp (measure_sample smp sc))\<lparr>sc_index := sc_index sc + 1\<rparr>"

definition scan_samples :: "lsample list \<Rightarrow> scan" where
  "scan_samples smps = flush True (fold scan_sample smps scan_start)"

definition rollup_of_scan :: "scan \<Rightarrow> location_rollup" where
  "rollup_of_scan sc =
     (let r = \<lparr>lr_total = sc_successes sc + sc_failures sc, lr_success = sc_successes sc,
               lr_failure = sc_failures sc, lr_avg = 0, lr_min = 0, lr_max = 0, lr_measured = 0,
               lr_status = LocationFromCounts (sc_successes sc) (sc_failures sc), lr_runs = sc_runs sc\<rparr>
      in if 0 < sc_ms_samples sc
         then r\<lparr>lr_avg := f64_div (f64_of_int (sc_total_ms sc)) (f64_of_int (sc_ms_samples sc)),
                lr_min := f64_of_int (sc_min_ms sc), lr_max := f64_of_int (sc_max_ms sc),
                lr_measured := sc_ms_samples sc\<rparr>
         else r)"

definition location_rollup_of :: "(string, payload) gomap \<Rightarrow> (string, payload) gomap \<Rightarrow> location_rollup" where
  "location_rollup_of statuses details =
     (if statuses = [] then zero_lr else rollup_of_scan (scan_samples (samples_of statuses details)))"

definition ComputeLocationRollup :: "'s valkey_client \<Rightarrow> 's store \<Rightarrow> string \<Rightarrow> string \<Rightarrow> string \<Rightarrow> time
    \<Rightarrow> location_rollup result" where
  "ComputeLocationRollup vc st locName dash svc hr =
     (case map_of (st_locations st) locName of
        None \<Rightarrow> Inl (''unknown location '' @ locName)
      | Some conn \<Rightarrow>
          (case vc_hgetall vc conn (StatusHour dash svc (unix hr)) of
             Inl e \<Rightarrow> Inl e
           | Inr statuses \<Rightarrow>
               (case vc_hgetall vc conn (DetailHour dash svc (unix hr)) of
                  Inl e \<Rightarrow> Inl e
                | Inr details \<Rightarrow> Inr (location_rollup_of statuses details))))"

section \<open>The aggregate of one hour\<close>

definition aggregateStatus :: "(string, location_rollup) gomap \<Rightarrow> string" where
  "aggregateStatus perLocation =
     AggregateFromLocations (map (\<lambda>(_, lr). LocationFromCounts (lr_success lr) (lr_failure lr)) perLocation)"

fun aggregate_add :: "location_rollup \<Rightarrow> aggregate_rollup \<times> rat \<times> int \<Rightarrow> aggregate_rollup \<times> rat \<times> int" where
  "aggregate_add lr (agg, totalMs, msSamples) =
     (let agg' = agg\<lparr>ag_success := wrap64 (ag_success agg + lr_success lr),
                     ag_failure := wrap64 (ag_failure agg + lr_failure lr)\<rparr>
      in if 0 < lr_measured lr
         then (agg', f64_add totalMs (f64_mul (lr_avg lr) (f64_of_int (lr_measured lr))),
               wrap64 (msSamples + lr_measured lr))
         else (agg', totalMs, msSamples))"

definition aggregate :: "(string, location_rollup) gomap \<Rightarrow> aggregate_rollup" where
  "aggregate perLocation =
     (let names = sort (map fst perLocation);
          agg0 = zero_ag\<lparr>ag_per_location := perLocation, ag_status := aggregateStatus perLocation\<rparr>;
          (agg, totalMs, msSamples) =
            fold (\<lambda>name. aggregate_add (get_or zero_lr perLocation name)) names (agg0, 0, 0)
      in if 0 < msSamples then agg\<lparr>ag_avg := f64_div totalMs (f64_of_int msSamples)\<rparr> else agg)"

fun aggregate_scan :: "'s valkey_client \<Rightarrow> 's store \<Rightarrow> string \<Rightarrow> string \<Rightarrow> time \<Rightarrow> string list
    \<Rightarrow> (string, location_rollup) gomap \<times> (string, string) gomap
    \<Rightarrow> (string, location_rollup) gomap \<times> (string, string) gomap" where
  "aggregate_scan vc st dash svc hr [] acc = acc"
| "aggregate_scan vc st dash svc hr (loc # locs) (perLocation, failed) =
     aggregate_scan vc st dash svc hr locs
       (case ComputeLocationRollup vc st loc dash svc hr of
          Inl e \<Rightarrow> (perLocation, failed @ [(loc, e)])
        | Inr lr \<Rightarrow> (if 0 < lr_total lr then map_put loc lr perLocation else perLocation, failed))"

text \<open>
  The list \<^verbatim>\<open>missing\<close> and the map \<^verbatim>\<open>failed\<close> are filled together, so one association list
  holds both.
\<close>

definition computeAggregate :: "'s valkey_client \<Rightarrow> 's store \<Rightarrow> string \<Rightarrow> string \<Rightarrow> time
    \<Rightarrow> aggregate_rollup \<times> (string, string) gomap" where
  "computeAggregate vc st dash svc hr =
     (case aggregate_scan vc st dash svc hr (LocationNames st) ([], []) of
        (perLocation, failed) \<Rightarrow> ((aggregate perLocation)\<lparr>ag_missing := map fst failed\<rparr>, failed))"

definition merge_locations :: "(string, location_rollup) gomap \<Rightarrow> (string, location_rollup) gomap
    \<Rightarrow> (string, location_rollup) gomap" where
  "merge_locations fresh stored =
     fold (\<lambda>(loc, lr) pl. if lr_total (get_or zero_lr pl loc) < lr_total lr then map_put loc lr pl else pl)
       stored fresh"

definition mergeStored :: "aggregate_rollup \<Rightarrow> aggregate_rollup \<Rightarrow> aggregate_rollup" where
  "mergeStored fresh stored =
     (aggregate (merge_locations (ag_per_location fresh) (ag_per_location stored)))
       \<lparr>ag_missing := ag_missing fresh\<rparr>"

definition liveHour :: "'s valkey_client \<Rightarrow> 's store \<Rightarrow> string \<Rightarrow> string \<Rightarrow> time \<Rightarrow> aggregate_rollup
    \<Rightarrow> aggregate_rollup \<times> bool" where
  "liveHour vc st dash svc hr stored =
     (let merged = mergeStored (fst (computeAggregate vc st dash svc hr)) stored
      in (merged, ag_per_location merged \<noteq> []))"

section \<open>The counts of the scan\<close>

abbreviation failing :: "lsample list \<Rightarrow> lsample list" where
  "failing \<equiv> filter ls_fail"

abbreviation measured :: "lsample list \<Rightarrow> lsample list" where
  "measured \<equiv> filter (\<lambda>s. ls_has_detail s \<and> \<not> ls_fail s)"

lemma flush_simps [simp]:
  "sc_index (flush b sc) = sc_index sc" "sc_successes (flush b sc) = sc_successes sc"
  "sc_failures (flush b sc) = sc_failures sc" "sc_total_ms (flush b sc) = sc_total_ms sc"
  "sc_ms_samples (flush b sc) = sc_ms_samples sc" "sc_min_ms (flush b sc) = sc_min_ms sc"
  "sc_max_ms (flush b sc) = sc_max_ms sc" "\<not> sc_open (flush b sc)"
  by (simp_all add: flush_def)

lemma count_sample_simps [simp]:
  "sc_index (count_sample s sc) = sc_index sc"
  "sc_successes (count_sample s sc) = sc_successes sc + (if ls_fail s then 0 else 1)"
  "sc_failures (count_sample s sc) = sc_failures sc + (if ls_fail s then 1 else 0)"
  "sc_total_ms (count_sample s sc) = sc_total_ms sc"
  "sc_ms_samples (count_sample s sc) = sc_ms_samples sc"
  "sc_min_ms (count_sample s sc) = sc_min_ms sc" "sc_max_ms (count_sample s sc) = sc_max_ms sc"
  by (simp_all add: count_sample_def Let_def)

lemma measure_sample_simps [simp]:
  "sc_index (measure_sample s sc) = sc_index sc" "sc_successes (measure_sample s sc) = sc_successes sc"
  "sc_failures (measure_sample s sc) = sc_failures sc" "sc_runs (measure_sample s sc) = sc_runs sc"
  "sc_cur (measure_sample s sc) = sc_cur sc" "sc_open (measure_sample s sc) = sc_open sc"
  by (simp_all add: measure_sample_def)

lemma scan_counts:
  "sc_successes (fold scan_sample ss sc) = sc_successes sc + int (length ss) - int (length (failing ss))"
  "sc_failures (fold scan_sample ss sc) = sc_failures sc + int (length (failing ss))"
  by (induction ss arbitrary: sc) (simp_all add: scan_sample_def)

lemma scan_index: "sc_index (fold scan_sample ss sc) = sc_index sc + length ss"
  by (induction ss arbitrary: sc) (simp_all add: scan_sample_def)

section \<open>The runs of the scan are the maximal runs of failures\<close>

text \<open>Two failing samples of one run.\<close>

definition same_run :: "string \<Rightarrow> lsample \<Rightarrow> bool" where
  "same_run msg s \<longleftrightarrow> ls_fail s \<and> ls_msg s = msg"

definition run_of :: "lsample list \<Rightarrow> bool \<Rightarrow> bool \<Rightarrow> failure_run" where
  "run_of blk openStart openEnd =
     \<lparr>fr_start = ls_ts (hd blk), fr_end = ls_ts (last blk), fr_count = int (length blk),
      fr_message = ls_msg (hd blk), fr_open_start = openStart, fr_open_end = openEnd\<rparr>"

text \<open>
  The specification: cut the samples in maximal blocks of consecutive failures with one message;
  a block is open at the start when it holds the first sample, at the end when it holds the last.
\<close>

function failure_runs :: "bool \<Rightarrow> lsample list \<Rightarrow> failure_run list" where
  "failure_runs first [] = []"
| "failure_runs first (s # ss) =
     (if ls_fail s
      then (let blk = s # takeWhile (same_run (ls_msg s)) ss; rest = dropWhile (same_run (ls_msg s)) ss
            in run_of blk first (rest = []) # failure_runs False rest)
      else failure_runs False ss)"
  by pat_completeness auto
termination
  by (relation "measure (length \<circ> snd)") (auto simp: less_Suc_eq_le length_dropWhile_le)

declare failure_runs.simps(2) [simp del]

text \<open>What the scan will append to its runs, by its open run and whether it is at the first sample.\<close>

definition new_run :: "bool \<Rightarrow> lsample \<Rightarrow> failure_run" where
  "new_run first s = run_of [s] first False"

definition extend_run :: "failure_run \<Rightarrow> lsample \<Rightarrow> failure_run" where
  "extend_run c s = c\<lparr>fr_end := ls_ts s, fr_count := fr_count c + 1\<rparr>"

fun pending_runs :: "bool \<Rightarrow> failure_run option \<Rightarrow> lsample list \<Rightarrow> failure_run list" where
  "pending_runs first None [] = []"
| "pending_runs first (Some c) [] = [c\<lparr>fr_open_end := True\<rparr>]"
| "pending_runs first None (s # ss) =
     (if ls_fail s then pending_runs False (Some (new_run first s)) ss else pending_runs False None ss)"
| "pending_runs first (Some c) (s # ss) =
     (if same_run (fr_message c) s then pending_runs False (Some (extend_run c s)) ss
      else c\<lparr>fr_open_end := False\<rparr> #
        (if ls_fail s then pending_runs False (Some (new_run False s)) ss else pending_runs False None ss))"

definition open_run :: "scan \<Rightarrow> failure_run option" where
  "open_run sc = (if sc_open sc then Some (sc_cur sc) else None)"

lemma pending_runs_first: "pending_runs first (Some c) ss = pending_runs False (Some c) ss"
  by (cases ss) simp_all

lemma new_run_eq: "new_run first s = \<lparr>fr_start = ls_ts s, fr_end = ls_ts s, fr_count = 1,
    fr_message = ls_msg s, fr_open_start = first, fr_open_end = False\<rparr>"
  by (simp add: new_run_def run_of_def)

lemma scan_sample_run:
  "ls_fail s \<Longrightarrow> sc_open sc \<Longrightarrow> fr_message (sc_cur sc) = ls_msg s
     \<Longrightarrow> sc_runs (scan_sample s sc) = sc_runs sc \<and> open_run (scan_sample s sc) = Some (extend_run (sc_cur sc) s)"
  "ls_fail s \<Longrightarrow> sc_open sc \<Longrightarrow> fr_message (sc_cur sc) \<noteq> ls_msg s
     \<Longrightarrow> sc_runs (scan_sample s sc) = sc_runs sc @ [(sc_cur sc)\<lparr>fr_open_end := False\<rparr>]
       \<and> open_run (scan_sample s sc) = Some (new_run (sc_index sc = 0) s)"
  "ls_fail s \<Longrightarrow> \<not> sc_open sc
     \<Longrightarrow> sc_runs (scan_sample s sc) = sc_runs sc
       \<and> open_run (scan_sample s sc) = Some (new_run (sc_index sc = 0) s)"
  "\<not> ls_fail s \<Longrightarrow> sc_open sc
     \<Longrightarrow> sc_runs (scan_sample s sc) = sc_runs sc @ [(sc_cur sc)\<lparr>fr_open_end := False\<rparr>]
       \<and> open_run (scan_sample s sc) = None"
  "\<not> ls_fail s \<Longrightarrow> \<not> sc_open sc
     \<Longrightarrow> sc_runs (scan_sample s sc) = sc_runs sc \<and> open_run (scan_sample s sc) = None"
  by (simp_all add: scan_sample_def count_sample_def Let_def open_run_def extend_run_def new_run_eq
      flush_def measure_sample_def)

lemma scan_sample_index [simp]: "sc_index (scan_sample s sc) = Suc (sc_index sc)"
  by (simp add: scan_sample_def)

lemma scan_runs_pending:
  assumes "sc_index sc = 0 \<longrightarrow> \<not> sc_open sc"
  shows "sc_runs (flush True (fold scan_sample ss sc)) =
    sc_runs sc @ pending_runs (sc_index sc = 0) (open_run sc) ss"
  using assms
proof (induction ss arbitrary: sc)
  case Nil
  then show ?case by (simp add: flush_def open_run_def)
next
  case (Cons s ss)
  have IH: "sc_runs (flush True (fold scan_sample ss (scan_sample s sc))) =
      sc_runs (scan_sample s sc) @ pending_runs False (open_run (scan_sample s sc)) ss"
    using Cons.IH [of "scan_sample s sc"] by simp
  show ?case
  proof (cases "sc_open sc")
    case True
    then have o: "open_run sc = Some (sc_cur sc)" "sc_index sc \<noteq> 0"
      using Cons.prems by (auto simp: open_run_def)
    consider "ls_fail s" "fr_message (sc_cur sc) = ls_msg s"
      | "ls_fail s" "fr_message (sc_cur sc) \<noteq> ls_msg s" | "\<not> ls_fail s" by blast
    then show ?thesis
    proof cases
      case 1
      with True IH o scan_sample_run(1) [OF 1(1) True 1(2)] show ?thesis
        by (simp add: same_run_def)
    next
      case 2
      with True IH o scan_sample_run(2) [OF 2(1) True 2(2)] show ?thesis
        by (simp add: same_run_def)
    next
      case 3
      with True IH o scan_sample_run(4) [OF 3 True] show ?thesis
        by (simp add: same_run_def)
    qed
  next
    case False
    then have "open_run sc = None" by (simp add: open_run_def)
    with False IH scan_sample_run(3) [OF _ False] scan_sample_run(5) [OF _ False] show ?thesis
      by (cases "ls_fail s") simp_all
  qed
qed

lemma pending_runs_block:
  assumes "\<not> fr_open_end c"
  shows "pending_runs first (Some c) ss =
    (let blk = takeWhile (same_run (fr_message c)) ss; rest = dropWhile (same_run (fr_message c)) ss
     in c\<lparr>fr_end := (if blk = [] then fr_end c else ls_ts (last blk)),
          fr_count := fr_count c + int (length blk), fr_open_end := (rest = [])\<rparr>
        # pending_runs False None rest)"
  using assms
proof (induction ss arbitrary: c first)
  case (Cons s ss)
  show ?case
  proof (cases "same_run (fr_message c) s")
    case True
    with Cons.IH [of "extend_run c s" False] Cons.prems show ?thesis
      by (auto simp: extend_run_def Let_def)
  next
    case False
    with Cons.prems show ?thesis by (simp add: Let_def)
  qed
qed (simp add: Let_def)

lemma pending_runs_spec: "pending_runs first None ss = failure_runs first ss"
proof (induction first ss rule: failure_runs.induct)
  case (2 first s ss)
  show ?case
  proof (cases "ls_fail s")
    case True
    have IH: "pending_runs False None (dropWhile (same_run (ls_msg s)) ss)
        = failure_runs False (dropWhile (same_run (ls_msg s)) ss)"
      using "2.IH"(1) [OF True refl refl] .
    have m: "fr_message (new_run first s) = ls_msg s" "\<not> fr_open_end (new_run first s)"
      by (simp_all add: new_run_eq)
    show ?thesis
      using True IH pending_runs_block [OF m(2), of False ss]
      by (simp add: m failure_runs.simps(2) Let_def) (simp add: new_run_eq run_of_def)
  next
    case False
    with 2 show ?thesis by (simp add: failure_runs.simps(2))
  qed
qed simp

lemma scan_samples_runs: "sc_runs (scan_samples ss) = failure_runs True ss"
  using scan_runs_pending [of scan_start ss] pending_runs_spec [of True ss]
  by (simp add: scan_samples_def scan_start_def open_run_def)

lemma failing_takeWhile: "failing (takeWhile (same_run m) ss) = takeWhile (same_run m) ss"
  by (induction ss) (auto simp: same_run_def)

lemma failure_runs_count: "sum_list (map fr_count (failure_runs first ss)) = int (length (failing ss))"
proof (induction first ss rule: failure_runs.induct)
  case (2 first s ss)
  show ?case
  proof (cases "ls_fail s")
    case True
    have "failing ss = takeWhile (same_run (ls_msg s)) ss @ failing (dropWhile (same_run (ls_msg s)) ss)"
      by (metis filter_append failing_takeWhile takeWhile_dropWhile_id)
    then have "int (length (failing ss)) = int (length (takeWhile (same_run (ls_msg s)) ss))
        + int (length (failing (dropWhile (same_run (ls_msg s)) ss)))"
      by (metis length_append of_nat_add)
    with True "2.IH"(1) [OF True refl refl] show ?thesis
      by (simp add: failure_runs.simps(2) Let_def run_of_def)
  next
    case False
    with 2 show ?thesis by (simp add: failure_runs.simps(2))
  qed
qed simp

section \<open>The times of the scan\<close>

abbreviation ms_of :: "lsample list \<Rightarrow> int list" where
  "ms_of ss \<equiv> map ls_ms (measured ss)"

lemma scan_times:
  defines "sc ss \<equiv> fold scan_sample ss scan_start"
  shows "sc_ms_samples (sc ss) = int (length (ms_of ss))"
    and "sc_total_ms (sc ss) = wrap64 (sum_list (ms_of ss))"
    and "sc_max_ms (sc ss) = Max (insert 0 (set (ms_of ss)))"
    and "ms_of ss \<noteq> [] \<Longrightarrow> sc_min_ms (sc ss) = Min (set (ms_of ss))"
proof (induction ss rule: rev_induct)
  case Nil
  show "sc_ms_samples (sc []) = int (length (ms_of []))"
    "sc_total_ms (sc []) = wrap64 (sum_list (ms_of []))"
    "sc_max_ms (sc []) = Max (insert 0 (set (ms_of [])))"
    "ms_of [] \<noteq> [] \<Longrightarrow> sc_min_ms (sc []) = Min (set (ms_of []))"
    by (simp_all add: sc_def scan_start_def wrap64_def)
next
  case (snoc s ss)
  have step: "sc (ss @ [s]) = scan_sample s (sc ss)" by (simp add: sc_def)
  show "sc_ms_samples (sc (ss @ [s])) = int (length (ms_of (ss @ [s])))"
    using snoc(1) by (simp add: step scan_sample_def measure_sample_def)
  show "sc_total_ms (sc (ss @ [s])) = wrap64 (sum_list (ms_of (ss @ [s])))"
    using snoc(2) by (simp add: step scan_sample_def measure_sample_def)
  show "sc_max_ms (sc (ss @ [s])) = Max (insert 0 (set (ms_of (ss @ [s]))))"
  proof (cases "ls_has_detail s \<and> \<not> ls_fail s")
    case True
    let ?A = "set (ms_of ss)"
    have "insert 0 (set (ms_of (ss @ [s]))) = insert (ls_ms s) (insert 0 ?A)"
      using True by auto
    then have "Max (insert 0 (set (ms_of (ss @ [s])))) = max (ls_ms s) (Max (insert 0 ?A))"
      by (simp only: Max_insert finite_insert finite_set insert_not_empty not_False_eq_True)
    moreover have "sc_max_ms (sc (ss @ [s])) = max (ls_ms s) (sc_max_ms (sc ss))"
      using True by (simp add: step scan_sample_def measure_sample_def)
    ultimately show ?thesis using snoc(3) by (simp only:)
  next
    case False
    then have "ms_of (ss @ [s]) = ms_of ss" by auto
    with snoc(3) False show ?thesis
      by (simp only:) (auto simp: step scan_sample_def measure_sample_def)
  qed
  show "sc_min_ms (sc (ss @ [s])) = Min (set (ms_of (ss @ [s])))" if "ms_of (ss @ [s]) \<noteq> []"
  proof (cases "ms_of ss = []")
    case True
    with snoc(1) that show ?thesis
      by (auto simp: step scan_sample_def measure_sample_def)
  next
    case False
    then have "0 < sc_ms_samples (sc ss)" using snoc(1) by simp
    show ?thesis
    proof (cases "ls_has_detail s \<and> \<not> ls_fail s")
      case True
      let ?A = "set (ms_of ss)"
      have "set (ms_of (ss @ [s])) = insert (ls_ms s) ?A" using True by auto
      then have "Min (set (ms_of (ss @ [s]))) = min (ls_ms s) (Min ?A)"
        using False by (simp only: Min_insert finite_set set_empty not_False_eq_True)
      moreover have "sc_min_ms (sc (ss @ [s])) = min (ls_ms s) (sc_min_ms (sc ss))"
        using True \<open>0 < sc_ms_samples (sc ss)\<close>
        by (simp add: step scan_sample_def measure_sample_def min_def)
      ultimately show ?thesis using snoc(4) [OF False] by (simp only:)
    next
      case nm: False
      then have "ms_of (ss @ [s]) = ms_of ss" by auto
      with snoc(4) [OF False] nm show ?thesis
        by (simp only:) (auto simp: step scan_sample_def measure_sample_def)
    qed
  qed
qed

section \<open>The rollup of one location\<close>

lemma scan_samples_simps [simp]:
  "sc_successes (scan_samples ss) = int (length ss) - int (length (failing ss))"
  "sc_failures (scan_samples ss) = int (length (failing ss))"
  "sc_ms_samples (scan_samples ss) = int (length (ms_of ss))"
  "sc_total_ms (scan_samples ss) = wrap64 (sum_list (ms_of ss))"
  "sc_max_ms (scan_samples ss) = Max (insert 0 (set (ms_of ss)))"
  "sc_runs (scan_samples ss) = failure_runs True ss"
  using scan_counts [of ss scan_start] scan_samples_runs [of ss] scan_times(1-3) [of ss]
  by (simp_all add: scan_samples_def scan_start_def)

lemma scan_samples_min: "ms_of ss \<noteq> [] \<Longrightarrow> sc_min_ms (scan_samples ss) = Min (set (ms_of ss))"
  using scan_times(4) [of ss] by (simp add: scan_samples_def)

lemma rollup_of_scan_simps [simp]:
  "lr_total (rollup_of_scan sc) = sc_successes sc + sc_failures sc"
  "lr_success (rollup_of_scan sc) = sc_successes sc" "lr_failure (rollup_of_scan sc) = sc_failures sc"
  "lr_runs (rollup_of_scan sc) = sc_runs sc"
  "lr_status (rollup_of_scan sc) = LocationFromCounts (sc_successes sc) (sc_failures sc)"
  "lr_measured (rollup_of_scan sc) = (if 0 < sc_ms_samples sc then sc_ms_samples sc else 0)"
  by (simp_all add: rollup_of_scan_def Let_def)

lemma samples_of_nil [simp]: "samples_of [] details = []"
  by (simp add: samples_of_def map_filter_def)

lemma location_rollup_of_counts:
  "lr_total (location_rollup_of statuses details) = int (length (samples_of statuses details))"
  "lr_failure (location_rollup_of statuses details) = int (length (failing (samples_of statuses details)))"
  "lr_success (location_rollup_of statuses details) =
     int (length (samples_of statuses details)) - int (length (failing (samples_of statuses details)))"
  "lr_runs (location_rollup_of statuses details) = failure_runs True (samples_of statuses details)"
  by (simp_all add: location_rollup_of_def zero_lr_def)

lemma samples_of_length:
  "length (samples_of statuses details) = length (filter (\<lambda>e. parse_int_ok (fst e) \<noteq> None) statuses)"
  by (simp add: samples_of_def) (induction statuses; auto simp: map_filter_Cons sample_of_def
      map_filter_simps split: option.splits)

lemma samples_of_failing:
  "length (failing (samples_of statuses details)) =
    length (filter (\<lambda>e. parse_int_ok (fst e) \<noteq> None \<and> payload_text (snd e) = ''f'') statuses)"
proof -
  have "mset (failing (samples_of statuses details)) =
      mset (failing (List.map_filter (sample_of details) statuses))"
    by (simp add: samples_of_def)
  then have "length (failing (samples_of statuses details)) =
      length (failing (List.map_filter (sample_of details) statuses))"
    by (rule mset_eq_length)
  also have "\<dots> = length (filter (\<lambda>e. parse_int_ok (fst e) \<noteq> None \<and> payload_text (snd e) = ''f'') statuses)"
    by (induction statuses) (auto simp: map_filter_Cons sample_of_def map_filter_simps split: option.splits)
  finally show ?thesis .
qed

lemma location_rollup_of_bounds:
  "0 \<le> lr_success (location_rollup_of statuses details)"
  "0 \<le> lr_failure (location_rollup_of statuses details)"
  "lr_total (location_rollup_of statuses details) =
     lr_success (location_rollup_of statuses details) + lr_failure (location_rollup_of statuses details)"
  by (simp_all add: location_rollup_of_counts)

lemma rollup_times:
  fixes ss :: "lsample list"
  defines "r \<equiv> rollup_of_scan (scan_samples ss)" and "ms \<equiv> ms_of ss"
  assumes ne: "ms \<noteq> []" and nn: "\<forall>m \<in> set ms. 0 \<le> m"
    and small: "sum_list ms \<le> 2 ^ 53" "int (length ms) \<le> 2 ^ 53"
  shows "lr_min r = of_int (Min (set ms))" "lr_max r = of_int (Max (set ms))"
    "lr_min r \<le> lr_avg r" "lr_avg r \<le> lr_max r" "lr_measured r = int (length ms)"
proof -
  have fin: "finite (set ms)" "set ms \<noteq> {}" using ne by simp_all
  have le: "\<forall>m \<in> set ms. m \<le> 2 ^ 53"
    using member_le_sum_list [OF nn] small(1) by fastforce
  have max: "Max (insert 0 (set ms)) = Max (set ms)"
    using fin nn Max_in [OF fin] by (simp add: Max_insert max_def)
  have n: "0 < int (length ms)" using ne by simp
  have tot: "wrap64 (sum_list ms) = sum_list ms"
  proof (rule wrap64_id)
    have "0 \<le> sum_list ms" using nn by (intro sum_list_nonneg) auto
    with small(1) show "in_int64 (sum_list ms)"
      by (simp add: in_int64_def min_int64_def max_int64_def)
  qed
  have mm: "0 \<le> Min (set ms)" "Min (set ms) \<le> 2 ^ 53" "0 \<le> Max (set ms)" "Max (set ms) \<le> 2 ^ 53"
    using fin nn le Min_in [OF fin] Max_in [OF fin] by auto
  have s: "\<bar>sum_list ms\<bar> \<le> 2 ^ 53"
    using small(1) sum_list_nonneg [of ms] nn by auto
  have fields: "lr_min r = f64_of_int (Min (set ms))" "lr_max r = f64_of_int (Max (set ms))"
    "lr_avg r = f64_div (f64_of_int (sum_list ms)) (f64_of_int (int (length ms)))"
    "lr_measured r = int (length ms)"
    using n tot max scan_samples_min [of ss] ne
    unfolding r_def ms_def by (simp_all add: rollup_of_scan_def Let_def)
  show mi: "lr_min r = of_int (Min (set ms))" and ma: "lr_max r = of_int (Max (set ms))"
    and "lr_measured r = int (length ms)"
    using fields mm by (simp_all add: abs_of_nonneg)
  have "Min (set ms) * int (length ms) \<le> sum_list ms"
    by (rule sum_list_ge_mult) (use fin in auto)
  moreover have "sum_list ms \<le> Max (set ms) * int (length ms)"
    by (rule sum_list_le_mult) (use fin in auto)
  ultimately have "of_int (Min (set ms)) \<le> f64_div (f64_of_int (sum_list ms)) (f64_of_int (int (length ms)))"
    "f64_div (f64_of_int (sum_list ms)) (f64_of_int (int (length ms))) \<le> of_int (Max (set ms))"
    using f64_mean_between [OF n _ _ s small(2)] mm by (simp_all add: abs_of_nonneg)
  then show "lr_min r \<le> lr_avg r" "lr_avg r \<le> lr_max r"
    by (simp_all only: mi ma fields(3))
qed

section \<open>The order in which the maps are visited does not matter\<close>

definition stamps_distinct :: "(string, payload) gomap \<Rightarrow> bool" where
  "stamps_distinct statuses \<longleftrightarrow> distinct (List.map_filter (\<lambda>e. parse_int_ok (fst e)) statuses)"

lemma sample_of_ts:
  "map ls_ts (List.map_filter (sample_of details) statuses) =
    List.map_filter (\<lambda>e. parse_int_ok (fst e)) statuses"
  by (induction statuses)
    (auto simp: map_filter_Cons sample_of_def map_filter_def split: option.splits)

lemma sample_of_cong: "map_of d = map_of d' \<Longrightarrow> sample_of d = sample_of d'"
  by (rule ext) (auto simp: sample_of_def split: option.splits)

lemma samples_of_order:
  assumes "mset statuses = mset statuses'" "map_of details = map_of details'"
    and "stamps_distinct statuses"
  shows "samples_of statuses details = samples_of statuses' details'"
proof -
  have "mset (List.map_filter (sample_of details) statuses)
      = mset (List.map_filter (sample_of details') statuses')"
    unfolding sample_of_cong [OF assms(2)] by (rule map_filter_mset [OF assms(1)])
  moreover have "inj_on ls_ts (set (List.map_filter (sample_of details) statuses))"
    using assms(3) by (metis distinct_map sample_of_ts stamps_distinct_def)
  ultimately show ?thesis unfolding samples_of_def by (rule sort_key_perm)
qed

lemma samples_of_sorted: "sorted (map ls_ts (samples_of statuses details))"
  by (simp add: samples_of_def)

lemma location_rollup_of_order:
  assumes "mset statuses = mset statuses'" "map_of details = map_of details'"
    and "stamps_distinct statuses"
  shows "location_rollup_of statuses details = location_rollup_of statuses' details'"
  using samples_of_order [OF assms] assms(1) by (auto simp: location_rollup_of_def)

section \<open>The aggregate\<close>

lemma aggregate_alt:
  assumes "wf_map pl"
  shows "aggregate pl =
    (let agg0 = zero_ag\<lparr>ag_per_location := pl, ag_status := aggregateStatus pl\<rparr>;
         (agg, totalMs, msSamples) = fold aggregate_add (map snd (sort_map pl)) (agg0, 0, 0)
     in if 0 < msSamples then agg\<lparr>ag_avg := f64_div totalMs (f64_of_int msSamples)\<rparr> else agg)"
proof -
  have "fold (\<lambda>name. aggregate_add (get_or zero_lr pl name)) (sort (map fst pl))
      = fold aggregate_add (map snd (sort_map pl))"
    unfolding sorted_keys_entries [OF assms, of zero_lr, symmetric] by (simp add: fold_map comp_def)
  then show ?thesis by (simp add: aggregate_def Let_def)
qed

lemma aggregate_fold_counts:
  assumes "fold aggregate_add lrs (agg, t, n) = (agg', t', n')"
  shows "ag_success agg' = (if lrs = [] then ag_success agg
      else wrap64 (ag_success agg + sum_list (map lr_success lrs)))"
    and "ag_failure agg' = (if lrs = [] then ag_failure agg
      else wrap64 (ag_failure agg + sum_list (map lr_failure lrs)))"
    and "ag_per_location agg' = ag_per_location agg" "ag_status agg' = ag_status agg"
    and "ag_missing agg' = ag_missing agg" "ag_in_progress agg' = ag_in_progress agg"
proof (atomize (full), use assms in \<open>induction lrs arbitrary: agg t n\<close>)
  case (Cons lr lrs)
  obtain a1 t1 n1 where s: "aggregate_add lr (agg, t, n) = (a1, t1, n1)" by (cases "aggregate_add lr (agg, t, n)")
  then have a1: "ag_success a1 = wrap64 (ag_success agg + lr_success lr)"
    "ag_failure a1 = wrap64 (ag_failure agg + lr_failure lr)"
    "ag_per_location a1 = ag_per_location agg" "ag_status a1 = ag_status agg"
    "ag_missing a1 = ag_missing agg" "ag_in_progress a1 = ag_in_progress agg"
    by (auto simp: Let_def split: if_splits)
  have "fold aggregate_add lrs (a1, t1, n1) = (agg', t', n')" using Cons.prems s by simp
  from Cons.IH [OF this] show ?case by (auto simp: a1 algebra_simps)
qed simp

lemma aggregate_fields:
  assumes "wf_map pl"
  shows "ag_per_location (aggregate pl) = pl" "ag_status (aggregate pl) = aggregateStatus pl"
    "ag_missing (aggregate pl) = []" "ag_in_progress (aggregate pl) = False"
    "ag_success (aggregate pl) = wrap64 (sum_of lr_success pl)"
    "ag_failure (aggregate pl) = wrap64 (sum_of lr_failure pl)"
proof -
  obtain a t n where f: "fold aggregate_add (map snd (sort_map pl))
      (zero_ag\<lparr>ag_per_location := pl, ag_status := aggregateStatus pl\<rparr>, 0, 0) = (a, t, n)"
    using prod_cases3 by blast
  have sums: "sum_list (map f (map snd (sort_map pl))) = sum_of f pl" for f
    unfolding sum_of_mset [of pl "sort_map pl" f, simplified sort_map_def, simplified]
    by (simp add: sum_of_def sort_map_def case_prod_unfold comp_def)
  have z: "sort_map pl = [] \<longleftrightarrow> pl = []"
    by (simp only: sort_map_def length_sort flip: length_0_conv)
  note c = aggregate_fold_counts [OF f]
  have 1: "aggregate pl = (if 0 < n then a\<lparr>ag_avg := f64_div t (f64_of_int n)\<rparr> else a)"
    using f by (simp add: aggregate_alt [OF assms] Let_def)
  have 2: "ag_success a = wrap64 (sum_of lr_success pl)" "ag_failure a = wrap64 (sum_of lr_failure pl)"
    using c(1,2) unfolding sums by (auto simp: z zero_ag_def wrap64_def)
  from 1 2 c(3-6)
  show "ag_per_location (aggregate pl) = pl" "ag_status (aggregate pl) = aggregateStatus pl"
    "ag_missing (aggregate pl) = []" "ag_in_progress (aggregate pl) = False"
    "ag_success (aggregate pl) = wrap64 (sum_of lr_success pl)"
    "ag_failure (aggregate pl) = wrap64 (sum_of lr_failure pl)"
    by (simp_all add: zero_ag_def)
qed

lemma aggregateStatus_order: "mset pl = mset pl' \<Longrightarrow> aggregateStatus pl = aggregateStatus pl'"
  unfolding aggregateStatus_def by (rule AggregateFromLocations_perm) (simp only: mset_map)

lemma aggregate_order:
  assumes "wf_map pl" "wf_map pl'" "map_of pl = map_of pl'"
  shows "aggregate pl = (aggregate pl')\<lparr>ag_per_location := pl\<rparr>"
proof -
  let ?z = "\<lambda>pl. zero_ag\<lparr>ag_per_location := pl, ag_status := aggregateStatus pl\<rparr>"
  have add: "aggregate_add lr (a\<lparr>ag_per_location := pl\<rparr>, t, n) =
      (case aggregate_add lr (a, t, n) of (a', t', n') \<Rightarrow> (a'\<lparr>ag_per_location := pl\<rparr>, t', n'))" for lr a t n
    by (simp add: Let_def)
  have fold_add: "fold aggregate_add lrs (a\<lparr>ag_per_location := pl\<rparr>, t, n) =
      (case fold aggregate_add lrs (a, t, n) of (a', t', n') \<Rightarrow> (a'\<lparr>ag_per_location := pl\<rparr>, t', n'))" for lrs a t n
  proof (induction lrs arbitrary: a t n)
    case (Cons lr lrs)
    obtain a1 t1 n1 where "aggregate_add lr (a, t, n) = (a1, t1, n1)" by (rule prod_cases3)
    with Cons.IH add [of lr a t n] show ?case by (simp del: aggregate_add.simps)
  qed simp
  have "?z pl = (?z pl')\<lparr>ag_per_location := pl\<rparr>"
    using aggregateStatus_order [OF map_of_eq_imp_mset [OF assms]] by simp
  then have "fold aggregate_add (map snd (sort_map pl)) (?z pl, 0, 0) =
      (case fold aggregate_add (map snd (sort_map pl')) (?z pl', 0, 0) of
         (a', t', n') \<Rightarrow> (a'\<lparr>ag_per_location := pl\<rparr>, t', n'))"
    unfolding sort_map_cong [OF assms] by (simp only: fold_add)
  then show ?thesis
    by (simp add: aggregate_alt [OF assms(1)] aggregate_alt [OF assms(2)] split: prod.splits)
qed

section \<open>Merging with the stored rollup\<close>

lemma wf_merge_locations: "wf_map fresh \<Longrightarrow> wf_map (merge_locations fresh stored)"
  by (induction stored arbitrary: fresh) (auto simp: merge_locations_def split: prod.splits)

lemma map_of_merge_locations:
  assumes "wf_map stored"
  shows "map_of (merge_locations fresh stored) loc =
    (case map_of stored loc of
       Some lr \<Rightarrow> if lr_total (get_or zero_lr fresh loc) < lr_total lr then Some lr else map_of fresh loc
     | None \<Rightarrow> map_of fresh loc)"
  using assms
proof (induction stored arbitrary: fresh)
  case (Cons e stored)
  obtain l lr where e: "e = (l, lr)" by (cases e)
  have l: "map_of stored l = None" using Cons.prems e by (auto simp: map_of_eq_None_iff)
  let ?f = "if lr_total (get_or zero_lr fresh l) < lr_total lr then map_put l lr fresh else fresh"
  have "merge_locations fresh (e # stored) = merge_locations ?f stored"
    by (simp add: merge_locations_def e)
  with Cons.IH [of ?f] Cons.prems l e show ?case
    by (auto split: option.splits)
qed (simp add: merge_locations_def)

lemma merge_locations_total:
  assumes "wf_map stored"
  shows "lr_total (get_or zero_lr (merge_locations fresh stored) loc) =
    (case map_of stored loc of
       Some lr \<Rightarrow> max (lr_total (get_or zero_lr fresh loc)) (lr_total lr)
     | None \<Rightarrow> lr_total (get_or zero_lr fresh loc))"
  using map_of_merge_locations [OF assms, of fresh loc]
  by (auto simp: get_or_def split: option.splits)

lemma merge_locations_order:
  assumes "wf_map s1" "wf_map s2" "map_of s1 = map_of s2"
  shows "map_of (merge_locations fresh s1) = map_of (merge_locations fresh s2)"
  by (rule ext) (simp only: map_of_merge_locations [OF assms(1)] map_of_merge_locations [OF assms(2)] assms(3))

lemma merge_sum_ge:
  assumes "wf_map fresh" "wf_map stored"
    and "\<forall>(l, lr) \<in> set fresh. 0 \<le> lr_total lr"
  shows "sum_of lr_total stored \<le> sum_of lr_total (merge_locations fresh stored)"
    and "sum_of lr_total fresh \<le> sum_of lr_total (merge_locations fresh stored)"
proof -
  let ?m = "merge_locations fresh stored"
  let ?t = "\<lambda>m k. lr_total (get_or zero_lr m k)"
  have wf: "wf_map ?m" using assms(1) by (rule wf_merge_locations)
  have total: "sum_of lr_total m = (\<Sum>k \<in> A. ?t m k)"
    if "wf_map m" "finite A" "dom (map_of m) \<subseteq> A" for m A
    unfolding sum_of_keys [OF that(1)]
    by (rule sum.mono_neutral_cong_left [OF that(2,3)]) (auto simp: get_or_def split: option.splits)
  let ?A = "dom (map_of fresh) \<union> dom (map_of stored)"
  have dom: "dom (map_of ?m) \<subseteq> ?A"
    using map_of_merge_locations [OF assms(2), of fresh]
    by (auto simp: dom_def split: option.splits if_splits)
  have fin: "finite ?A" by (simp add: finite_dom_map_of)
  have nonneg: "0 \<le> ?t fresh k" for k
    using assms(3) by (auto simp: get_or_def split: option.splits dest!: map_of_SomeD)
  have ge: "?t stored k \<le> ?t ?m k" "?t fresh k \<le> ?t ?m k" for k
    using merge_locations_total [OF assms(2), of fresh k] nonneg [of k]
    by (auto simp: get_or_def [of _ stored] split: option.splits)
  show "sum_of lr_total stored \<le> sum_of lr_total ?m" "sum_of lr_total fresh \<le> sum_of lr_total ?m"
    unfolding total [OF wf fin dom] total [OF assms(1) fin Un_upper1] total [OF assms(2) fin Un_upper2]
    by (intro sum_mono ge)+
qed


lemma mergeStored_per_location:
  assumes "wf_map (ag_per_location fresh)"
  shows "ag_per_location (mergeStored fresh old) =
      merge_locations (ag_per_location fresh) (ag_per_location old)"
    and "ag_missing (mergeStored fresh old) = ag_missing fresh"
  using aggregate_fields [OF wf_merge_locations [OF assms]] by (simp_all add: mergeStored_def)

section \<open>Properties\<close>

text \<open>
  C3: the failure runs of an hour are exactly its maximal blocks of consecutive failing samples
  with one message, open at the ends of the hour they touch, and their counts add up to the
  failures counted.
\<close>

theorem location_runs_maximal:
  "lr_runs (location_rollup_of statuses details) = failure_runs True (samples_of statuses details)
   \<and> sum_list (map fr_count (lr_runs (location_rollup_of statuses details)))
     = lr_failure (location_rollup_of statuses details)"
  by (simp add: location_rollup_of_counts failure_runs_count)

text \<open>
  C4: a location's rollup counts every parsable sample once, as a success or a failure, and its
  status is that of the ladder on these counts.
\<close>

theorem location_counts:
  "lr_total (location_rollup_of statuses details)
     = int (length (filter (\<lambda>e. parse_int_ok (fst e) \<noteq> None) statuses))
   \<and> lr_failure (location_rollup_of statuses details)
     = int (length (filter (\<lambda>e. parse_int_ok (fst e) \<noteq> None \<and> payload_text (snd e) = ''f'') statuses))
   \<and> lr_success (location_rollup_of statuses details) + lr_failure (location_rollup_of statuses details)
     = lr_total (location_rollup_of statuses details)"
  using location_rollup_of_bounds(3) [of statuses details]
  by (simp add: location_rollup_of_counts(1,2) samples_of_length samples_of_failing)

text \<open>
  C5: the mean time of an hour lies between its minimum and its maximum, and these are the
  smallest and the largest measured time, as long as the times add up to at most \<open>2 ^ 53\<close>.
\<close>

theorem location_times_ordered:
  assumes "ms = ms_of (samples_of statuses details)" "ms \<noteq> []" "\<forall>m \<in> set ms. 0 \<le> m"
    and "sum_list ms \<le> 2 ^ 53" "int (length ms) \<le> 2 ^ 53"
  shows "lr_min (location_rollup_of statuses details) = of_int (Min (set ms))
    \<and> lr_max (location_rollup_of statuses details) = of_int (Max (set ms))
    \<and> lr_min (location_rollup_of statuses details) \<le> lr_avg (location_rollup_of statuses details)
    \<and> lr_avg (location_rollup_of statuses details) \<le> lr_max (location_rollup_of statuses details)"
proof -
  have "statuses \<noteq> []" using assms(1,2) by auto
  then have "location_rollup_of statuses details = rollup_of_scan (scan_samples (samples_of statuses details))"
    by (simp add: location_rollup_of_def)
  with rollup_times [of "samples_of statuses details"] assms show ?thesis by simp
qed

definition example_statuses :: "(string, payload) gomap" where
  "example_statuses = [(''7260'', Text ''f''), (''7200'', Text ''s''), (''7230'', Text ''s'')]"

definition example_details :: "(string, payload) gomap" where
  "example_details = [(''7200'', Text ''12''), (''7230'', Text ''15''), (''7260'', Text ''0|timeout'')]"

theorem location_times_ordered_witness:
  "lr_avg (location_rollup_of example_statuses example_details) \<le> 15"
proof -
  have ms: "ms_of (samples_of example_statuses example_details) = [12, 15]" by code_simp
  have "lr_avg (location_rollup_of example_statuses example_details)
      \<le> lr_max (location_rollup_of example_statuses example_details)"
    using location_times_ordered [OF ms [symmetric]] by simp
  also have "lr_max (location_rollup_of example_statuses example_details) = 15" by code_simp
  finally show ?thesis .
qed

text \<open>
  C6: the rollup of an hour does not depend on the order in which its status and detail maps are
  visited, when no two fields spell the same time.
\<close>

theorem location_order_free:
  assumes "mset statuses = mset statuses'" "wf_map details" "mset details = mset details'"
    and "stamps_distinct statuses"
  shows "location_rollup_of statuses details = location_rollup_of statuses' details'"
  using assms(1,4) map_of_mset_cong [OF assms(2,3)] by (intro location_rollup_of_order)

theorem location_order_free_witness:
  "location_rollup_of example_statuses example_details
    = location_rollup_of (rev example_statuses) (rev example_details)"
proof (rule location_order_free)
  show "wf_map example_details" by (simp add: example_details_def)
  show "stamps_distinct example_statuses" by code_simp
qed simp_all

text \<open>
  Merging a stored rollup into a fresh one gives every location the entry with the higher
  count of checks, so that no location and no sum over the locations ever counts fewer checks
  than either of the two.
\<close>

theorem mergeStored_keeps_counts:
  assumes "wf_map (ag_per_location fresh)" "wf_map (ag_per_location old)"
    and "\<forall>(l, lr) \<in> set (ag_per_location fresh). 0 \<le> lr_total lr"
  shows "lr_total (get_or zero_lr (ag_per_location (mergeStored fresh old)) loc) =
      (case map_of (ag_per_location old) loc of
         None \<Rightarrow> lr_total (get_or zero_lr (ag_per_location fresh) loc)
       | Some lr \<Rightarrow> max (lr_total (get_or zero_lr (ag_per_location fresh) loc)) (lr_total lr))
    \<and> sum_of lr_total (ag_per_location old) \<le> sum_of lr_total (ag_per_location (mergeStored fresh old))
    \<and> sum_of lr_total (ag_per_location fresh) \<le> sum_of lr_total (ag_per_location (mergeStored fresh old))"
  using merge_locations_total [OF assms(2), of "ag_per_location fresh" loc] merge_sum_ge [OF assms]
  by (simp_all add: mergeStored_per_location [OF assms(1)] split: option.split)

definition example_lr :: "int \<Rightarrow> int \<Rightarrow> location_rollup" where
  "example_lr s f = zero_lr\<lparr>lr_total := s + f, lr_success := s, lr_failure := f\<rparr>"

theorem mergeStored_keeps_counts_witness:
  "(3 :: int) \<le> sum_of lr_total (ag_per_location (mergeStored
     (zero_ag\<lparr>ag_per_location := [(''eu'', example_lr 1 0)]\<rparr>)
     (zero_ag\<lparr>ag_per_location := [(''us'', example_lr 1 1), (''eu'', example_lr 0 1)]\<rparr>)))"
  using mergeStored_keeps_counts [of "zero_ag\<lparr>ag_per_location := [(''eu'', example_lr 1 0)]\<rparr>"
      "zero_ag\<lparr>ag_per_location := [(''us'', example_lr 1 1), (''eu'', example_lr 0 1)]\<rparr>"]
  by (simp add: example_lr_def)

text \<open>
  C7: an aggregate rollup is the sum of its locations and carries the ladder's status for them,
  whichever order the location map is visited in.
\<close>

theorem aggregate_sums:
  assumes "wf_map pl" "mset pl = mset pl'"
  shows "ag_success (aggregate pl') = wrap64 (sum_of lr_success pl)
    \<and> ag_failure (aggregate pl') = wrap64 (sum_of lr_failure pl)
    \<and> ag_status (aggregate pl') = aggregateStatus pl
    \<and> ag_avg (aggregate pl') = ag_avg (aggregate pl)"
proof -
  have wf': "wf_map pl'" using assms by (metis mset_eq_imp_distinct_iff mset_map)
  show ?thesis
    using aggregate_fields [OF wf'] sum_of_mset [OF assms(2)] aggregateStatus_order [OF assms(2)]
      aggregate_order [OF wf' assms(1)] map_of_mset_cong [OF assms] by simp
qed

theorem aggregate_sums_witness:
  "ag_success (aggregate [(''us'', example_lr 2 1), (''eu'', example_lr 3 0)]) = 5"
proof -
  have "ag_success (aggregate [(''us'', example_lr 2 1), (''eu'', example_lr 3 0)])
      = wrap64 (sum_of lr_success [(''eu'', example_lr 3 0), (''us'', example_lr 2 1)])"
    using aggregate_sums [of "[(''eu'', example_lr 3 0), (''us'', example_lr 2 1)]"
      "[(''us'', example_lr 2 1), (''eu'', example_lr 3 0)]"] by simp
  then show ?thesis by (simp add: example_lr_def wrap64_def)
qed

end
