(* ===== verification/Store_Storage.thy ===== *)
theory Store_Storage
  imports Store_Rollup Valkey_Test_Server
begin

text \<open>
  \<^verbatim>\<open>dashboard/internal/store/store.go\<close>, second part: what the store keeps on its primary
  location. The hourly rollup of a service and its daily summary are fields of two hashes, each
  written with a time to live of its own; \<open>History\<close> reads them back.
\<close>

definition dailyRetention :: duration where
  "dailyRetention = 365 * 24 * hour"

text \<open>\<^verbatim>\<open>time.Duration(s.retention) * time.Second\<close>, which wraps as \<^verbatim>\<open>int64\<close> does.\<close>

definition retention_duration :: "'s store \<Rightarrow> duration" where
  "retention_duration st = wrap64 (st_retention st * second)"

section \<open>Writing fields that expire\<close>

text \<open>\<^verbatim>\<open>DoMulti\<close> sends every command; the first error in order is the one reported.\<close>

definition first_error :: "string option \<Rightarrow> string option \<Rightarrow> string option" where
  "first_error a b = (case a of Some e \<Rightarrow> Some e | None \<Rightarrow> b)"

definition writeExpiring :: "'s valkey_client \<Rightarrow> 's store \<Rightarrow> string \<Rightarrow> string \<Rightarrow> payload \<Rightarrow> time \<Rightarrow> time
    \<Rightarrow> 's store \<times> bool \<times> string option" where
  "writeExpiring vc st key field val expiresAt now =
     (let ttl = go_div (time_sub expiresAt now) second
      in if ttl \<le> 0 then (st, False, None)
         else (case vc_hset vc (primary_conn st) key field val of
             (s1, e1) \<Rightarrow>
           (case vc_hexpire vc s1 key ttl field of
             (s2, e2) \<Rightarrow>
           (case first_error e1 e2 of
              Some e \<Rightarrow> (set_primary st s2, False, Some e)
            | None \<Rightarrow>
                (case vc_persist vc s2 key of
                  (s3, e3) \<Rightarrow> (set_primary st s3, True, e3))))))"

text \<open>One pass over the fields of a hash: the commands queued for it, in order.\<close>

fun expire_commands :: "'s valkey_client \<Rightarrow> string \<Rightarrow> time \<Rightarrow> (string \<Rightarrow> time option) \<Rightarrow> string list
    \<Rightarrow> ('s \<Rightarrow> 's \<times> string option) list" where
  "expire_commands vc key now expiry [] = []"
| "expire_commands vc key now expiry (field # rest) =
     (case expiry field of
        None \<Rightarrow> expire_commands vc key now expiry rest
      | Some until \<Rightarrow>
          (let ttl = go_div (time_sub until now) second
           in (if 0 < ttl then (\<lambda>s. vc_hexpire vc s key ttl field) else (\<lambda>s. vc_hdel vc s key field)))
          # expire_commands vc key now expiry rest)"

fun do_multi :: "('s \<Rightarrow> 's \<times> string option) list \<Rightarrow> 's \<Rightarrow> 's \<times> string option" where
  "do_multi [] s = (s, None)"
| "do_multi (c # cs) s =
     (case c s of (s1, e1) \<Rightarrow> (case do_multi cs s1 of (s2, e2) \<Rightarrow> (s2, first_error e1 e2)))"

definition expireFields :: "'s valkey_client \<Rightarrow> 's store \<Rightarrow> string \<Rightarrow> time \<Rightarrow> (string \<Rightarrow> time option)
    \<Rightarrow> 's store \<times> string option" where
  "expireFields vc st key now expiry =
     (case vc_hkeys vc (primary_conn st) key of
        Inl e \<Rightarrow> (st, Some e)
      | Inr names \<Rightarrow>
          (case expire_commands vc key now expiry names of
             [] \<Rightarrow> (st, None)
           | cmds \<Rightarrow>
               (case do_multi cmds (primary_conn st) of
                  (s1, Some e) \<Rightarrow> (set_primary st s1, Some e)
                | (s1, None) \<Rightarrow>
                    (case vc_persist vc s1 key of (s2, e) \<Rightarrow> (set_primary st s2, e)))))"

text \<open>
  Times are instants without bounds here: a field whose number lies near the ends of the 64-bit range, which
  no roll-up writes, would wrap around in \<^verbatim>\<open>time.Unix\<close>.
\<close>

definition hourly_expiry :: "'s store \<Rightarrow> string \<Rightarrow> time option" where
  "hourly_expiry st field =
     map_option (\<lambda>epoch. of_unix epoch + retention_duration st) (parse_int_ok field)"

definition daily_expiry :: "string \<Rightarrow> time option" where
  "daily_expiry field = map_option (\<lambda>d. d + dailyRetention) (parse_date field)"

definition ExpireRollupFields :: "'s valkey_client \<Rightarrow> 's store \<Rightarrow> string \<Rightarrow> string \<Rightarrow> time
    \<Rightarrow> 's store \<times> string option" where
  "ExpireRollupFields vc st dash svc now =
     (case expireFields vc st (RollupAggregateHour dash svc) now (hourly_expiry st) of
        (st1, Some e) \<Rightarrow> (st1, Some e)
      | (st1, None) \<Rightarrow> expireFields vc st1 (RollupDaily dash svc) now daily_expiry)"

section \<open>The hourly rollup\<close>

record hour_rollup =
  hr_written :: bool
  hr_missing :: "(string, string) gomap"

definition zero_hour_rollup :: hour_rollup where
  "zero_hour_rollup = \<lparr>hr_written = False, hr_missing = []\<rparr>"

definition hour_field :: "time \<Rightarrow> string" where
  "hour_field hr = itoa (unix hr)"

definition stored_or_zero :: "payload option \<Rightarrow> aggregate_rollup" where
  "stored_or_zero p =
     (case p of None \<Rightarrow> zero_ag
      | Some d \<Rightarrow> (case unmarshal unmarshal_aggregate d of Some r \<Rightarrow> r | None \<Rightarrow> zero_ag))"

definition is_placeholder :: "aggregate_rollup \<Rightarrow> bool" where
  "is_placeholder old \<longleftrightarrow> ag_missing old \<noteq> [] \<and> ag_per_location old = []"

datatype hour_decision = DeleteHour | KeepHour | StoreHour aggregate_rollup

text \<open>What to do with the merged rollup: delete the placeholder, leave the hash alone, or store.\<close>

definition hour_decision_of :: "aggregate_rollup \<Rightarrow> aggregate_rollup \<Rightarrow> bool \<Rightarrow> bool \<Rightarrow> hour_decision" where
  "hour_decision_of old rollup inProgress mark =
     (if ag_per_location rollup = [] \<and> is_placeholder old \<and> ag_missing rollup = []
      then DeleteHour
      else if ag_per_location rollup = []
           \<and> (ag_missing rollup = [] \<or> inProgress \<or> \<not> mark
              \<or> (is_placeholder old \<and> ag_missing old = ag_missing rollup))
      then KeepHour
      else StoreHour (rollup\<lparr>ag_in_progress := inProgress\<rparr>))"

definition RollupHour :: "'s valkey_client \<Rightarrow> 's store \<Rightarrow> string \<Rightarrow> string \<Rightarrow> time \<Rightarrow> time \<Rightarrow> bool
    \<Rightarrow> 's store \<times> hour_rollup \<times> string option" where
  "RollupHour vc st dash svc hr now mark =
     (let expiresAt = hr + retention_duration st
      in if expiresAt \<le> now then (st, zero_hour_rollup, None)
         else (case computeAggregate vc st dash svc hr of
           (agg, failed) \<Rightarrow>
             (let res = \<lparr>hr_written = False, hr_missing = failed\<rparr>;
                  key = RollupAggregateHour dash svc;
                  field = hour_field hr
              in case vc_hget vc (primary_conn st) key field of
                   Inl e \<Rightarrow> (st, res, Some e)
                 | Inr stored \<Rightarrow>
                     (let old = stored_or_zero stored;
                          rollup = mergeStored agg old
                      in case hour_decision_of old rollup (now < hr + hour) mark of
                           DeleteHour \<Rightarrow>
                             (case vc_hdel vc (primary_conn st) key field of
                                (s1, e) \<Rightarrow> (set_primary st s1, res, e))
                         | KeepHour \<Rightarrow> (st, res, None)
                         | StoreHour r \<Rightarrow>
                             (case writeExpiring vc st key field (Doc (marshal_aggregate r)) expiresAt now of
                                (st', written, e) \<Rightarrow> (st', res\<lparr>hr_written := written\<rparr>, e))))))"

text \<open>One entry of the stored hash as \<^verbatim>\<open>GetAggregateRollups\<close> reads it; None is skipped.\<close>

definition read_hour :: "time \<Rightarrow> time \<Rightarrow> string \<times> payload \<Rightarrow> (int \<times> aggregate_rollup) option" where
  "read_hour fr to entry =
     (case parse_int_ok (fst entry) of
        None \<Rightarrow> None
      | Some hourEpoch \<Rightarrow>
          if of_unix hourEpoch < fr \<or> to < of_unix hourEpoch then None
          else (case unmarshal unmarshal_aggregate (snd entry) of
              None \<Rightarrow> None
            | Some r \<Rightarrow> Some (hourEpoch,
                if ag_per_location r \<noteq> []
                then r\<lparr>ag_status := aggregateStatus (ag_per_location r)\<rparr> else r)))"

definition GetAggregateRollups :: "'s valkey_client \<Rightarrow> 's store \<Rightarrow> string \<Rightarrow> string \<Rightarrow> time \<Rightarrow> time
    \<Rightarrow> (int, aggregate_rollup) gomap result" where
  "GetAggregateRollups vc st dash svc fr to =
     (case vc_hgetall vc (primary_conn st) (RollupAggregateHour dash svc) of
        Inl e \<Rightarrow> Inl e
      | Inr entries \<Rightarrow> Inr (put_all (List.map_filter (read_hour fr to) entries) []))"

section \<open>Daily rollups\<close>

definition WriteDailyRollup :: "'s valkey_client \<Rightarrow> 's store \<Rightarrow> string \<Rightarrow> string \<Rightarrow> time \<Rightarrow> daily_rollup
    \<Rightarrow> time \<Rightarrow> 's store \<times> string option" where
  "WriteDailyRollup vc st dash svc dy dr now =
     (case writeExpiring vc st (RollupDaily dash svc) (format_date dy) (Doc (marshal_daily dr))
         (dy + dailyRetention) now of
        (st', _, e) \<Rightarrow> (st', e))"

definition read_day :: "time \<Rightarrow> time \<Rightarrow> string \<times> payload \<Rightarrow> (string \<times> daily_rollup) option" where
  "read_day fr to entry =
     (case parse_date (fst entry) of
        None \<Rightarrow> None
      | Some t \<Rightarrow>
          if t < time_truncate fr day \<or> time_truncate to day < t then None
          else map_option (Pair (fst entry)) (unmarshal unmarshal_daily (snd entry)))"

definition GetDailyRollups :: "'s valkey_client \<Rightarrow> 's store \<Rightarrow> string \<Rightarrow> string \<Rightarrow> time \<Rightarrow> time
    \<Rightarrow> (string, daily_rollup) gomap result" where
  "GetDailyRollups vc st dash svc fr to =
     (case vc_hgetall vc (primary_conn st) (RollupDaily dash svc) of
        Inl e \<Rightarrow> Inl e
      | Inr entries \<Rightarrow> Inr (put_all (List.map_filter (read_day fr to) entries) []))"

fun add_hour :: "int \<times> aggregate_rollup \<Rightarrow> (string, daily_rollup) gomap \<Rightarrow> (string, daily_rollup) gomap" where
  "add_hour (h, r) byDay =
     (let d = format_date (of_unix h);
          dr = get_or zero_dr byDay d;
          success = wrap64 (dr_success dr + ag_success r);
          failure = wrap64 (dr_failure dr + ag_failure r)
      in map_put d \<lparr>dr_date = d, dr_success = success, dr_failure = failure,
           dr_total = wrap64 (success + failure)\<rparr> byDay)"

definition computeDailyFromHours :: "(int, aggregate_rollup) gomap \<Rightarrow> (string, daily_rollup) gomap" where
  "computeDailyFromHours rollups = fold add_hour rollups []"

definition UpdateDailyRollup :: "'s valkey_client \<Rightarrow> 's store \<Rightarrow> string \<Rightarrow> string \<Rightarrow> time \<Rightarrow> time
    \<Rightarrow> 's store \<times> bool \<times> string option" where
  "UpdateDailyRollup vc st dash svc dy now =
     (let fr = time_truncate dy day;
          to = fr + (24 * hour - second)
      in case GetAggregateRollups vc st dash svc fr to of
           Inl e \<Rightarrow> (st, False, Some e)
         | Inr hours \<Rightarrow>
             (case map_of (computeDailyFromHours hours) (format_date fr) of
                None \<Rightarrow> (st, False, None)
              | Some dr \<Rightarrow>
                  if 0 < dr_total dr
                  then (case WriteDailyRollup vc st dash svc fr dr now of
                          (st', e) \<Rightarrow> (st', e = None, e))
                  else (st, False, None)))"

section \<open>The history of a service\<close>

record history =
  hi_hours :: "(int, aggregate_rollup) gomap"
  hi_days :: "(string, daily_rollup) gomap"

definition History :: "'s valkey_client \<Rightarrow> 's store \<Rightarrow> string \<Rightarrow> string \<Rightarrow> time \<Rightarrow> history result" where
  "History vc st dash svc now =
     (case GetAggregateRollups vc st dash svc
         (time_truncate (add_days now (- st_retention_days st)) day) now of
        Inl e \<Rightarrow> Inl e
      | Inr hours \<Rightarrow>
          (let cur = time_truncate now hour;
               (agg, live) = liveHour vc st dash svc cur (get_or zero_ag hours (unix cur));
               hours' = (if live then map_put (unix cur) agg hours else hours)
           in case GetDailyRollups vc st dash svc (add_days now (-365)) now of
                Inl e \<Rightarrow> Inl e
              | Inr days \<Rightarrow> Inr \<lparr>hi_hours = hours', hi_days = days\<rparr>))"

record day_count =
  dc_success :: int
  dc_total :: int

definition zero_dc :: day_count where
  "zero_dc = \<lparr>dc_success = 0, dc_total = 0\<rparr>"

fun count_hour :: "int \<times> aggregate_rollup \<Rightarrow> (string, day_count) gomap \<Rightarrow> (string, day_count) gomap" where
  "count_hour (epoch, r) out =
     (let key = format_date (of_unix epoch);
          c = get_or zero_dc out key
      in map_put key \<lparr>dc_success = wrap64 (dc_success c + ag_success r),
           dc_total = wrap64 (dc_total c + wrap64 (ag_success r + ag_failure r))\<rparr> out)"

fun count_day :: "string \<Rightarrow> string \<times> daily_rollup \<Rightarrow> (string, day_count) gomap \<Rightarrow> (string, day_count) gomap" where
  "count_day today (key, dr) out =
     (if key < today
      then map_put key \<lparr>dc_success = dr_success dr, dc_total = wrap64 (dr_success dr + dr_failure dr)\<rparr> out
      else out)"

definition ByDay :: "history \<Rightarrow> time \<Rightarrow> (string, day_count) gomap" where
  "ByDay h now =
     fold (count_day (format_date now)) (hi_days h) (fold count_hour (hi_hours h) [])"

fun uptime_from :: "(string, day_count) gomap \<Rightarrow> time \<Rightarrow> nat \<Rightarrow> nat \<Rightarrow> int \<times> int \<Rightarrow> int \<times> int" where
  "uptime_from byDay today d 0 acc = acc"
| "uptime_from byDay today d (Suc n) (success, tot) =
     (let c = get_or zero_dc byDay (format_date (add_days today (- int d)))
      in uptime_from byDay today (Suc d) n
           (wrap64 (success + dc_success c), wrap64 (tot + dc_total c)))"

definition Uptime :: "history \<Rightarrow> int \<Rightarrow> time \<Rightarrow> int \<times> int" where
  "Uptime h days now = uptime_from (ByDay h now) (time_truncate now day) 0 (nat days) (0, 0)"

definition FormatPercent :: "int \<Rightarrow> int \<Rightarrow> string" where
  "FormatPercent success tot =
     (if tot \<le> 0 then []
      else if tot \<le> success then ''100%''
      else (let bp = go_div (wrap64 (success * 10000)) tot;
                num = trim_right (\<lambda>c. c = CHR ''0'')
                        (itoa (go_div bp 100) @ ''.'' @ fmt_int 2 (go_mod bp 100))
            in trim_right (\<lambda>c. c = CHR ''.'') num @ ''%''))"

section \<open>The connections of a store\<close>

lemma set_primary_simps [simp]:
  "st_primary (set_primary st s) = st_primary st"
  "st_retention (set_primary st s) = st_retention st"
  "st_retention_days (set_primary st s) = st_retention_days st"
  "map_of (st_locations (set_primary st s)) = (map_of (st_locations st))(st_primary st \<mapsto> s)"
  "primary_conn (set_primary st s) = s"
  by (simp_all add: set_primary_def primary_conn_def)

lemma store_ok_set_primary [simp]: "store_ok st \<Longrightarrow> store_ok (set_primary st s)"
  by (simp add: store_ok_def set_primary_def)

text \<open>The two stores differ at most in what is behind the primary connection.\<close>

definition same_but_primary :: "'s store \<Rightarrow> 's store \<Rightarrow> bool" where
  "same_but_primary st st' \<longleftrightarrow> st_primary st' = st_primary st \<and> st_retention st' = st_retention st
     \<and> st_retention_days st' = st_retention_days st
     \<and> (\<forall>l. l \<noteq> st_primary st \<longrightarrow> map_of (st_locations st') l = map_of (st_locations st) l)"

lemma same_but_primary_refl [simp]: "same_but_primary st st"
  by (simp add: same_but_primary_def)

lemma same_but_primary_set [simp]: "same_but_primary st (set_primary st s)"
  by (simp add: same_but_primary_def)

lemma same_but_primary_trans:
  "same_but_primary st st1 \<Longrightarrow> same_but_primary st1 st2 \<Longrightarrow> same_but_primary st st2"
  by (auto simp: same_but_primary_def)

section \<open>Times to live\<close>

lemma time_sub_range: "in_int64 (time_sub t u)"
  by (simp add: time_sub_def in_int64_def min_int64_def max_int64_def)

lemma go_div_range:
  assumes "in_int64 x" "0 < b"
  shows "in_int64 (go_div x b)"
proof -
  have "\<bar>x\<bar> div \<bar>b\<bar> \<le> \<bar>x\<bar>" using zdiv_mono2 [of "\<bar>x\<bar>" 1 "\<bar>b\<bar>"] assms(2) by simp
  moreover have "0 \<le> \<bar>x\<bar> div \<bar>b\<bar>" using assms(2) by (simp add: pos_imp_zdiv_nonneg_iff)
  ultimately show ?thesis using assms
    by (cases "x = 0"; cases "0 < x") (auto simp: go_div_def in_int64_def min_int64_def max_int64_def)
qed

definition ttl_seconds :: "time \<Rightarrow> time \<Rightarrow> int" where
  "ttl_seconds expiresAt now = go_div (time_sub expiresAt now) second"

lemma ttl_seconds_range: "in_int64 (ttl_seconds expiresAt now)"
  unfolding ttl_seconds_def by (rule go_div_range [OF time_sub_range]) (simp add: second_def)

lemma ttl_seconds_pos: "0 < ttl_seconds expiresAt now \<longleftrightarrow> now + second \<le> expiresAt"
  by (auto simp: ttl_seconds_def go_div_pos_iff time_sub_def second_def min_int64_def max_int64_def)

text \<open>A time to live never outlasts the expiry and falls short of it by less than a second.\<close>

lemma ttl_seconds_bounds:
  assumes "now \<le> expiresAt" "expiresAt - now \<le> max_int64"
  shows "now + ttl_seconds expiresAt now * second \<le> expiresAt"
    and "expiresAt < now + (ttl_seconds expiresAt now + 1) * second"
proof -
  have "time_sub expiresAt now = expiresAt - now"
    using assms by (simp add: time_sub_def min_int64_def max_int64_def)
  then have t: "ttl_seconds expiresAt now = (expiresAt - now) div second"
    using assms(1) by (simp add: ttl_seconds_def go_div_nonneg second_def)
  have "(expiresAt - now) div second * second + (expiresAt - now) mod second = expiresAt - now"
    by (rule div_mult_mod_eq)
  moreover have "0 \<le> (expiresAt - now) mod second" "(expiresAt - now) mod second < second"
    by (simp_all add: second_def)
  ultimately show "now + ttl_seconds expiresAt now * second \<le> expiresAt"
    "expiresAt < now + (ttl_seconds expiresAt now + 1) * second"
    unfolding t distrib_right by linarith+
qed

section \<open>What the writes leave behind\<close>

definition put_field :: "string \<Rightarrow> string \<Rightarrow> payload \<Rightarrow> (string \<Rightarrow> string \<Rightarrow> payload option)
    \<Rightarrow> string \<Rightarrow> string \<Rightarrow> payload option" where
  "put_field key field v h = h(key := (h key)(field \<mapsto> v))"

context valkey_laws
begin

text \<open>The fields of the hashes behind the primary connection.\<close>

abbreviation stored :: "'s store \<Rightarrow> string \<Rightarrow> string \<Rightarrow> payload option" where
  "stored st \<equiv> hash (primary_conn st)"

lemma writeExpiring_laws:
  assumes w: "writeExpiring vc st key field v expiresAt now = (st', written, err)" and ok: "store_ok st"
  shows "store_ok st'" "same_but_primary st st'"
    and "stored st' = stored st \<or> stored st' = put_field key field v (stored st)"
    and "written \<Longrightarrow> stored st' = put_field key field v (stored st)
      \<and> field_ttl (primary_conn st') key field = Some (ttl_seconds expiresAt now)
      \<and> 0 < ttl_seconds expiresAt now"
    and "written \<Longrightarrow> err = None \<Longrightarrow> key_ttl (primary_conn st') key = None"
    and "\<not> written \<Longrightarrow> err = None \<Longrightarrow> st' = st \<and> ttl_seconds expiresAt now \<le> 0"
proof -
  let ?ttl = "ttl_seconds expiresAt now"
  have "store_ok st' \<and> same_but_primary st st'
    \<and> (stored st' = stored st \<or> stored st' = put_field key field v (stored st))
    \<and> (written \<longrightarrow> stored st' = put_field key field v (stored st)
        \<and> field_ttl (primary_conn st') key field = Some ?ttl \<and> 0 < ?ttl)
    \<and> (written \<longrightarrow> err = None \<longrightarrow> key_ttl (primary_conn st') key = None)
    \<and> (\<not> written \<longrightarrow> err = None \<longrightarrow> st' = st \<and> ?ttl \<le> 0)"
  proof (cases "?ttl \<le> 0")
    case True
    with w ok show ?thesis by (simp add: writeExpiring_def ttl_seconds_def Let_def)
  next
    case False
    then have pos: "0 < ?ttl" by simp
    obtain s1 e1 where 1: "vc_hset vc (primary_conn st) key field v = (s1, e1)" by fastforce
    obtain s2 e2 where 2: "vc_hexpire vc s1 key ?ttl field = (s2, e2)" by fastforce
    obtain s3 e3 where 3: "vc_persist vc s2 key = (s3, e3)" by fastforce
    have h1: "hash s1 = (case e1 of None \<Rightarrow> put_field key field v (stored st) | Some _ \<Rightarrow> stored st)"
      using 1 hset hset_err by (auto simp: put_field_def split: option.splits)
    have h2: "hash s2 = hash s1" by (rule hexpire [OF pos ttl_seconds_range 2])
    have h3: "hash s3 = hash s2 \<and> field_ttl s3 = field_ttl s2" by (rule persist [OF 3])
    show ?thesis
    proof (cases "first_error e1 e2")
      case None
      then have e: "e1 = None" "e2 = None" by (auto simp: first_error_def split: option.splits)
      have "hash s1 key field \<noteq> None" using h1 e by (simp add: put_field_def)
      from hexpire_ttl [OF pos ttl_seconds_range this] 2 e
      have "field_ttl s2 key field = Some ?ttl" by blast
      moreover have "st' = set_primary st s3" "written" "err = e3"
        using w False 1 2 3 None by (simp_all add: writeExpiring_def ttl_seconds_def Let_def)
      moreover have "e3 = None \<Longrightarrow> key_ttl s3 key = None" using persist_ttl 3 by blast
      ultimately show ?thesis using ok h1 h2 h3 e pos by simp
    next
      case (Some e)
      then have "st' = set_primary st s2" "\<not> written" "err = Some e"
        using w False 1 2 by (simp_all add: writeExpiring_def ttl_seconds_def Let_def)
      with ok h1 h2 show ?thesis by (auto split: option.splits)
    qed
  qed
  then show "store_ok st'" "same_but_primary st st'"
    "stored st' = stored st \<or> stored st' = put_field key field v (stored st)"
    "written \<Longrightarrow> stored st' = put_field key field v (stored st)
      \<and> field_ttl (primary_conn st') key field = Some ?ttl \<and> 0 < ?ttl"
    "written \<Longrightarrow> err = None \<Longrightarrow> key_ttl (primary_conn st') key = None"
    "\<not> written \<Longrightarrow> err = None \<Longrightarrow> st' = st \<and> ?ttl \<le> 0"
    by blast+
qed

end

section \<open>The rollup of an hour, stored\<close>

lemma wf_dec_field_map: "dec_field [] (dec_map f) kvs k = Some m \<Longrightarrow> wf_map m"
proof -
  have "dec_map f j = Some m \<Longrightarrow> wf_map m" for j
    by (cases j) (auto simp: wf_put_all)
  moreover assume "dec_field [] (dec_map f) kvs k = Some m"
  ultimately show ?thesis
    by (auto simp: dec_field_def or_null_def split: option.splits if_splits)
qed

lemma wf_unmarshal_aggregate:
  assumes "unmarshal_aggregate j = Some r"
  shows "wf_map (ag_per_location r)"
proof (cases j)
  case (JObj o1)
  with assms obtain pl where
    "dec_field [] (dec_map (or_null zero_lr unmarshal_location)) o1 ''perLocation'' = Some pl"
    "ag_per_location r = pl"
    by (auto simp: bind_eq_Some_conv)
  with wf_dec_field_map show ?thesis by blast
qed (use assms in \<open>auto simp: zero_ag_def\<close>)

lemma wf_stored_or_zero: "wf_map (ag_per_location (stored_or_zero p))"
proof (cases p)
  case (Some d)
  show ?thesis
  proof (cases d)
    case (Doc j)
    with Some wf_unmarshal_aggregate [of j] show ?thesis
      by (auto simp: stored_or_zero_def split: option.splits)
  qed (simp add: Some stored_or_zero_def)
qed (simp add: stored_or_zero_def)

lemma wf_aggregate_scan:
  "wf_map pl \<Longrightarrow> wf_map (fst (aggregate_scan vc st dash svc hr locs (pl, failed)))"
  by (induction locs arbitrary: pl failed) (auto split: sum.splits)

lemma wf_computeAggregate: "wf_map (ag_per_location (fst (computeAggregate vc st dash svc hr)))"
proof -
  obtain pl failed where s: "aggregate_scan vc st dash svc hr (LocationNames st) ([], []) = (pl, failed)"
    by fastforce
  with wf_aggregate_scan [of "[]" vc st dash svc hr "LocationNames st" "[]"] have "wf_map pl" by simp
  with s show ?thesis by (simp add: computeAggregate_def aggregate_fields)
qed

lemma ag_ok_in_progress [simp]: "ag_ok (r\<lparr>ag_in_progress := b\<rparr>) = ag_ok r"
  by (simp add: ag_ok_def)

lemma stored_marshalled:
  "ag_ok r \<Longrightarrow> stored_or_zero (Some (Doc (marshal_aggregate r))) =
     r\<lparr>ag_per_location := sort_map (ag_per_location r)\<rparr>"
  by (simp add: stored_or_zero_def unmarshal_marshal_aggregate)

lemma get_or_sort_map: "wf_map m \<Longrightarrow> get_or z (sort_map m) k = get_or z m k"
  by (rule get_or_cong) (rule map_of_sort_map)

text \<open>The number of checks a stored hour holds for a location.\<close>

definition stored_total :: "payload option \<Rightarrow> string \<Rightarrow> int" where
  "stored_total p loc = lr_total (get_or zero_lr (ag_per_location (stored_or_zero p)) loc)"

lemma merged_total_ge:
  assumes "wf_map (ag_per_location fresh)" "wf_map (ag_per_location old)"
    and nn: "0 \<le> lr_total (get_or zero_lr (ag_per_location fresh) loc)"
  shows "lr_total (get_or zero_lr (ag_per_location old) loc)
    \<le> lr_total (get_or zero_lr (ag_per_location (mergeStored fresh old)) loc)"
  unfolding mergeStored_per_location(1) [OF assms(1)] merge_locations_total [OF assms(2)]
  using nn by (auto simp: get_or_def split: option.splits)

text \<open>The counts of a freshly computed location.\<close>

definition counts_ok :: "location_rollup \<Rightarrow> bool" where
  "counts_ok lr \<longleftrightarrow> 0 \<le> lr_success lr \<and> 0 \<le> lr_failure lr \<and> lr_total lr = lr_success lr + lr_failure lr"

lemma ComputeLocationRollup_counts:
  "ComputeLocationRollup vc st loc dash svc hr = Inr lr \<Longrightarrow>
    counts_ok lr"
  by (auto simp: counts_ok_def ComputeLocationRollup_def location_rollup_of_bounds split: option.splits sum.splits)

lemma aggregate_scan_all:
  assumes "\<And>loc lr. ComputeLocationRollup vc st loc dash svc hr = Inr lr \<Longrightarrow> P lr"
    and "\<forall>(l, lr) \<in> set pl. P lr"
  shows "\<forall>(l, lr) \<in> set (fst (aggregate_scan vc st dash svc hr locs (pl, failed))). P lr"
  using assms(2)
proof (induction locs arbitrary: pl failed)
  case (Cons loc locs)
  have "\<forall>(l, lr) \<in> set (map_put loc lr' pl). P lr" if "P lr'" for lr'
    using Cons.prems that set_map_put [of loc lr' pl] by blast
  note put = this
  show ?case
  proof (cases "ComputeLocationRollup vc st loc dash svc hr")
    case (Inl e)
    with Cons show ?thesis by simp
  next
    case (Inr lr)
    with Cons.IH [OF put [OF assms(1)]] Cons.IH [OF Cons.prems] show ?thesis by simp
  qed
qed simp

lemma computeAggregate_per_location:
  "ag_per_location (fst (computeAggregate vc st dash svc hr)) =
    fst (aggregate_scan vc st dash svc hr (LocationNames st) ([], []))"
  using wf_aggregate_scan [of "[]" vc st dash svc hr "LocationNames st" "[]"]
  by (auto simp: computeAggregate_def aggregate_fields split: prod.splits)

lemma computeAggregate_counts:
  assumes "(l, lr) \<in> set (ag_per_location (fst (computeAggregate vc st dash svc hr)))"
  shows "counts_ok lr"
proof -
  have "\<forall>(l, lr) \<in> set (fst (aggregate_scan vc st dash svc hr (LocationNames st) ([], []))). counts_ok lr"
    by (rule aggregate_scan_all) (auto intro: ComputeLocationRollup_counts)
  with assms show ?thesis by (auto simp: computeAggregate_per_location)
qed

context valkey_laws
begin

abbreviation old_hour :: "'s store \<Rightarrow> string \<Rightarrow> string \<Rightarrow> time \<Rightarrow> payload option" where
  "old_hour st dash svc hr \<equiv> stored st (RollupAggregateHour dash svc) (hour_field hr)"

definition merged_hour :: "'s store \<Rightarrow> string \<Rightarrow> string \<Rightarrow> time \<Rightarrow> aggregate_rollup" where
  "merged_hour st dash svc hr = mergeStored (fst (computeAggregate vc st dash svc hr))
     (stored_or_zero (old_hour st dash svc hr))"

lemma hour_decision_cases:
  "hour_decision_of old r ip mark = DeleteHour \<Longrightarrow> ag_per_location r = [] \<and> is_placeholder old"
  "hour_decision_of old r ip mark = StoreHour r' \<Longrightarrow> r' = r\<lparr>ag_in_progress := ip\<rparr>"
  by (auto simp: hour_decision_of_def split: if_splits)

lemma RollupHour_laws:
  assumes r: "RollupHour vc st dash svc hr now mark = (st', res, err)" and ok: "store_ok st"
  defines "key \<equiv> RollupAggregateHour dash svc" and "field \<equiv> hour_field hr"
    and "new \<equiv> (merged_hour st dash svc hr)\<lparr>ag_in_progress := now < hr + hour\<rparr>"
  shows "store_ok st'" "same_but_primary st st'"
    and "stored st' = stored st
      \<or> stored st' = put_field key field (Doc (marshal_aggregate new)) (stored st)
      \<or> (is_placeholder (stored_or_zero (old_hour st dash svc hr))
         \<and> stored st' = (stored st)(key := (stored st key)(field := None)))"
    and "hr_written res \<Longrightarrow>
      stored st' = put_field key field (Doc (marshal_aggregate new)) (stored st)
      \<and> field_ttl (primary_conn st') key field = Some (ttl_seconds (hr + retention_duration st) now)
      \<and> (err = None \<longrightarrow> key_ttl (primary_conn st') key = None)"
proof -
  have "store_ok st' \<and> same_but_primary st st'
    \<and> (stored st' = stored st
      \<or> stored st' = put_field key field (Doc (marshal_aggregate new)) (stored st)
      \<or> (is_placeholder (stored_or_zero (old_hour st dash svc hr))
         \<and> stored st' = (stored st)(key := (stored st key)(field := None))))
    \<and> (hr_written res \<longrightarrow>
      stored st' = put_field key field (Doc (marshal_aggregate new)) (stored st)
      \<and> field_ttl (primary_conn st') key field = Some (ttl_seconds (hr + retention_duration st) now)
      \<and> (err = None \<longrightarrow> key_ttl (primary_conn st') key = None))"
  proof (cases "hr + retention_duration st \<le> now")
    case True
    with r ok show ?thesis by (auto simp: RollupHour_def zero_hour_rollup_def)
  next
    case live: False
    obtain agg failed where a: "computeAggregate vc st dash svc hr = (agg, failed)" by fastforce
    show ?thesis
    proof (cases "vc_hget vc (primary_conn st) key field")
      case (Inl e)
      with r ok live a show ?thesis
        by (auto simp: RollupHour_def Let_def key_def field_def)
    next
      case (Inr p)
      then have p: "p = old_hour st dash svc hr" unfolding key_def field_def by (rule hget)
      have m: "merged_hour st dash svc hr = mergeStored agg (stored_or_zero p)"
        by (simp add: merged_hour_def a p)
      show ?thesis
      proof (cases "hour_decision_of (stored_or_zero p) (mergeStored agg (stored_or_zero p)) (now < hr + hour) mark")
        case DeleteHour
        obtain s1 e where d: "vc_hdel vc (primary_conn st) key field = (s1, e)" by fastforce
        then have "hash s1 = stored st \<or> hash s1 = (stored st)(key := (stored st key)(field := None))"
          using hdel hdel_err by (cases e) auto
        moreover have "st' = set_primary st s1" "\<not> hr_written res"
          using r live a Inr DeleteHour d by (auto simp: RollupHour_def Let_def key_def field_def)
        ultimately show ?thesis using ok hour_decision_cases(1) [OF DeleteHour] p by auto
      next
        case KeepHour
        with r ok live a Inr show ?thesis
          by (auto simp: RollupHour_def Let_def key_def field_def)
      next
        case (StoreHour r')
        have r': "r' = new" using hour_decision_cases(2) [OF StoreHour] by (simp add: new_def m)
        obtain st1 w e where w: "writeExpiring vc st key field (Doc (marshal_aggregate new))
            (hr + retention_duration st) now = (st1, w, e)" using prod_cases3 by blast
        then have "st' = st1" "hr_written res = w" "err = e"
          using r live a Inr StoreHour by (auto simp: RollupHour_def Let_def key_def field_def r')
        with writeExpiring_laws [OF w ok] show ?thesis by blast
      qed
    qed
  qed
  then show "store_ok st'" "same_but_primary st st'"
    "stored st' = stored st
      \<or> stored st' = put_field key field (Doc (marshal_aggregate new)) (stored st)
      \<or> (is_placeholder (stored_or_zero (old_hour st dash svc hr))
         \<and> stored st' = (stored st)(key := (stored st key)(field := None)))"
    "hr_written res \<Longrightarrow>
      stored st' = put_field key field (Doc (marshal_aggregate new)) (stored st)
      \<and> field_ttl (primary_conn st') key field = Some (ttl_seconds (hr + retention_duration st) now)
      \<and> (err = None \<longrightarrow> key_ttl (primary_conn st') key = None)"
    by blast+
qed

lemma merged_hour_wf: "wf_map (ag_per_location (merged_hour st dash svc hr))"
  unfolding merged_hour_def mergeStored_per_location(1) [OF wf_computeAggregate]
  by (rule wf_merge_locations [OF wf_computeAggregate])

lemma merged_hour_total:
  "stored_total (old_hour st dash svc hr) loc
    \<le> lr_total (get_or zero_lr (ag_per_location (merged_hour st dash svc hr)) loc)"
  unfolding stored_total_def merged_hour_def
proof (rule merged_total_ge [OF wf_computeAggregate wf_stored_or_zero])
  show "0 \<le> lr_total (get_or zero_lr (ag_per_location (fst (computeAggregate vc st dash svc hr))) loc)"
    by (auto simp: get_or_def counts_ok_def dest!: map_of_SomeD computeAggregate_counts split: option.splits)
qed

text \<open>No location's stored count of checks ever goes down.\<close>

lemma RollupHour_keeps:
  assumes r: "RollupHour vc st dash svc hr now mark = (st', res, err)" and ok: "store_ok st"
    and ag: "ag_ok (merged_hour st dash svc hr)"
  shows "stored_total (old_hour st dash svc hr) loc \<le> stored_total (old_hour st' dash svc hr) loc"
proof -
  let ?new = "(merged_hour st dash svc hr)\<lparr>ag_in_progress := now < hr + hour\<rparr>"
  have "stored_total (Some (Doc (marshal_aggregate ?new))) loc =
      lr_total (get_or zero_lr (ag_per_location (merged_hour st dash svc hr)) loc)"
    using ag merged_hour_wf [of st dash svc hr] stored_marshalled [of ?new]
    by (simp add: stored_total_def get_or_sort_map)
  then have "stored_total (old_hour st dash svc hr) loc
      \<le> stored_total (Some (Doc (marshal_aggregate ?new))) loc"
    using merged_hour_total by simp
  moreover have "stored_total (old_hour st dash svc hr) loc = 0"
    if "is_placeholder (stored_or_zero (old_hour st dash svc hr))"
    using that by (simp add: stored_total_def is_placeholder_def get_or_def)
  moreover have "stored_total None loc = 0" by (simp add: stored_total_def stored_or_zero_def get_or_def)
  ultimately show ?thesis
    using RollupHour_laws(3) [OF r ok] by (auto simp: put_field_def)
qed

text \<open>Only the field of the hour changes.\<close>

lemma RollupHour_frame:
  assumes r: "RollupHour vc st dash svc hr now mark = (st', res, err)" and ok: "store_ok st"
    and "(k, f) \<noteq> (RollupAggregateHour dash svc, hour_field hr)"
  shows "stored st' k f = stored st k f"
  using RollupHour_laws(3) [OF r ok] assms(3) by (auto simp: put_field_def)

end

section \<open>Reading the hours back\<close>

text \<open>Fields named as the code names them: a decimal number without sign or padding.\<close>

definition canonical_fields :: "(string \<Rightarrow> payload option) \<Rightarrow> bool" where
  "canonical_fields h \<longleftrightarrow> (\<forall>f. h f \<noteq> None \<longrightarrow> parse_int_ok f = None \<or> (\<exists>n. in_int64 n \<and> f = itoa n))"

lemma read_hour_key:
  "read_hour fr to e = Some (n, r) \<Longrightarrow> parse_int_ok (fst e) = Some n"
  by (auto simp: read_hour_def split: option.splits if_splits)

lemma read_hours_wf:
  assumes "wf_map entries" "canonical_fields (map_of entries)"
  shows "wf_map (List.map_filter (read_hour fr to) entries)"
proof -
  have "wf_map (List.map_filter (read_hour fr to) es)"
    if "wf_map es" "\<forall>(f, p) \<in> set es. parse_int_ok f = None \<or> (\<exists>n. in_int64 n \<and> f = itoa n)" for es
    using that
  proof (induction es)
    case Nil
    then show ?case by (simp add: map_filter_def)
  next
    case (Cons e es)
    show ?case
    proof (cases "read_hour fr to e")
      case None
      with Cons show ?thesis by (simp add: map_filter_Cons)
    next
      case (Some nr)
      then obtain n r where e: "read_hour fr to e = Some (n, r)" by (cases nr) auto
      then have f: "fst e = itoa n" using read_hour_key [OF e] Cons.prems(2) by auto
      have "n \<notin> fst ` set (List.map_filter (read_hour fr to) es)"
      proof
        assume "n \<in> fst ` set (List.map_filter (read_hour fr to) es)"
        then obtain e' r' where e': "e' \<in> set es" "read_hour fr to e' = Some (n, r')"
          by (auto simp: map_filter_def)
        then have "fst e' = itoa n" using read_hour_key [OF e'(2)] Cons.prems(2) by fastforce
        with f e'(1) Cons.prems(1) show False by (metis distinct.simps(2) image_eqI list.simps(9) list.set_map)
      qed
      with Cons e show ?thesis by (simp add: map_filter_Cons)
    qed
  qed
  then show ?thesis using assms by (auto simp: canonical_fields_def)
qed

lemma map_of_read_hours:
  assumes "wf_map entries" "canonical_fields (map_of entries)" "in_int64 n"
  shows "map_of (List.map_filter (read_hour fr to) entries) n =
    (case map_of entries (itoa n) of None \<Rightarrow> None | Some p \<Rightarrow> map_option snd (read_hour fr to (itoa n, p)))"
proof -
  note wf = read_hours_wf [OF assms(1,2), of fr to]
  have in_iff: "(n, r) \<in> set (List.map_filter (read_hour fr to) entries) \<longleftrightarrow>
      (\<exists>p. map_of entries (itoa n) = Some p \<and> read_hour fr to (itoa n, p) = Some (n, r))" for r
  proof
    assume "(n, r) \<in> set (List.map_filter (read_hour fr to) entries)"
    then obtain e where e: "e \<in> set entries" "read_hour fr to e = Some (n, r)"
      by (auto simp: map_filter_def)
    then have "map_of entries (fst e) = Some (snd e)" using assms(1) by simp
    moreover from this have "fst e = itoa n"
      using read_hour_key [OF e(2)] assms(2) by (auto simp: canonical_fields_def)
    ultimately show "\<exists>p. map_of entries (itoa n) = Some p \<and> read_hour fr to (itoa n, p) = Some (n, r)"
      using e(2) by (metis prod.collapse)
  next
    assume "\<exists>p. map_of entries (itoa n) = Some p \<and> read_hour fr to (itoa n, p) = Some (n, r)"
    then obtain p where "(itoa n, p) \<in> set entries" "read_hour fr to (itoa n, p) = Some (n, r)"
      by (auto dest: map_of_SomeD)
    then show "(n, r) \<in> set (List.map_filter (read_hour fr to) entries)"
      by (force simp: map_filter_def)
  qed
  have key: "read_hour fr to (itoa n, p) = Some (m, r) \<Longrightarrow> m = n" for p m r
    using read_hour_key [of fr to "(itoa n, p)" m r] assms(3) by simp
  show ?thesis
  proof (cases "map_of (List.map_filter (read_hour fr to) entries) n")
    case (Some r)
    then obtain p where "map_of entries (itoa n) = Some p" "read_hour fr to (itoa n, p) = Some (n, r)"
      using in_iff [of r] by (auto dest: map_of_SomeD)
    with Some show ?thesis by simp
  next
    case None
    have "map_option snd (read_hour fr to (itoa n, p)) = None" if "map_of entries (itoa n) = Some p" for p
    proof (cases "read_hour fr to (itoa n, p)")
      case (Some mr)
      then obtain r where "read_hour fr to (itoa n, p) = Some (n, r)" using key by (cases mr) auto
      with in_iff [of r] that have "(n, r) \<in> set (List.map_filter (read_hour fr to) entries)" by blast
      with None show ?thesis by (force simp: map_of_eq_None_iff)
    qed simp
    with None show ?thesis by (auto split: option.splits)
  qed
qed

lemma aggregateStatus_sort_map: "aggregateStatus (sort_map pl) = aggregateStatus pl"
  by (rule aggregateStatus_order) (simp add: sort_map_def)

lemma mergeStored_status:
  assumes "wf_map (ag_per_location fresh)"
  shows "ag_status (mergeStored fresh old) = aggregateStatus (ag_per_location (mergeStored fresh old))"
  using aggregate_fields [OF wf_merge_locations [OF assms]] by (simp add: mergeStored_def)

context valkey_laws
begin

lemma GetAggregateRollups_at:
  assumes g: "GetAggregateRollups vc st dash svc fr to = Inr m"
    and c: "canonical_fields (stored st (RollupAggregateHour dash svc))" and n: "in_int64 n"
  shows "map_of m n = (case stored st (RollupAggregateHour dash svc) (itoa n) of
      None \<Rightarrow> None | Some p \<Rightarrow> map_option snd (read_hour fr to (itoa n, p)))"
proof -
  let ?key = "RollupAggregateHour dash svc"
  from g obtain es where es: "vc_hgetall vc (primary_conn st) ?key = Inr es"
    and m: "m = put_all (List.map_filter (read_hour fr to) es) []"
    by (auto simp: GetAggregateRollups_def split: sum.splits)
  have laws: "map_of es = stored st ?key" "wf_map es" using hgetall [OF es] by simp_all
  with c have c': "canonical_fields (map_of es)" by simp
  show ?thesis
    using map_of_read_hours [OF laws(2) c' n, of fr to] map_of_put_all [OF read_hours_wf [OF laws(2) c', of fr to]]
    by (simp add: m laws(1))
qed

text \<open>A written hour reads back as the merged rollup, its locations in order.\<close>

lemma RollupHour_reads_back:
  assumes r: "RollupHour vc st dash svc (of_unix n) now mark = (st', res, err)" and ok: "store_ok st"
    and w: "hr_written res" and ag: "ag_ok (merged_hour st dash svc (of_unix n))" and n: "in_int64 n"
    and g: "GetAggregateRollups vc st' dash svc fr to = Inr m" and "fr \<le> of_unix n" "of_unix n \<le> to"
    and c: "canonical_fields (stored st (RollupAggregateHour dash svc))"
  defines "new \<equiv> (merged_hour st dash svc (of_unix n))\<lparr>ag_in_progress := now < of_unix n + hour\<rparr>"
  shows "map_of m n = Some (new\<lparr>ag_per_location := sort_map (ag_per_location new)\<rparr>)"
proof -
  let ?key = "RollupAggregateHour dash svc"
  have st': "stored st' ?key = (stored st ?key)(itoa n \<mapsto> Doc (marshal_aggregate new))"
    using RollupHour_laws(4) [OF r ok w] by (simp add: put_field_def new_def hour_field_def)
  with c n have c': "canonical_fields (stored st' ?key)"
    by (auto simp: canonical_fields_def)
  have "unmarshal_aggregate (marshal_aggregate new) =
      Some (new\<lparr>ag_per_location := sort_map (ag_per_location new)\<rparr>)"
    using unmarshal_marshal_aggregate [of new] ag by (simp add: new_def)
  moreover have "ag_status new = aggregateStatus (sort_map (ag_per_location new))"
    using mergeStored_status [OF wf_computeAggregate] by (simp add: new_def merged_hour_def aggregateStatus_sort_map)
  ultimately have "read_hour fr to (itoa n, Doc (marshal_aggregate new)) =
      Some (n, new\<lparr>ag_per_location := sort_map (ag_per_location new)\<rparr>)"
    using n assms(7,8) by (simp add: read_hour_def)
  with GetAggregateRollups_at [OF g c' n] st' show ?thesis by simp
qed

end

section \<open>Daily sums\<close>

text \<open>The hours of a map that fall on the day named \<open>d\<close>.\<close>

definition hours_on :: "string \<Rightarrow> (int \<times> 'a) list \<Rightarrow> (int \<times> 'a) list" where
  "hours_on d = filter (\<lambda>(h, _). format_date (of_unix h) = d)"

lemma computeDailyFromHours_on:
  "map_of (computeDailyFromHours hs) d =
    (if hours_on d hs = [] then None
     else Some \<lparr>dr_date = d, dr_success = wrap64 (sum_of ag_success (hours_on d hs)),
       dr_failure = wrap64 (sum_of ag_failure (hours_on d hs)),
       dr_total = wrap64 (sum_of ag_success (hours_on d hs) + sum_of ag_failure (hours_on d hs))\<rparr>)"
proof (induction hs rule: rev_induct)
  case Nil
  show ?case by (simp add: computeDailyFromHours_def hours_on_def)
next
  case (snoc hr hs)
  obtain h r where hr: "hr = (h, r)" by (cases hr)
  have sum: "sum_of f (xs @ [(h, r)]) = sum_of f xs + f r" for f :: "aggregate_rollup \<Rightarrow> int" and xs
    by (induction xs) auto
  have step: "computeDailyFromHours (hs @ [hr]) = add_hour hr (computeDailyFromHours hs)"
    by (simp add: computeDailyFromHours_def)
  show ?case
  proof (cases "format_date (of_unix h) = d")
    case True
    then have on: "hours_on d (hs @ [hr]) = hours_on d hs @ [(h, r)]" by (simp add: hours_on_def hr)
    show ?thesis
      unfolding on step using snoc True
      by (simp add: hr Let_def get_or_def zero_dr_def sum wrap64_add4)
  next
    case False
    then have on: "hours_on d (hs @ [hr]) = hours_on d hs" by (simp add: hours_on_def hr)
    show ?thesis unfolding on step using snoc False by (simp add: hr Let_def)
  qed
qed

lemma read_hour_in_range:
  "read_hour fr to e = Some (n, r) \<Longrightarrow> fr \<le> of_unix n \<and> of_unix n \<le> to"
  by (auto simp: read_hour_def split: option.splits if_splits)

lemma GetAggregateRollups_range:
  assumes "GetAggregateRollups vc st dash svc fr to = Inr m" "(n, r) \<in> set m"
  shows "fr \<le> of_unix n" "of_unix n \<le> to"
proof -
  from assms obtain es where "(n, r) \<in> set (List.map_filter (read_hour fr to) es)"
    using set_put_all by (fastforce simp: GetAggregateRollups_def split: sum.splits)
  then obtain e where "read_hour fr to e = Some (n, r)" by (auto simp: map_filter_def)
  from read_hour_in_range [OF this] show "fr \<le> of_unix n" "of_unix n \<le> to" by simp_all
qed

lemma hours_on_day:
  assumes "GetAggregateRollups vc st dash svc (time_truncate dy day)
      (time_truncate dy day + (24 * hour - second)) = Inr hours"
  shows "hours_on (format_date dy) hours = hours"
proof -
  have "format_date (of_unix n) = format_date dy" if "(n, r) \<in> set hours" for n r
    using GetAggregateRollups_range [OF assms that] day_whole_hours
    by (intro format_date_in_day) linarith+
  then show ?thesis unfolding hours_on_def by (intro filter_True) auto
qed

definition day_sums :: "string \<Rightarrow> (int \<times> aggregate_rollup) list \<Rightarrow> daily_rollup" where
  "day_sums d hs = \<lparr>dr_date = d, dr_success = wrap64 (sum_of ag_success hs),
     dr_failure = wrap64 (sum_of ag_failure hs),
     dr_total = wrap64 (sum_of ag_success hs + sum_of ag_failure hs)\<rparr>"

lemma computeDaily_day_sums:
  "map_of (computeDailyFromHours hs) d =
    (if hours_on d hs = [] then None else Some (day_sums d (hours_on d hs)))"
  by (simp add: computeDailyFromHours_on day_sums_def)

lemma format_date_ascii: "utf8_valid (format_date t)"
proof -
  have d: "list_all (byte_in 0 127) (pad_int w n)" for w n
    using pad_nat_digits [of w "nat n"] pad_nat_digits [of w "nat (- n)"]
    by (auto simp: pad_int_def byte_in_def is_digit_def list_all_iff)
  show ?thesis
    by (rule ascii_valid)
      (simp add: format_date_def d byte_in_def split: prod.splits)
qed

lemma read_day_marshalled:
  assumes "date_range t" "fr \<le> t" "t \<le> to"
  shows "read_day fr to (format_date t, Doc (marshal_daily (day_sums (format_date t) hs))) =
    Some (format_date t, day_sums (format_date t) hs)"
proof -
  have "time_truncate fr day \<le> time_truncate t day" "time_truncate t day \<le> time_truncate to day"
    using assms(2,3) by (simp_all only: time_truncate_day_mono)
  then show ?thesis
    using parse_format_date [OF assms(1)]
    by (simp add: read_day_def day_sums_def unmarshal_marshal_daily wrap64_range format_date_ascii)
qed

lemma UpdateDailyRollup_reads:
  assumes u: "UpdateDailyRollup vc st dash svc dy now = (st', wrote, err)" and "wrote"
  obtains hours where
    "GetAggregateRollups vc st dash svc (time_truncate dy day)
       (time_truncate dy day + (24 * hour - second)) = Inr hours"
    "WriteDailyRollup vc st dash svc (time_truncate dy day)
       (day_sums (format_date dy) hours) now = (st', None)" "err = None"
    "0 < dr_total (day_sums (format_date dy) hours)"
proof -
  obtain hours where g: "GetAggregateRollups vc st dash svc (time_truncate dy day)
       (time_truncate dy day + (24 * hour - second)) = Inr hours"
    using u assms(2) by (cases "GetAggregateRollups vc st dash svc (time_truncate dy day)
       (time_truncate dy day + (24 * hour - second))") (simp_all add: UpdateDailyRollup_def Let_def)
  then have d: "map_of (computeDailyFromHours hours) (format_date dy) =
      (if hours = [] then None else Some (day_sums (format_date dy) hours))"
    by (simp add: computeDaily_day_sums hours_on_day)
  obtain st1 e1 where "WriteDailyRollup vc st dash svc (time_truncate dy day)
      (day_sums (format_date dy) hours) now = (st1, e1)" by fastforce
  with u assms(2) g d that show ?thesis
    by (auto simp: UpdateDailyRollup_def Let_def split: if_splits)
qed

lemma read_day_key: "read_day fr to e = Some kv \<Longrightarrow> fst kv = fst e"
  by (auto simp: read_day_def split: option.splits if_splits)

lemma read_days_map:
  assumes "wf_map es"
  shows "wf_map (List.map_filter (read_day fr to) es)
    \<and> map_of (List.map_filter (read_day fr to) es) d =
      (case map_of es d of None \<Rightarrow> None | Some p \<Rightarrow> map_option snd (read_day fr to (d, p)))"
  using assms
proof (induction es)
  case Nil
  show ?case by (simp add: map_filter_def)
next
  case (Cons e es)
  obtain f p where e: "e = (f, p)" by (cases e)
  have keys: "fst ` set (List.map_filter (read_day fr to) es) \<subseteq> fst ` set es"
    by (auto simp: in_map_filter) (metis fst_conv image_eqI read_day_key)
  have new: "map_of es f = None" "f \<notin> fst ` set es"
    using Cons.prems e by (auto simp: map_of_eq_None_iff)
  show ?case
  proof (cases "read_day fr to e")
    case None
    with Cons new e show ?thesis by (auto simp: map_filter_Cons)
  next
    case (Some kv)
    then have "fst kv = f" by (auto simp: e read_day_def split: option.splits if_splits)
    with Some Cons new keys e show ?thesis by (cases kv) (auto simp: map_filter_Cons)
  qed
qed

context valkey_laws
begin

lemma WriteDailyRollup_laws:
  assumes w: "WriteDailyRollup vc st dash svc dy dr now = (st', None)" and ok: "store_ok st"
    and pos: "0 < ttl_seconds (dy + dailyRetention) now"
  shows "stored st' = put_field (RollupDaily dash svc) (format_date dy) (Doc (marshal_daily dr)) (stored st)"
    and "field_ttl (primary_conn st') (RollupDaily dash svc) (format_date dy) =
      Some (ttl_seconds (dy + dailyRetention) now)"
    and "key_ttl (primary_conn st') (RollupDaily dash svc) = None"
    and "store_ok st'" "same_but_primary st st'"
proof -
  obtain st1 b e where x: "writeExpiring vc st (RollupDaily dash svc) (format_date dy)
      (Doc (marshal_daily dr)) (dy + dailyRetention) now = (st1, b, e)" using prod_cases3 by blast
  with w have st': "st' = st1" "e = None" by (simp_all add: WriteDailyRollup_def)
  note laws = writeExpiring_laws [OF x ok]
  have "b" using laws(6) st'(2) pos by linarith
  with laws st' show "stored st' = put_field (RollupDaily dash svc) (format_date dy)
      (Doc (marshal_daily dr)) (stored st)"
    "field_ttl (primary_conn st') (RollupDaily dash svc) (format_date dy) =
      Some (ttl_seconds (dy + dailyRetention) now)"
    "key_ttl (primary_conn st') (RollupDaily dash svc) = None"
    "store_ok st'" "same_but_primary st st'"
    by blast+
qed

lemma GetDailyRollups_at:
  assumes "GetDailyRollups vc st dash svc fr to = Inr m"
  shows "map_of m d = (case stored st (RollupDaily dash svc) d of
      None \<Rightarrow> None | Some p \<Rightarrow> map_option snd (read_day fr to (d, p)))"
proof -
  from assms obtain es where es: "vc_hgetall vc (primary_conn st) (RollupDaily dash svc) = Inr es"
    and m: "m = put_all (List.map_filter (read_day fr to) es) []"
    by (auto simp: GetDailyRollups_def split: sum.splits)
  have laws: "map_of es = stored st (RollupDaily dash svc)" "wf_map es" using hgetall [OF es] by simp_all
  have "wf_map (List.map_filter (read_day fr to) es)
      \<and> map_of (List.map_filter (read_day fr to) es) d =
        (case map_of es d of None \<Rightarrow> None | Some p \<Rightarrow> map_option snd (read_day fr to (d, p)))"
    using laws(2) by (rule read_days_map)
  with laws(1) show ?thesis by (simp add: m map_of_put_all)
qed

text \<open>The day written from the stored hours reads back with their sums.\<close>

lemma UpdateDailyRollup_reads_back:
  assumes u: "UpdateDailyRollup vc st dash svc dy now = (st', True, err)" and ok: "store_ok st"
    and live: "0 < ttl_seconds (time_truncate dy day + dailyRetention) now"
    and "date_range dy" "fr \<le> time_truncate dy day" "time_truncate dy day \<le> to"
    and m: "GetDailyRollups vc st' dash svc fr to = Inr m"
  shows "\<exists>hours. GetAggregateRollups vc st dash svc (time_truncate dy day)
       (time_truncate dy day + (24 * hour - second)) = Inr hours
    \<and> map_of m (format_date dy) = Some (day_sums (format_date dy) hours)"
proof -
  from UpdateDailyRollup_reads [OF u] obtain hours where
    g: "GetAggregateRollups vc st dash svc (time_truncate dy day)
       (time_truncate dy day + (24 * hour - second)) = Inr hours"
    and w: "WriteDailyRollup vc st dash svc (time_truncate dy day)
       (day_sums (format_date dy) hours) now = (st', None)" by auto
  have "stored st' (RollupDaily dash svc) (format_date dy) =
      Some (Doc (marshal_daily (day_sums (format_date dy) hours)))"
    using WriteDailyRollup_laws(1) [OF w ok live] by (simp add: put_field_def)
  moreover have "date_range (time_truncate dy day)"
    using assms(4) by (simp add: date_range_truncate)
  ultimately have "map_of m (format_date dy) = Some (day_sums (format_date dy) hours)"
    using read_day_marshalled [of "time_truncate dy day" fr to hours] assms(5,6)
    by (simp add: GetDailyRollups_at [OF m])
  with g show ?thesis by blast
qed

end

section \<open>The days of a history\<close>

definition day_count_of_hours :: "(int \<times> aggregate_rollup) list \<Rightarrow> day_count" where
  "day_count_of_hours hs = \<lparr>dc_success = wrap64 (sum_of ag_success hs),
     dc_total = wrap64 (sum_of (\<lambda>r. ag_success r + ag_failure r) hs)\<rparr>"

definition day_count_of_day :: "daily_rollup \<Rightarrow> day_count" where
  "day_count_of_day dr = \<lparr>dc_success = dr_success dr, dc_total = wrap64 (dr_success dr + dr_failure dr)\<rparr>"

lemma count_hours_on:
  "map_of (fold count_hour hs []) d =
    (if hours_on d hs = [] then None else Some (day_count_of_hours (hours_on d hs)))"
proof (induction hs rule: rev_induct)
  case Nil
  show ?case by (simp add: hours_on_def)
next
  case (snoc hr hs)
  obtain h r where hr: "hr = (h, r)" by (cases hr)
  show ?case
  proof (cases "format_date (of_unix h) = d")
    case True
    then have on: "hours_on d (hs @ [hr]) = hours_on d hs @ [(h, r)]" by (simp add: hours_on_def hr)
    have c: "get_or zero_dc (fold count_hour hs []) d = day_count_of_hours (hours_on d hs)"
      using snoc by (simp add: get_or_def zero_dc_def day_count_of_hours_def)
    show ?thesis
      unfolding on using c True
      by (simp add: hr Let_def day_count_of_hours_def)
  next
    case False
    then have "hours_on d (hs @ [hr]) = hours_on d hs" by (simp add: hours_on_def hr)
    with snoc False show ?thesis by (simp add: hr Let_def)
  qed
qed

lemma count_days_at:
  assumes "wf_map ds"
  shows "map_of (fold (count_day today) ds out) d =
    (case map_of ds d of Some dr \<Rightarrow> if d < today then Some (day_count_of_day dr) else map_of out d
     | None \<Rightarrow> map_of out d)"
  using assms
proof (induction ds arbitrary: out)
  case (Cons e ds)
  obtain k dr where e: "e = (k, dr)" by (cases e)
  have k: "map_of ds k = None" using Cons.prems e by (auto simp: map_of_eq_None_iff)
  show ?case
    using Cons.IH [of "count_day today e out"] Cons.prems k
    by (auto simp: e day_count_of_day_def split: option.splits)
qed simp

text \<open>A finished day counts from its daily rollup, every other day from its hours.\<close>

lemma ByDay_at:
  assumes "wf_map (hi_days h)"
  shows "map_of (ByDay h now) d =
    (case map_of (hi_days h) d of
       Some dr \<Rightarrow> if d < format_date now then Some (day_count_of_day dr)
                  else if hours_on d (hi_hours h) = [] then None
                  else Some (day_count_of_hours (hours_on d (hi_hours h)))
     | None \<Rightarrow> if hours_on d (hi_hours h) = [] then None
               else Some (day_count_of_hours (hours_on d (hi_hours h))))"
  using count_days_at [OF assms, of "format_date now" "fold count_hour (hi_hours h) []" d]
  by (simp add: ByDay_def count_hours_on split: option.split)

text \<open>The number of checks a history counts for a day.\<close>

definition counted_on :: "history \<Rightarrow> time \<Rightarrow> string \<Rightarrow> day_count" where
  "counted_on h now d =
     (case map_of (hi_days h) d of
        Some dr \<Rightarrow> if d < format_date now then day_count_of_day dr
                   else day_count_of_hours (hours_on d (hi_hours h))
      | None \<Rightarrow> day_count_of_hours (hours_on d (hi_hours h)))"

lemma day_count_of_hours_nil [simp]: "day_count_of_hours [] = zero_dc"
  by (simp add: day_count_of_hours_def zero_dc_def)

lemma ByDay_get: "wf_map (hi_days h) \<Longrightarrow> get_or zero_dc (ByDay h now) d = counted_on h now d"
  by (simp add: get_or_def ByDay_at counted_on_def split: option.split)

definition uptime_days :: "time \<Rightarrow> nat \<Rightarrow> string list" where
  "uptime_days now n = map (\<lambda>d. format_date (add_days (time_truncate now day) (- int d))) [0..<n]"

lemma uptime_from_sums:
  "uptime_from byDay today d n (s, t) =
    (if n = 0 then (s, t) else
     (wrap64 (s + sum_list (map (\<lambda>i. dc_success (get_or zero_dc byDay (format_date (add_days today (- int i))))) [d..<d + n])),
      wrap64 (t + sum_list (map (\<lambda>i. dc_total (get_or zero_dc byDay (format_date (add_days today (- int i))))) [d..<d + n]))))"
proof (induction n arbitrary: d s t)
  case (Suc n)
  have u: "[d..<d + Suc n] = d # [Suc d..<Suc d + n]" by (simp add: upt_rec [of d])
  show ?case
    unfolding uptime_from.simps Let_def Suc.IH u
    by (cases "n = 0") (simp, simp only: list.map sum_list.Cons wrap64_add_left add.assoc if_False nat.simps)
qed simp

lemma Uptime_sums:
  assumes "wf_map (hi_days h)"
  shows "Uptime h n now =
    (wrap64 (sum_list (map (\<lambda>d. dc_success (counted_on h now d)) (uptime_days now (nat n)))),
     wrap64 (sum_list (map (\<lambda>d. dc_total (counted_on h now d)) (uptime_days now (nat n)))))"
  by (simp add: Uptime_def uptime_from_sums ByDay_get [OF assms] uptime_days_def comp_def)

section \<open>Percentages\<close>

text \<open>The percentage in hundredths, as \<^verbatim>\<open>FormatPercent\<close> computes it.\<close>

definition basis_points :: "int \<Rightarrow> int \<Rightarrow> int" where
  "basis_points success tot = success * 10000 div tot"

text \<open>How \<open>bp\<close> hundredths of a percent are written: no trailing zeros, no bare point.\<close>

definition percent_text :: "int \<Rightarrow> string" where
  "percent_text bp = itoa (bp div 100) @
     (if bp mod 100 = 0 then [] else CHR ''.'' # trim_right (\<lambda>c. c = CHR ''0'') (pad_int 2 (bp mod 100))) @ ''%''"

lemma pad_zero: "(\<forall>c \<in> set (pad_int 2 n). c = CHR ''0'') \<longleftrightarrow> n = 0" if "0 \<le> n"
proof
  assume "\<forall>c \<in> set (pad_int 2 n). c = CHR ''0''"
  then have "digits_val (pad_nat 2 (nat n)) = 0"
    using that by (intro digits_zero) (simp_all add: pad_int_def)
  with that show "n = 0" by simp
next
  assume "n = 0"
  then show "\<forall>c \<in> set (pad_int 2 n). c = CHR ''0''"
    by (simp add: pad_int_def pad_nat_def nat_text.simps digit_char_simps)
qed

lemma last_itoa: "0 \<le> n \<Longrightarrow> last (itoa n) \<noteq> CHR ''.''"
proof -
  assume "0 \<le> n"
  then have "is_digit (last (itoa n))"
    using itoa_digits [of n] last_in_set [OF itoa_ne [of n]] by (simp add: list_all_iff)
  then show ?thesis by (auto simp: is_digit_def)
qed

lemma FormatPercent_text:
  assumes "0 \<le> success" "success < tot" "success * 10000 \<le> max_int64"
  shows "FormatPercent success tot = percent_text (basis_points success tot)"
    and "0 \<le> basis_points success tot" "basis_points success tot < 10000"
proof -
  let ?bp = "basis_points success tot"
  have t: "0 < tot" using assms by simp
  show 0: "0 \<le> ?bp" using assms t by (simp add: basis_points_def pos_imp_zdiv_nonneg_iff)
  have "success * 10000 < 10000 * tot" using assms by simp
  moreover have "?bp * tot + success * 10000 mod tot = success * 10000"
    by (simp only: basis_points_def div_mult_mod_eq)
  moreover have "0 \<le> success * 10000 mod tot" using t by simp
  ultimately have "?bp * tot < 10000 * tot" by linarith
  then show "?bp < 10000" using t by (simp only: mult_less_cancel_right_pos)
  have "in_int64 (success * 10000)"
    using assms by (simp add: in_int64_def min_int64_def)
  then have bp: "go_div (wrap64 (success * 10000)) tot = ?bp"
    using assms t by (simp add: go_div_nonneg basis_points_def)
  have dm: "go_div ?bp 100 = ?bp div 100" "go_mod ?bp 100 = ?bp mod 100"
    using 0 by (simp_all add: go_div_nonneg go_mod_nonneg)
  let ?z = "\<lambda>c. c = CHR ''0''" and ?d = "\<lambda>c. c = CHR ''.''"
  let ?frac = "pad_int 2 (?bp mod 100)"
  have q0: "0 \<le> ?bp div 100" using 0 by (simp add: pos_imp_zdiv_nonneg_iff)
  have "trim_right ?d (trim_right ?z (itoa (?bp div 100) @ ''.'' @ ?frac)) @ ''%'' = percent_text ?bp"
  proof (cases "?bp mod 100 = 0")
    case True
    then have "trim_right ?z ?frac = []" by (simp add: trim_right_nil pad_zero)
    then have "trim_right ?z (itoa (?bp div 100) @ ''.'' @ ?frac) = itoa (?bp div 100) @ ''.''"
      by (simp only: trim_right_append) (simp add: trim_right_def)
    moreover have "trim_right ?d (itoa (?bp div 100) @ ''.'') = itoa (?bp div 100)"
      using trim_right_keep [of "itoa (?bp div 100)" ?d] last_itoa [OF q0]
      by (simp only: trim_right_append) (simp add: trim_right_def)
    ultimately show ?thesis using True by (simp add: percent_text_def)
  next
    case False
    have ne: "trim_right ?z ?frac \<noteq> []"
      using False by (simp add: trim_right_nil pad_zero)
    then have 1: "trim_right ?z (itoa (?bp div 100) @ ''.'' @ ?frac) =
        itoa (?bp div 100) @ ''.'' @ trim_right ?z ?frac"
      using trim_right_append [of ?z "itoa (?bp div 100) @ ''.''" ?frac] by simp
    have "CHR ''.'' \<notin> set ?frac"
      using pad_nat_digits [of 2 "nat (?bp mod 100)"]
      by (auto simp: pad_int_def is_digit_def list_all_iff)
    with last_in_set [OF ne] trim_right_subset [of ?z ?frac]
    have "last (trim_right ?z ?frac) \<noteq> CHR ''.''" by (metis subsetD)
    then have "trim_right ?d (itoa (?bp div 100) @ ''.'' @ trim_right ?z ?frac) =
        itoa (?bp div 100) @ ''.'' @ trim_right ?z ?frac"
      by (intro trim_right_keep) (simp add: ne)
    with 1 False show ?thesis by (simp add: percent_text_def)
  qed
  then show "FormatPercent success tot = percent_text ?bp"
    using assms t by (simp add: FormatPercent_def Let_def bp dm)
qed

lemma percent_text_not_100:
  assumes "0 \<le> bp" "bp < 10000"
  shows "percent_text bp \<noteq> ''100%''"
proof
  assume eq: "percent_text bp = ''100%''"
  have m: "bp mod 100 = 0"
  proof (rule ccontr)
    assume "bp mod 100 \<noteq> 0"
    then have "CHR ''.'' \<in> set (percent_text bp)" by (simp add: percent_text_def)
    then show False unfolding eq by simp
  qed
  then have "itoa (bp div 100) @ ''%'' = ''100'' @ ''%''" using eq by (simp add: percent_text_def)
  then have "itoa (bp div 100) = ''100''" by simp
  moreover have "itoa 100 = ''100''" by (simp add: itoa_def nat_text.simps digit_char_simps)
  ultimately have "bp div 100 = 100" by (metis itoa_inj)
  with assms m mult_div_mod_eq [of 100 bp] show False by simp
qed

end
