(* ===== verification/Store_Examples.thy ===== *)
theory Store_Examples
  imports Store_Storage
begin

text \<open>A concrete store on the in-memory server, for the witnesses of the properties.\<close>

text \<open>A server with the samples of one hour, and a store of one or two locations.\<close>

definition example_conn :: "(string, payload) gomap \<Rightarrow> (string, payload) gomap \<Rightarrow> vt_server" where
  "example_conn statuses details =
     \<lparr>vt_hashes = [(StatusHour ''d'' ''s'' 7200, statuses), (DetailHour ''d'' ''s'' 7200, details)],
       vt_sets = [], vt_key_ttl = [], vt_field_ttl = [], vt_failures = []\<rparr>"

definition example_store :: "vt_server store" where
  "example_store = \<lparr>st_locations = [(''eu'', example_conn example_statuses example_details)],
     st_primary = ''eu'', st_retention = 86400, st_retention_days = 1\<rparr>"

definition example_rolled :: "vt_server store" where
  "example_rolled = fst (RollupHour vt_client example_store ''d'' ''s'' (of_unix 7200) (of_unix 7300) False)"

lemma example_store_ok: "store_ok example_store"
  by (simp add: store_ok_def example_store_def)

lemma example_ag_ok: "ag_ok (vt.merged_hour example_store ''d'' ''s'' (of_unix 7200))"
  unfolding vt.merged_hour_def by code_simp

end
