(* ===== verification/Store_Properties.thy ===== *)
theory Store_Properties
  imports Store_Examples
begin

text \<open>
  What the store promises about its hourly and daily rollups, stated over the in-memory server:
  each property instantiates the laws of \<open>valkey_laws\<close> and has a witness on a concrete server.
\<close>

section \<open>Properties\<close>

text \<open>
  C1: rolling an hour up again, whatever locations answer and whatever call fails on the way,
  never lowers the count of checks stored for any location, and leaves every other field of the
  primary and every other location alone.
\<close>

theorem RollupHour_never_loses:
  assumes "store_ok st" "ag_ok (vt.merged_hour st dash svc hr)"
    and "RollupHour vt_client st dash svc hr now mark = (st', res, err)"
  shows "stored_total (vt_fields (primary_conn st) (RollupAggregateHour dash svc) (hour_field hr)) loc
      \<le> stored_total (vt_fields (primary_conn st') (RollupAggregateHour dash svc) (hour_field hr)) loc
    \<and> ((k, f) \<noteq> (RollupAggregateHour dash svc, hour_field hr)
        \<longrightarrow> vt_fields (primary_conn st') k f = vt_fields (primary_conn st) k f)
    \<and> (l \<noteq> st_primary st \<longrightarrow> map_of (st_locations st') l = map_of (st_locations st) l)"
  using vt.RollupHour_keeps [OF assms(3,1,2)] vt.RollupHour_frame [OF assms(3,1)]
    vt.RollupHour_laws(2) [OF assms(3,1)]
  by (auto simp: same_but_primary_def)

theorem RollupHour_never_loses_witness:
  "stored_total (vt_fields (primary_conn example_store) (RollupAggregateHour ''d'' ''s'') (hour_field (of_unix 7200))) ''eu''
     \<le> stored_total (vt_fields (primary_conn example_rolled) (RollupAggregateHour ''d'' ''s'') (hour_field (of_unix 7200))) ''eu''"
  using RollupHour_never_loses [OF example_store_ok example_ag_ok prod_cases3_eq]
  by (simp add: example_rolled_def)

text \<open>
  C2: an hour that was written reads back as the merge of the fresh samples and the stored
  rollup, with its locations in order of name, over any range that holds the hour.
\<close>

theorem RollupHour_round_trip:
  assumes "store_ok st" "ag_ok (vt.merged_hour st dash svc (of_unix n))" "in_int64 n"
    and "canonical_fields (vt_fields (primary_conn st) (RollupAggregateHour dash svc))"
    and "RollupHour vt_client st dash svc (of_unix n) now mark = (st', res, err)" "hr_written res"
    and "GetAggregateRollups vt_client st' dash svc fr to = Inr m" "fr \<le> of_unix n" "of_unix n \<le> to"
  shows "map_of m n = Some (mergeStored (fst (computeAggregate vt_client st dash svc (of_unix n)))
       (stored_or_zero (vt_fields (primary_conn st) (RollupAggregateHour dash svc) (hour_field (of_unix n))))
     \<lparr>ag_in_progress := now < of_unix n + hour,
      ag_per_location := sort_map (ag_per_location (mergeStored
        (fst (computeAggregate vt_client st dash svc (of_unix n)))
        (stored_or_zero (vt_fields (primary_conn st) (RollupAggregateHour dash svc) (hour_field (of_unix n))))))\<rparr>)"
  using vt.RollupHour_reads_back [OF assms(5,1,6,2,3,7,8,9,4)]
  by (simp add: vt.merged_hour_def)

theorem RollupHour_round_trip_witness:
  "\<exists>m r. GetAggregateRollups vt_client example_rolled ''d'' ''s'' 0 (of_unix 9000) = Inr m
     \<and> map_of m 7200 = Some r \<and> ag_in_progress r"
proof -
  obtain st' res err where r: "RollupHour vt_client example_store ''d'' ''s'' (of_unix 7200) (of_unix 7300) False
      = (st', res, err)" by (rule prod_cases3)
  have "hr_written (fst (snd (RollupHour vt_client example_store ''d'' ''s'' (of_unix 7200) (of_unix 7300) False)))"
    by code_simp
  with r have w: "hr_written res" by simp
  have st': "st' = example_rolled" using r by (simp add: example_rolled_def)
  have "\<not> isl (GetAggregateRollups vt_client example_rolled ''d'' ''s'' 0 (of_unix 9000))" by code_simp
  then obtain m where m: "GetAggregateRollups vt_client example_rolled ''d'' ''s'' 0 (of_unix 9000) = Inr m"
    by (auto simp: isl_def) (metis sum.exhaust)
  have c: "canonical_fields (vt_fields (primary_conn example_store) (RollupAggregateHour ''d'' ''s''))"
    by (simp add: canonical_fields_def vt_fields_def vt_hash_def get_or_def primary_conn_def
        example_store_def example_conn_def RollupAggregateHour_def StatusHour_def DetailHour_def)
  have n: "in_int64 7200" "0 \<le> of_unix 7200" "of_unix 7200 \<le> of_unix 9000" "of_unix 7300 < of_unix 7200 + hour"
    by (simp_all add: in_int64_def max_int64_def min_int64_def of_unix_def time_units)
  have "\<exists>r. map_of m 7200 = Some r \<and> ag_in_progress r"
    using RollupHour_round_trip [OF example_store_ok example_ag_ok n(1) c r w m [folded st'] n(2,3)] n(4)
    by simp
  with m show ?thesis by blast
qed

text \<open>
  C8: a rollup field is stored with a time to live that ends within a second before its expiry,
  and once the whole write succeeds no key-wide time to live is left that would drop every field.
\<close>

theorem writeExpiring_expiry:
  assumes "store_ok st" "now \<le> expiresAt" "expiresAt - now \<le> max_int64"
    and "writeExpiring vt_client st key field v expiresAt now = (st', True, None)"
  shows "\<exists>ttl. vt_field_expiry (primary_conn st') key field = Some ttl
    \<and> vt_fields (primary_conn st') key field = Some v
    \<and> now + ttl * second \<le> expiresAt \<and> expiresAt < now + (ttl + 1) * second
    \<and> vt_key_expiry (primary_conn st') key = None"
  using vt.writeExpiring_laws(4,5) [OF assms(4,1)] ttl_seconds_bounds [OF assms(2,3)]
  by (auto simp: put_field_def)

theorem writeExpiring_expiry_witness:
  "\<exists>ttl. vt_field_expiry (primary_conn (fst (writeExpiring vt_client example_store ''k'' ''f'' (Text ''v'')
     (of_unix 90) (of_unix 30)))) ''k'' ''f'' = Some ttl
     \<and> of_unix 30 + ttl * second \<le> of_unix 90"
proof -
  let ?w = "writeExpiring vt_client example_store ''k'' ''f'' (Text ''v'') (of_unix 90) (of_unix 30)"
  have "snd ?w = (True, None)" by code_simp
  then have "?w = (fst ?w, True, None)" by (metis prod.collapse)
  from writeExpiring_expiry [OF example_store_ok _ _ this] show ?thesis
    by (auto simp: of_unix_def nsec_def max_int64_def)
qed

text \<open>
  C9: the daily rollup written for a day reads back as the sum of the hourly rollups stored for
  that day.
\<close>

theorem UpdateDailyRollup_round_trip:
  assumes "store_ok st" "UpdateDailyRollup vt_client st dash svc dy now = (st', True, err)"
    and "now + second \<le> time_truncate dy day + dailyRetention"
    and "date_range dy" "fr \<le> time_truncate dy day" "time_truncate dy day \<le> to"
    and "GetDailyRollups vt_client st' dash svc fr to = Inr m"
  shows "\<exists>hours. GetAggregateRollups vt_client st dash svc (time_truncate dy day)
       (time_truncate dy day + (24 * hour - second)) = Inr hours
    \<and> map_of m (format_date dy) = Some \<lparr>dr_date = format_date dy,
        dr_success = wrap64 (sum_of ag_success hours), dr_failure = wrap64 (sum_of ag_failure hours),
        dr_total = wrap64 (sum_of ag_success hours + sum_of ag_failure hours)\<rparr>"
  using vt.UpdateDailyRollup_reads_back [OF assms(2,1) _ assms(4-7)] assms(3)
  by (simp add: ttl_seconds_pos day_sums_def)

definition example_daily :: "vt_server store \<times> bool \<times> string option" where
  "example_daily = UpdateDailyRollup vt_client example_rolled ''d'' ''s'' (of_unix 7300) (of_unix 7300)"

theorem UpdateDailyRollup_round_trip_witness:
  "\<exists>m dr. GetDailyRollups vt_client (fst example_daily) ''d'' ''s'' 0 (of_unix 90000) = Inr m
     \<and> map_of m (format_date (of_unix 7300)) = Some dr"
proof -
  have "fst (snd example_daily)" by code_simp
  then have u: "UpdateDailyRollup vt_client example_rolled ''d'' ''s'' (of_unix 7300) (of_unix 7300)
      = (fst example_daily, True, snd (snd example_daily))"
    by (simp add: example_daily_def prod_eq_iff)
  have "\<not> isl (GetDailyRollups vt_client (fst example_daily) ''d'' ''s'' 0 (of_unix 90000))" by code_simp
  then obtain m where m: "GetDailyRollups vt_client (fst example_daily) ''d'' ''s'' 0 (of_unix 90000) = Inr m"
    by (auto simp: isl_def) (metis sum.exhaust)
  have ok: "store_ok example_rolled"
    using vt.RollupHour_laws(1) [OF prod_cases3_eq example_store_ok] by (simp add: example_rolled_def)
  have t: "time_truncate (of_unix 7300) day = 0" "date_range (of_unix 7300)" by code_simp+
  have "\<exists>hours. GetAggregateRollups vt_client example_rolled ''d'' ''s'' (time_truncate (of_unix 7300) day)
       (time_truncate (of_unix 7300) day + (24 * hour - second)) = Inr hours
    \<and> map_of m (format_date (of_unix 7300)) = Some \<lparr>dr_date = format_date (of_unix 7300),
        dr_success = wrap64 (sum_of ag_success hours), dr_failure = wrap64 (sum_of ag_failure hours),
        dr_total = wrap64 (sum_of ag_success hours + sum_of ag_failure hours)\<rparr>"
    by (rule UpdateDailyRollup_round_trip [OF ok u _ t(2) _ _ m])
      (simp_all only: t(1), simp_all add: of_unix_def time_units dailyRetention_def)
  with m show ?thesis by blast
qed

text \<open>
  C10: the uptime over a number of days is the sum of what each of those days counts: a finished
  day by its daily rollup when there is one, any other day by its hours.
\<close>

theorem Uptime_is_sum:
  assumes "wf_map (hi_days h)"
  shows "Uptime h n now =
    (wrap64 (sum_list (map (\<lambda>d. dc_success (counted_on h now d)) (uptime_days now (nat n)))),
     wrap64 (sum_list (map (\<lambda>d. dc_total (counted_on h now d)) (uptime_days now (nat n)))))"
  by (rule Uptime_sums [OF assms])

definition example_history :: history where
  "example_history = \<lparr>hi_hours = [(90000, zero_ag\<lparr>ag_success := 3, ag_failure := 1\<rparr>)],
     hi_days = [(''1970-01-01'', \<lparr>dr_date = ''1970-01-01'', dr_success = 5, dr_failure = 0, dr_total = 5\<rparr>)]\<rparr>"

theorem Uptime_is_sum_witness:
  "fst (Uptime example_history 2 (of_unix 90000)) =
     wrap64 (sum_list (map (\<lambda>d. dc_success (counted_on example_history (of_unix 90000) d))
       (uptime_days (of_unix 90000) 2)))
   \<and> Uptime example_history 2 (of_unix 90000) = (8, 9)"
proof -
  have "wf_map (hi_days example_history)" by (simp add: example_history_def)
  from Uptime_is_sum [OF this, of 2 "of_unix 90000"]
  have "fst (Uptime example_history 2 (of_unix 90000)) =
     wrap64 (sum_list (map (\<lambda>d. dc_success (counted_on example_history (of_unix 90000) d))
       (uptime_days (of_unix 90000) 2)))" by simp
  moreover have "Uptime example_history 2 (of_unix 90000) = (8, 9)" by code_simp
  ultimately show ?thesis by blast
qed

text \<open>
  A percentage is the hundredths of a percent rounded down, written without trailing zeros,
  and it reads 100% exactly when no check failed.
\<close>

theorem FormatPercent_rounds_down:
  assumes "0 \<le> success" "0 < tot" "success * 10000 \<le> max_int64"
  shows "(FormatPercent success tot = ''100%'' \<longleftrightarrow> tot \<le> success)
    \<and> (success < tot \<longrightarrow> FormatPercent success tot = percent_text (success * 10000 div tot))"
proof (cases "success < tot")
  case True
  with FormatPercent_text [OF assms(1) True assms(3)] percent_text_not_100 show ?thesis
    by (simp add: basis_points_def)
qed (use assms in \<open>simp add: FormatPercent_def\<close>)

theorem FormatPercent_rounds_down_witness:
  "FormatPercent 99999 100000 = ''99.99%'' \<and> FormatPercent 99999 100000 \<noteq> ''100%''"
proof -
  have "FormatPercent 99999 100000 = ''99.99%''" by code_simp
  moreover have "FormatPercent 99999 100000 \<noteq> ''100%''"
    using FormatPercent_rounds_down [of 99999 100000, THEN conjunct1] by (simp add: max_int64_def)
  ultimately show ?thesis by (rule conjI)
qed

end
