(* ===== verification/Store_Incidents.thy ===== *)
theory Store_Incidents
  imports Store_Storage "HOL-Library.Product_Lexorder"
begin

text \<open>
  \<^verbatim>\<open>dashboard/internal/store/store.go\<close>, third part: failure incidents. The hourly failure runs of
  a location are stitched back into continuous segments, and segments of one message that overlap
  in time, at whatever location, become one incident. Counts and distances wrap around as 64-bit
  integers do; only the end of a window plus the merge gap is taken without, which is exact for ends more
  than the gap below \<open>2 ^ 63\<close> seconds.
\<close>

record failure_window =
  fw_locations :: "string list"
  fw_message :: string
  fw_start :: int
  fw_end :: int
  fw_count :: int
  fw_ongoing :: bool

record segment =
  sg_loc :: string
  sg_msg :: string
  sg_start :: int
  sg_end :: int
  sg_count :: int
  sg_ongoing :: bool

definition mergeGapSeconds :: int where
  "mergeGapSeconds = 300"

definition StatusMaxAge :: duration where
  "StatusMaxAge = 6 * hour"

section \<open>Stitching the hours of a location\<close>

record stitching =
  sh_segs :: "(string, segment list) gomap"
  sh_open :: "(string, bool) gomap"
  sh_last :: "(string, int) gomap"

definition no_stitching :: stitching where
  "no_stitching = \<lparr>sh_segs = [], sh_open = [], sh_last = []\<rparr>"

definition stitches :: "bool \<Rightarrow> failure_run \<Rightarrow> segment list \<Rightarrow> bool" where
  "stitches isOpen run segs \<longleftrightarrow> isOpen \<and> fr_open_start run \<and> sg_msg (last segs) = fr_message run
     \<and> wrap64 (fr_start run - sg_end (last segs)) \<le> go_div StatusMaxAge second"

definition stitch_run :: "bool \<Rightarrow> string \<Rightarrow> failure_run \<Rightarrow> segment list \<Rightarrow> segment list" where
  "stitch_run isOpen loc run segs =
     (if stitches isOpen run segs
      then butlast segs @ [(last segs)\<lparr>sg_end := fr_end run, sg_count := wrap64 (sg_count (last segs) + fr_count run)\<rparr>]
      else segs @ [\<lparr>sg_loc = loc, sg_msg = fr_message run, sg_start = fr_start run, sg_end = fr_end run,
             sg_count = fr_count run, sg_ongoing = False\<rparr>])"

fun stitch_location :: "int \<Rightarrow> string \<times> location_rollup \<Rightarrow> stitching \<Rightarrow> stitching" where
  "stitch_location h (loc, lr) sh =
     sh\<lparr>sh_segs := map_put loc
           (fold (stitch_run (get_or False (sh_open sh) loc) loc) (lr_runs lr) (get_or [] (sh_segs sh) loc))
           (sh_segs sh),
        sh_open := map_put loc (lr_runs lr \<noteq> [] \<and> fr_open_end (last (lr_runs lr))) (sh_open sh),
        sh_last := map_put loc h (sh_last sh)\<rparr>"

definition stitch_hour :: "(int, aggregate_rollup) gomap \<Rightarrow> int \<Rightarrow> stitching \<Rightarrow> stitching" where
  "stitch_hour rollups h sh = fold (stitch_location h) (ag_per_location (get_or zero_ag rollups h)) sh"

definition stitch_hours :: "(int, aggregate_rollup) gomap \<Rightarrow> stitching" where
  "stitch_hours rollups = fold (stitch_hour rollups) (sort (map fst rollups)) no_stitching"

fun mark_ongoing :: "bool \<Rightarrow> int \<Rightarrow> stitching \<Rightarrow> string \<times> segment list \<Rightarrow> segment list" where
  "mark_ongoing live recent sh (loc, segs) =
     (if live \<and> get_or False (sh_open sh) loc \<and> recent \<le> get_or 0 (sh_last sh) loc
      then butlast segs @ [(last segs)\<lparr>sg_ongoing := True\<rparr>]
      else segs)"

section \<open>Merging the segments\<close>

definition absorb :: "segment \<Rightarrow> failure_window \<times> string set \<Rightarrow> failure_window \<times> string set" where
  "absorb sg w =
     ((fst w)\<lparr>fw_end := (if fw_end (fst w) < sg_end sg then sg_end sg else fw_end (fst w)),
              fw_count := wrap64 (fw_count (fst w) + sg_count sg),
              fw_ongoing := (fw_ongoing (fst w) \<or> sg_ongoing sg)\<rparr>,
      insert (sg_loc sg) (snd w))"

definition open_window :: "string \<Rightarrow> segment \<Rightarrow> failure_window \<times> string set" where
  "open_window msg sg =
     (\<lparr>fw_locations = [], fw_message = msg, fw_start = sg_start sg, fw_end = sg_end sg,
       fw_count = sg_count sg, fw_ongoing = sg_ongoing sg\<rparr>, {sg_loc sg})"

definition reaches :: "failure_window \<times> string set \<Rightarrow> segment \<Rightarrow> bool" where
  "reaches w sg \<longleftrightarrow> sg_start sg \<le> fw_end (fst w) + mergeGapSeconds"

definition close_window :: "failure_window \<times> string set \<Rightarrow> failure_window" where
  "close_window w = (fst w)\<lparr>fw_locations := sorted_list_of_set (snd w)\<rparr>"

text \<open>The inner loop: the window grows over the segments it reaches, and the rest remain.\<close>

fun grow_window :: "failure_window \<times> string set \<Rightarrow> segment list
    \<Rightarrow> (failure_window \<times> string set) \<times> segment list" where
  "grow_window w [] = (w, [])"
| "grow_window w (sg # sgs) = (if reaches w sg then grow_window (absorb sg w) sgs else (w, sg # sgs))"

lemma grow_window_length: "length (snd (grow_window w sgs)) \<le> length sgs"
  by (induction sgs arbitrary: w) (auto simp: le_SucI)

function merge_sorted :: "string \<Rightarrow> segment list \<Rightarrow> failure_window list" where
  "merge_sorted msg [] = []"
| "merge_sorted msg (sg # sgs) =
     close_window (fst (grow_window (open_window msg sg) sgs))
     # merge_sorted msg (snd (grow_window (open_window msg sg) sgs))"
  by pat_completeness auto
termination
  by (relation "measure (length \<circ> snd)") (auto simp: less_Suc_eq_le grow_window_length)

definition by_message :: "segment list \<Rightarrow> (string, segment list) gomap" where
  "by_message sgs = fold (\<lambda>sg m. map_put (sg_msg sg) (get_or [] m (sg_msg sg) @ [sg]) m) sgs []"

definition window_key :: "failure_window \<Rightarrow> int \<times> string" where
  "window_key w = (- fw_start w, fw_message w)"

definition mergeSegments :: "segment list \<Rightarrow> failure_window list" where
  "mergeSegments sgs =
     sort_key window_key
       (concat (map (\<lambda>(msg, g). merge_sorted msg (sort_key sg_start g)) (by_message sgs)))"

definition incidents_of :: "(int, aggregate_rollup) gomap \<Rightarrow> time \<Rightarrow> bool \<Rightarrow> failure_window list" where
  "incidents_of rollups now live =
     (let sh = stitch_hours rollups;
          recent = unix (now - StatusMaxAge)
      in mergeSegments (concat (map (mark_ongoing live recent sh) (sh_segs sh))))"

definition FailureWindows :: "'s valkey_client \<Rightarrow> 's store \<Rightarrow> string \<Rightarrow> string \<Rightarrow> time \<Rightarrow> time \<Rightarrow> time \<Rightarrow> bool
    \<Rightarrow> failure_window list result" where
  "FailureWindows vc st dash svc fr to now live =
     (case GetAggregateRollups vc st dash svc fr to of
        Inl e \<Rightarrow> Inl e
      | Inr rollups \<Rightarrow>
          (let curHour = time_truncate now hour;
               rollups' =
                 (if live \<and> time_truncate fr hour \<le> curHour \<and> curHour \<le> to
                  then (case liveHour vc st dash svc curHour (get_or zero_ag rollups (unix curHour)) of
                          (agg, True) \<Rightarrow> map_put (unix curHour) agg rollups
                        | (_, False) \<Rightarrow> rollups)
                  else rollups)
           in Inr (incidents_of rollups' now live)))"

section \<open>No failure is lost: stitching\<close>

definition segs_count :: "segment list \<Rightarrow> int" where
  "segs_count sgs = sum_list (map sg_count sgs)"

definition runs_count :: "(string, location_rollup) gomap \<Rightarrow> int" where
  "runs_count pl = sum_of (\<lambda>lr. sum_list (map fr_count (lr_runs lr))) pl"

lemma segs_count_simps [simp]:
  "segs_count [] = 0" "segs_count (sg # sgs) = sg_count sg + segs_count sgs"
  "segs_count (xs @ ys) = segs_count xs + segs_count ys"
  by (simp_all add: segs_count_def)

lemma segs_count_butlast:
  "sgs \<noteq> [] \<Longrightarrow> segs_count (butlast sgs) = segs_count sgs - sg_count (last sgs)"
  by (cases sgs rule: rev_cases) simp_all

definition nonneg :: "segment list \<Rightarrow> bool" where
  "nonneg sgs \<longleftrightarrow> list_all (\<lambda>sg. 0 \<le> sg_count sg) sgs"

lemma nonneg_simps [simp]:
  "nonneg []" "nonneg (sg # sgs) \<longleftrightarrow> 0 \<le> sg_count sg \<and> nonneg sgs" "nonneg (xs @ ys) \<longleftrightarrow> nonneg xs \<and> nonneg ys"
  by (simp_all add: nonneg_def)

lemma segs_count_nonneg: "nonneg sgs \<Longrightarrow> 0 \<le> segs_count sgs"
  by (induction sgs) simp_all

lemma wrap64_cong: "wrap64 a = wrap64 b \<Longrightarrow> wrap64 (r + a) = wrap64 (r + b)"
  by (metis wrap64_add_right)

text \<open>A location is only open when it has a segment to continue.\<close>

definition stitching_ok :: "stitching \<Rightarrow> bool" where
  "stitching_ok sh \<longleftrightarrow> wf_map (sh_segs sh)
     \<and> (\<forall>loc. get_or False (sh_open sh) loc \<longrightarrow> get_or [] (sh_segs sh) loc \<noteq> [])"

lemma stitch_run_ne: "stitch_run o1 loc run segs \<noteq> []"
  by (simp add: stitch_run_def)

lemma stitch_run_count:
  assumes "isOpen \<Longrightarrow> segs \<noteq> []"
  shows "wrap64 (segs_count (stitch_run isOpen loc run segs)) = wrap64 (segs_count segs + fr_count run)"
proof (cases "stitches isOpen run segs")
  case True
  then have "segs \<noteq> []" using assms by (simp add: stitches_def)
  with True have "segs_count (stitch_run isOpen loc run segs)
      = segs_count segs - sg_count (last segs) + wrap64 (sg_count (last segs) + fr_count run)"
    by (simp add: stitch_run_def segs_count_butlast)
  then show ?thesis by simp
qed (simp add: stitch_run_def)

lemma stitch_run_exact:
  assumes "isOpen \<Longrightarrow> segs \<noteq> []" "nonneg segs" "0 \<le> fr_count run" "segs_count segs + fr_count run \<le> max_int64"
  shows "segs_count (stitch_run isOpen loc run segs) = segs_count segs + fr_count run \<and> nonneg (stitch_run isOpen loc run segs)"
proof (cases "stitches isOpen run segs")
  case True
  then have ne: "segs \<noteq> []" using assms(1) by (simp add: stitches_def)
  have "nonneg (butlast segs @ [last segs])" using assms(2) ne by simp
  then have b: "nonneg (butlast segs)" "0 \<le> sg_count (last segs)" by (simp_all only: nonneg_simps)
  then have "wrap64 (sg_count (last segs) + fr_count run) = sg_count (last segs) + fr_count run"
    using segs_count_nonneg [OF b(1)] segs_count_butlast [OF ne] assms(3,4)
    by (intro wrap64_id) (simp add: in_int64_def min_int64_def)
  with True b assms(3) show ?thesis by (simp add: stitch_run_def segs_count_butlast [OF ne])
qed (use assms in \<open>simp add: stitch_run_def\<close>)

lemma stitch_runs_count:
  "(isOpen \<Longrightarrow> segs \<noteq> []) \<Longrightarrow>
    wrap64 (segs_count (fold (stitch_run isOpen loc) runs segs)) = wrap64 (segs_count segs + sum_list (map fr_count runs))
    \<and> (runs \<noteq> [] \<or> segs \<noteq> [] \<longrightarrow> fold (stitch_run isOpen loc) runs segs \<noteq> [])"
proof (induction runs arbitrary: segs)
  case (Cons run runs)
  let ?s = "stitch_run isOpen loc run segs"
  have "wrap64 (segs_count (fold (stitch_run isOpen loc) runs ?s)) = wrap64 (wrap64 (segs_count ?s) + sum_list (map fr_count runs))"
    using Cons.IH [of ?s] by (simp add: stitch_run_ne)
  then show ?case
    using Cons.IH [of ?s] stitch_run_count [of isOpen segs loc run, OF Cons.prems] by (simp add: stitch_run_ne add.assoc)
qed simp

lemma stitch_runs_exact:
  assumes "isOpen \<Longrightarrow> segs \<noteq> []" "nonneg segs" "list_all (\<lambda>run. 0 \<le> fr_count run) runs"
    and "segs_count segs + sum_list (map fr_count runs) \<le> max_int64"
  shows "segs_count (fold (stitch_run isOpen loc) runs segs) = segs_count segs + sum_list (map fr_count runs)
    \<and> nonneg (fold (stitch_run isOpen loc) runs segs)"
  using assms
proof (induction runs arbitrary: segs)
  case (Cons run runs)
  have "0 \<le> sum_list (map fr_count runs)" using Cons.prems(3) by (intro sum_list_nonneg) (auto simp: list_all_iff)
  with Cons.prems have "segs_count (stitch_run isOpen loc run segs) = segs_count segs + fr_count run
      \<and> nonneg (stitch_run isOpen loc run segs)"
    by (intro stitch_run_exact) auto
  with Cons.IH [of "stitch_run isOpen loc run segs"] Cons.prems show ?case by (simp add: stitch_run_ne)
qed simp

lemma sum_of_put:
  "wf_map m \<Longrightarrow> sum_of f (map_put k v m) =
    sum_of f m + f v - (case map_of m k of None \<Rightarrow> 0 | Some v' \<Rightarrow> f v')"
proof (induction m)
  case (Cons e m)
  then show ?case by (cases e) (simp split: option.split)
qed simp

lemma stitch_location_ok:
  assumes "stitching_ok sh"
  shows "stitching_ok (stitch_location h e sh)"
    and "wrap64 (sum_of segs_count (sh_segs (stitch_location h e sh))) =
      wrap64 (sum_of segs_count (sh_segs sh) + sum_list (map fr_count (lr_runs (snd e))))"
proof -
  obtain loc lr where e: "e = (loc, lr)" by (cases e)
  let ?o = "get_or False (sh_open sh) loc" and ?s = "get_or [] (sh_segs sh) loc"
  have o: "?o \<Longrightarrow> ?s \<noteq> []" using assms by (simp add: stitching_ok_def)
  note c = stitch_runs_count [where isOpen = ?o and segs = ?s and loc = loc and runs = "lr_runs lr", OF o]
  show "stitching_ok (stitch_location h e sh)"
    using assms c by (auto simp: stitching_ok_def e)
  have "(case map_of (sh_segs sh) loc of None \<Rightarrow> 0 | Some v \<Rightarrow> segs_count v) = segs_count ?s"
    by (simp add: get_or_def split: option.split)
  then have "sum_of segs_count (sh_segs (stitch_location h e sh)) =
      sum_of segs_count (sh_segs sh) - segs_count ?s + segs_count (fold (stitch_run ?o loc) (lr_runs lr) ?s)"
    using assms by (simp add: e sum_of_put stitching_ok_def)
  with wrap64_cong [OF conjunct1 [OF c], of "sum_of segs_count (sh_segs sh) - segs_count ?s"]
  show "wrap64 (sum_of segs_count (sh_segs (stitch_location h e sh))) =
      wrap64 (sum_of segs_count (sh_segs sh) + sum_list (map fr_count (lr_runs (snd e))))" by (simp add: e)
qed

text \<open>With counts that are not negative and do not exceed the range together, nothing wraps.\<close>

definition all_nonneg :: "stitching \<Rightarrow> bool" where
  "all_nonneg sh \<longleftrightarrow> list_all (\<lambda>(loc, segs). nonneg segs) (sh_segs sh)"

definition counted :: "(string, location_rollup) gomap \<Rightarrow> bool" where
  "counted pl \<longleftrightarrow> list_all (\<lambda>(loc, lr). list_all (\<lambda>run. 0 \<le> fr_count run) (lr_runs lr)) pl"

lemma runs_count_nonneg: "counted pl \<Longrightarrow> 0 \<le> runs_count pl"
  unfolding runs_count_def
  by (rule sum_of_nonneg) (force simp: counted_def list_all_iff intro!: sum_list_nonneg)

lemma sum_of_member: "\<forall>(k, v) \<in> set m. 0 \<le> f v \<Longrightarrow> (k, v) \<in> set m \<Longrightarrow> f v \<le> sum_of f m"
proof (induction m)
  case (Cons e m)
  have "0 \<le> sum_of f m" using Cons.prems(1) by (intro sum_of_nonneg) simp
  moreover have "0 \<le> f (snd e)" using Cons.prems(1) by (cases e) simp
  ultimately show ?case using Cons by (cases e) auto
qed simp

lemma map_put_member: "e \<in> set (map_put k v m) \<Longrightarrow> e = (k, v) \<or> e \<in> set m"
  by (induction m) (auto split: if_splits)

lemma stitch_location_exact:
  assumes "stitching_ok sh" "all_nonneg sh" "counted [e]"
    and "sum_of segs_count (sh_segs sh) + runs_count [e] \<le> max_int64"
  shows "all_nonneg (stitch_location h e sh)
    \<and> sum_of segs_count (sh_segs (stitch_location h e sh)) = sum_of segs_count (sh_segs sh) + runs_count [e]"
proof -
  obtain loc lr where e: "e = (loc, lr)" by (cases e)
  let ?o = "get_or False (sh_open sh) loc" and ?s = "get_or [] (sh_segs sh) loc"
  let ?f = "fold (stitch_run ?o loc) (lr_runs lr) ?s"
  have o: "?o \<Longrightarrow> ?s \<noteq> []" using assms(1) by (simp add: stitching_ok_def)
  have s: "(case map_of (sh_segs sh) loc of None \<Rightarrow> 0 | Some v \<Rightarrow> segs_count v) = segs_count ?s" and n: "nonneg ?s"
    using assms(2) by (auto simp: get_or_def all_nonneg_def list_all_iff dest!: map_of_SomeD split: option.split)
  have pos: "\<forall>(k, v) \<in> set (sh_segs sh). 0 \<le> segs_count v"
    using assms(2) by (auto simp: all_nonneg_def list_all_iff segs_count_nonneg)
  then have "segs_count ?s \<le> sum_of segs_count (sh_segs sh)"
    using sum_of_nonneg [OF pos] by (auto simp: get_or_def dest!: map_of_SomeD intro!: sum_of_member split: option.split)
  with assms(3,4) have f: "segs_count ?f = segs_count ?s + sum_list (map fr_count (lr_runs lr)) \<and> nonneg ?f"
    by (intro stitch_runs_exact [OF o n]) (simp_all add: e runs_count_def counted_def)
  have "all_nonneg (stitch_location h e sh)"
    using assms(2) f by (auto simp: e all_nonneg_def list_all_iff dest!: map_put_member)
  moreover have "sum_of segs_count (sh_segs (stitch_location h e sh)) = sum_of segs_count (sh_segs sh) + runs_count [e]"
    using assms(1) f s by (simp add: e sum_of_put stitching_ok_def runs_count_def)
  ultimately show ?thesis ..
qed

lemma stitch_locations_ok:
  "stitching_ok sh \<Longrightarrow> stitching_ok (fold (stitch_location h) es sh)
    \<and> wrap64 (sum_of segs_count (sh_segs (fold (stitch_location h) es sh)))
      = wrap64 (sum_of segs_count (sh_segs sh) + runs_count es)"
proof (induction es arbitrary: sh)
  case (Cons e es)
  have r: "runs_count (e # es) = sum_list (map fr_count (lr_runs (snd e))) + runs_count es"
    by (cases e) (simp add: runs_count_def)
  show ?case
    using stitch_location_ok [OF Cons.prems, of h e] Cons.IH [of "stitch_location h e sh"]
      wrap64_cong [OF stitch_location_ok(2) [OF Cons.prems, of h e], of "runs_count es"]
    by (simp add: r ac_simps)
qed (simp add: runs_count_def)

lemma stitch_hours_ok:
  assumes "stitching_ok sh"
  shows "stitching_ok (fold (stitch_hour rollups) hs sh)
    \<and> wrap64 (sum_of segs_count (sh_segs (fold (stitch_hour rollups) hs sh))) =
      wrap64 (sum_of segs_count (sh_segs sh)
      + sum_list (map (\<lambda>h. runs_count (ag_per_location (get_or zero_ag rollups h))) hs))"
  using assms
proof (induction hs arbitrary: sh)
  case (Cons h hs)
  let ?es = "ag_per_location (get_or zero_ag rollups h)"
  let ?rest = "sum_list (map (\<lambda>h. runs_count (ag_per_location (get_or zero_ag rollups h))) hs)"
  note l = stitch_locations_ok [OF Cons.prems, of h ?es]
  show ?case
    using l Cons.IH [of "stitch_hour rollups h sh"] wrap64_cong [OF conjunct2 [OF l], of ?rest]
    by (simp add: stitch_hour_def ac_simps)
qed simp

lemma stitch_locations_exact:
  assumes "stitching_ok sh" "all_nonneg sh" "counted es"
    and "sum_of segs_count (sh_segs sh) + runs_count es \<le> max_int64"
  shows "all_nonneg (fold (stitch_location h) es sh)
    \<and> sum_of segs_count (sh_segs (fold (stitch_location h) es sh)) = sum_of segs_count (sh_segs sh) + runs_count es"
  using assms
proof (induction es arbitrary: sh)
  case (Cons e es)
  have r: "runs_count (e # es) = runs_count [e] + runs_count es" "counted [e]" "counted es"
    using Cons.prems(3) by (cases e; simp add: runs_count_def counted_def)+
  have "sum_of segs_count (sh_segs sh) + runs_count [e] \<le> max_int64"
    using Cons.prems(4) runs_count_nonneg [OF r(3)] r(1) by simp
  from stitch_location_exact [OF Cons.prems(1,2) r(2) this, of h]
    Cons.IH [OF stitch_location_ok(1) [OF Cons.prems(1)], of h e] Cons.prems(4) r
  show ?case by simp
qed (simp add: runs_count_def)

lemma stitch_hours_exact:
  assumes "stitching_ok sh" "all_nonneg sh" "list_all (\<lambda>h. counted (ag_per_location (get_or zero_ag rollups h))) hs"
    and "sum_of segs_count (sh_segs sh) + sum_list (map (\<lambda>h. runs_count (ag_per_location (get_or zero_ag rollups h))) hs) \<le> max_int64"
  shows "all_nonneg (fold (stitch_hour rollups) hs sh)
    \<and> sum_of segs_count (sh_segs (fold (stitch_hour rollups) hs sh)) =
      sum_of segs_count (sh_segs sh) + sum_list (map (\<lambda>h. runs_count (ag_per_location (get_or zero_ag rollups h))) hs)"
  using assms
proof (induction hs arbitrary: sh)
  case (Cons h hs)
  let ?es = "ag_per_location (get_or zero_ag rollups h)"
  have c: "counted ?es" using Cons.prems(3) by simp
  have "0 \<le> sum_list (map (\<lambda>h. runs_count (ag_per_location (get_or zero_ag rollups h))) hs)"
    using Cons.prems(3) by (intro sum_list_nonneg) (auto simp: list_all_iff runs_count_nonneg)
  then have "sum_of segs_count (sh_segs sh) + runs_count ?es \<le> max_int64" using Cons.prems(4) by simp
  note l = stitch_locations_exact [OF Cons.prems(1,2) c this, of h]
  have "stitching_ok (stitch_hour rollups h sh)"
    using stitch_locations_ok [OF Cons.prems(1)] by (simp add: stitch_hour_def)
  from Cons.IH [OF this] l Cons.prems(3,4) show ?case by (simp add: stitch_hour_def)
qed simp

lemma no_stitching_ok: "stitching_ok no_stitching"
  by (simp add: stitching_ok_def no_stitching_def get_or_def)

lemma hours_sum:
  assumes "wf_map rollups"
  shows "sum_list (map (\<lambda>h. runs_count (ag_per_location (get_or zero_ag rollups h))) (sort (map fst rollups))) =
    sum_of (\<lambda>r. runs_count (ag_per_location r)) rollups"
proof -
  let ?f = "\<lambda>h. runs_count (ag_per_location (get_or zero_ag rollups h))"
  have "sum_list (map ?f (sort (map fst rollups))) = sum_list (map ?f (map fst rollups))"
    by (metis mset_map mset_sort sum_mset_sum_list)
  also have "\<dots> = sum_of (\<lambda>r. runs_count (ag_per_location r)) rollups"
    unfolding sum_of_def map_map using assms
    by (intro arg_cong [where f = sum_list] map_cong) (auto simp: wf_map_get)
  finally show ?thesis .
qed

lemma stitch_hours_count:
  assumes "wf_map rollups"
  shows "wrap64 (sum_of segs_count (sh_segs (stitch_hours rollups))) =
    wrap64 (sum_of (\<lambda>r. runs_count (ag_per_location r)) rollups)"
  using stitch_hours_ok [OF no_stitching_ok, of rollups "sort (map fst rollups)"]
  by (simp add: stitch_hours_def no_stitching_def hours_sum [OF assms])

lemma stitch_hours_counted:
  assumes "wf_map rollups" "list_all (\<lambda>(h, r). counted (ag_per_location r)) rollups"
    and "sum_of (\<lambda>r. runs_count (ag_per_location r)) rollups \<le> max_int64"
  shows "all_nonneg (stitch_hours rollups)
    \<and> sum_of segs_count (sh_segs (stitch_hours rollups)) = sum_of (\<lambda>r. runs_count (ag_per_location r)) rollups"
proof -
  have "list_all (\<lambda>h. counted (ag_per_location (get_or zero_ag rollups h))) (sort (map fst rollups))"
    using assms(1,2) by (auto simp: list_all_iff wf_map_get)
  moreover have "all_nonneg no_stitching" by (simp add: all_nonneg_def no_stitching_def)
  ultimately show ?thesis
    using stitch_hours_exact [OF no_stitching_ok, of rollups "sort (map fst rollups)"] assms(3)
    by (simp add: stitch_hours_def no_stitching_def hours_sum [OF assms(1)])
qed

lemma marked_count:
  assumes "stitching_ok sh"
  shows "segs_count (concat (map (mark_ongoing live recent sh) (sh_segs sh))) = sum_of segs_count (sh_segs sh)"
proof -
  have "segs_count (mark_ongoing live recent sh e) = segs_count (snd e)" if "e \<in> set (sh_segs sh)" for e
  proof -
    obtain loc segs where e: "e = (loc, segs)" by (cases e)
    with that assms have "get_or [] (sh_segs sh) loc = segs" by (simp add: stitching_ok_def wf_map_get)
    with assms e show ?thesis
      by (auto simp: stitching_ok_def segs_count_butlast)
  qed
  then have "segs_count (concat (map (mark_ongoing live recent sh) m)) = sum_of segs_count m"
    if "set m \<subseteq> set (sh_segs sh)" for m
    using that by (induction m) auto
  then show ?thesis by simp
qed

lemma marked_nonneg:
  assumes "stitching_ok sh" "all_nonneg sh"
  shows "nonneg (concat (map (mark_ongoing live recent sh) (sh_segs sh)))"
proof -
  have "nonneg (mark_ongoing live recent sh e)" if "e \<in> set (sh_segs sh)" for e
  proof -
    obtain loc segs where e: "e = (loc, segs)" by (cases e)
    with that assms(2) have n: "nonneg segs" by (auto simp: all_nonneg_def list_all_iff)
    then have "nonneg (butlast segs @ [(last segs)\<lparr>sg_ongoing := True\<rparr>])" if "segs \<noteq> []"
      using that by (cases segs rule: rev_cases) auto
    moreover have "get_or [] (sh_segs sh) loc = segs"
      using that assms(1) e by (simp add: stitching_ok_def wf_map_get)
    then have "get_or False (sh_open sh) loc \<Longrightarrow> segs \<noteq> []" using assms(1) by (auto simp: stitching_ok_def)
    ultimately show ?thesis using n unfolding e mark_ongoing.simps by presburger
  qed
  then show ?thesis by (auto simp: nonneg_def list_all_iff)
qed

section \<open>No failure is lost: merging\<close>

lemma grow_window_count:
  "wrap64 (fw_count (fst (fst (grow_window w sgs))) + segs_count (snd (grow_window w sgs))) =
    wrap64 (fw_count (fst w) + segs_count sgs)"
  by (induction sgs arbitrary: w) (simp_all add: absorb_def add.assoc)

lemma grow_window_exact:
  assumes "0 \<le> fw_count (fst w)" "nonneg sgs" "fw_count (fst w) + segs_count sgs \<le> max_int64"
  shows "fw_count (fst (fst (grow_window w sgs))) + segs_count (snd (grow_window w sgs)) = fw_count (fst w) + segs_count sgs
    \<and> nonneg (snd (grow_window w sgs)) \<and> 0 \<le> fw_count (fst (fst (grow_window w sgs)))"
  using assms
proof (induction sgs arbitrary: w)
  case (Cons sg sgs)
  have "0 \<le> segs_count sgs" using Cons.prems(2) by (simp add: segs_count_nonneg)
  then have "fw_count (fst (absorb sg w)) = fw_count (fst w) + sg_count sg"
    using Cons.prems by (simp add: absorb_def in_int64_def min_int64_def)
  with Cons.IH [of "absorb sg w"] Cons.prems show ?case by simp
qed simp

definition windows_count :: "failure_window list \<Rightarrow> int" where
  "windows_count ws = sum_list (map fw_count ws)"

lemma windows_count_simps [simp]:
  "windows_count [] = 0" "windows_count (w # ws) = fw_count w + windows_count ws"
  "windows_count (xs @ ys) = windows_count xs + windows_count ys"
  by (simp_all add: windows_count_def)

lemma windows_count_mset: "mset xs = mset ys \<Longrightarrow> windows_count xs = windows_count ys"
  by (metis mset_map sum_mset_sum_list windows_count_def)

lemma merge_sorted_count: "wrap64 (windows_count (merge_sorted msg sgs)) = wrap64 (segs_count sgs)"
proof (induction msg sgs rule: merge_sorted.induct)
  case (2 msg sg sgs)
  let ?g = "grow_window (open_window msg sg) sgs"
  have "wrap64 (fw_count (fst (fst ?g)) + windows_count (merge_sorted msg (snd ?g))) =
      wrap64 (fw_count (fst (fst ?g)) + segs_count (snd ?g))"
    using 2 by (rule wrap64_cong)
  with grow_window_count [of "open_window msg sg" sgs] show ?case
    by (simp add: close_window_def open_window_def)
qed simp

lemma merge_sorted_exact:
  "nonneg sgs \<Longrightarrow> segs_count sgs \<le> max_int64 \<Longrightarrow> windows_count (merge_sorted msg sgs) = segs_count sgs"
proof (induction msg sgs rule: merge_sorted.induct)
  case (2 msg sg sgs)
  have "fw_count (fst (open_window msg sg)) = sg_count sg" by (simp add: open_window_def)
  with 2 grow_window_exact [of "open_window msg sg" sgs] show ?case by (simp add: close_window_def)
qed simp

definition of_message :: "string \<Rightarrow> segment list \<Rightarrow> segment list" where
  "of_message msg = filter (\<lambda>sg. sg_msg sg = msg)"

lemma by_message_at:
  "map_of (by_message sgs) msg = (if of_message msg sgs = [] then None else Some (of_message msg sgs))"
proof (induction sgs arbitrary: msg rule: rev_induct)
  case Nil
  show ?case by (simp add: by_message_def of_message_def)
next
  case (snoc sg sgs)
  have "get_or [] (by_message sgs) (sg_msg sg) = of_message (sg_msg sg) sgs"
    using snoc by (simp add: get_or_def)
  with snoc [of msg] show ?case by (simp add: by_message_def of_message_def)
qed

lemma wf_by_message: "wf_map (by_message sgs)"
  by (induction sgs rule: rev_induct) (simp_all add: by_message_def)

text \<open>The messages in the order in which the map was filled.\<close>

definition messages :: "segment list \<Rightarrow> string list" where
  "messages sgs = map fst (by_message sgs)"

lemma messages_distinct: "distinct (messages sgs)"
  using wf_by_message by (simp add: messages_def)

lemma messages_set: "set (messages sgs) = sg_msg ` set sgs"
proof -
  have "set (messages sgs) = dom (map_of (by_message sgs))"
    by (simp add: messages_def dom_map_of_conv_image_fst)
  also have "\<dots> = sg_msg ` set sgs"
    by (auto simp: by_message_at dom_def of_message_def filter_empty_conv split: if_splits)
  finally show ?thesis .
qed

lemma by_message_entries: "by_message sgs = map (\<lambda>m. (m, of_message m sgs)) (messages sgs)"
proof -
  have "snd e = of_message (fst e) sgs" if "e \<in> set (by_message sgs)" for e
  proof -
    have "map_of (by_message sgs) (fst e) = Some (snd e)"
      using that wf_by_message [of sgs] by simp
    then show ?thesis by (simp add: by_message_at split: if_splits)
  qed
  then have "map (\<lambda>e. (fst e, of_message (fst e) sgs)) (by_message sgs) = map id (by_message sgs)"
    by (intro map_cong) (auto simp: prod_eq_iff)
  then show ?thesis by (simp add: messages_def comp_def)
qed

definition incidents_with :: "segment list \<Rightarrow> string \<Rightarrow> failure_window list" where
  "incidents_with sgs msg = merge_sorted msg (sort_key sg_start (of_message msg sgs))"

lemma mergeSegments_alt:
  "mergeSegments sgs = sort_key window_key (concat (map (incidents_with sgs) (messages sgs)))"
  unfolding mergeSegments_def by_message_entries by (simp add: comp_def incidents_with_def [abs_def])

lemma segs_count_mset: "mset xs = mset ys \<Longrightarrow> segs_count xs = segs_count ys"
  by (metis mset_map sum_mset_sum_list segs_count_def)

lemma segs_count_filter:
  "distinct ms \<Longrightarrow> sg_msg ` set sgs \<subseteq> set ms \<Longrightarrow>
    sum_list (map (\<lambda>m. segs_count (of_message m sgs)) ms) = segs_count sgs"
proof (induction sgs)
  case Nil
  then show ?case by (simp add: of_message_def)
next
  case (Cons sg sgs)
  have "sum_list (map (\<lambda>m. segs_count (of_message m (sg # sgs))) ms) =
      sum_list (map (\<lambda>m. (if m = sg_msg sg then sg_count sg else 0) + segs_count (of_message m sgs)) ms)"
    by (intro arg_cong [where f = sum_list] map_cong) (auto simp: of_message_def)
  also have "\<dots> = sg_count sg + segs_count sgs"
    using Cons by (simp add: sum_list_addf sum_list_single)
  finally show ?case by simp
qed

lemma windows_count_concat:
  "windows_count (concat (map g ms)) = sum_list (map (\<lambda>m. windows_count (g m)) ms)"
  by (induction ms) simp_all

lemma mergeSegments_windows:
  "windows_count (mergeSegments sgs) = sum_list (map (\<lambda>m. windows_count (incidents_with sgs m)) (messages sgs))"
  unfolding mergeSegments_alt windows_count_concat [symmetric] by (rule windows_count_mset) simp

lemma incidents_with_segs: "segs_count (sort_key sg_start (of_message m sgs)) = segs_count (of_message m sgs)"
  by (rule segs_count_mset) simp

lemma wrap64_sum_list:
  "\<forall>x \<in> set xs. wrap64 (f x) = wrap64 (g x) \<Longrightarrow> wrap64 (sum_list (map f xs)) = wrap64 (sum_list (map g xs))"
proof (induction xs)
  case (Cons x xs)
  then have "wrap64 (wrap64 (f x) + wrap64 (sum_list (map f xs))) = wrap64 (wrap64 (g x) + wrap64 (sum_list (map g xs)))" by simp
  then show ?case by simp
qed simp

lemma mergeSegments_count: "wrap64 (windows_count (mergeSegments sgs)) = wrap64 (segs_count sgs)"
proof -
  have "wrap64 (windows_count (mergeSegments sgs)) = wrap64 (sum_list (map (\<lambda>m. segs_count (of_message m sgs)) (messages sgs)))"
    unfolding mergeSegments_windows incidents_with_def
    by (rule wrap64_sum_list) (simp add: merge_sorted_count incidents_with_segs)
  then show ?thesis by (simp add: segs_count_filter messages_distinct messages_set)
qed

lemma segs_count_of_message: "nonneg sgs \<Longrightarrow> nonneg (of_message m sgs) \<and> segs_count (of_message m sgs) \<le> segs_count sgs"
  by (induction sgs) (auto simp: of_message_def)

lemma mergeSegments_exact:
  assumes "nonneg sgs" "segs_count sgs \<le> max_int64"
  shows "windows_count (mergeSegments sgs) = segs_count sgs"
proof -
  have "windows_count (incidents_with sgs m) = segs_count (of_message m sgs)" for m
  proof -
    have "nonneg (sort_key sg_start (of_message m sgs))"
      using segs_count_of_message [OF assms(1), of m] by (simp add: nonneg_def list_all_iff)
    moreover have "segs_count (sort_key sg_start (of_message m sgs)) \<le> max_int64"
      using segs_count_of_message [OF assms(1), of m] assms(2) by (simp add: incidents_with_segs)
    ultimately show ?thesis unfolding incidents_with_def by (simp add: merge_sorted_exact incidents_with_segs)
  qed
  then show ?thesis by (simp add: mergeSegments_windows segs_count_filter messages_distinct messages_set)
qed

section \<open>Segments with one start may come in any order\<close>

definition add_segment :: "string \<Rightarrow> segment \<Rightarrow> failure_window list \<times> (failure_window \<times> string set) option
    \<Rightarrow> failure_window list \<times> (failure_window \<times> string set) option" where
  "add_segment msg sg st =
     (case snd st of
        None \<Rightarrow> (fst st, Some (open_window msg sg))
      | Some w \<Rightarrow> if reaches w sg then (fst st, Some (absorb sg w))
                 else (fst st @ [close_window w], Some (open_window msg sg)))"

fun finish :: "failure_window list \<times> (failure_window \<times> string set) option \<Rightarrow> failure_window list" where
  "finish (ws, None) = ws"
| "finish (ws, Some w) = ws @ [close_window w]"

lemma fold_add_segment:
  "finish (fold (add_segment msg) sgs (ws, Some w)) =
    ws @ close_window (fst (grow_window w sgs)) # merge_sorted msg (snd (grow_window w sgs))"
  by (induction sgs arbitrary: ws w) (simp_all add: add_segment_def)

lemma merge_sorted_fold: "merge_sorted msg sgs = finish (fold (add_segment msg) sgs ([], None))"
  by (cases sgs) (simp_all add: fold_add_segment, simp add: add_segment_def fold_add_segment)

lemma add_segment_commute:
  assumes "sg_start a = sg_start b" "sg_start a \<le> sg_end a" "sg_start b \<le> sg_end b"
  shows "add_segment msg a \<circ> add_segment msg b = add_segment msg b \<circ> add_segment msg a"
proof
  fix st
  have g: "0 \<le> mergeGapSeconds" by (simp add: mergeGapSeconds_def)
  have "reaches (open_window msg a) b" "reaches (open_window msg b) a"
    using assms g by (simp_all add: reaches_def open_window_def)
  moreover have "absorb b (open_window msg a) = absorb a (open_window msg b)"
    using assms(1) by (auto simp: absorb_def open_window_def add.commute)
  moreover have "absorb b (absorb a w) = absorb a (absorb b w)" for w
    by (auto simp: absorb_def insert_commute ac_simps)
  moreover have "reaches w a = reaches w b" for w using assms(1) by (simp add: reaches_def)
  moreover have "reaches w b \<Longrightarrow> reaches (absorb a w) b" "reaches w a \<Longrightarrow> reaches (absorb b w) a" for w
    by (auto simp: reaches_def absorb_def)
  ultimately show "(add_segment msg a \<circ> add_segment msg b) st = (add_segment msg b \<circ> add_segment msg a) st"
    by (cases st; cases "snd st") (simp_all add: add_segment_def)
qed

definition segments_ok :: "segment list \<Rightarrow> bool" where
  "segments_ok sgs \<longleftrightarrow> (\<forall>sg \<in> set sgs. sg_start sg \<le> sg_end sg)"

lemma incidents_with_perm:
  assumes "mset sgs = mset sgs'" "segments_ok sgs"
  shows "incidents_with sgs msg = incidents_with sgs' msg"
proof -
  have m: "mset (of_message msg sgs) = mset (of_message msg sgs')"
    using assms(1) by (simp add: of_message_def)
  have "fold (add_segment msg) (sort_key sg_start (of_message msg sgs))
      = fold (add_segment msg) (sort_key sg_start (of_message msg sgs'))"
  proof (rule fold_sorted_ties)
    fix a b assume "a \<in> set (sort_key sg_start (of_message msg sgs))"
      "b \<in> set (sort_key sg_start (of_message msg sgs))" "sg_start a = sg_start b"
    with assms(2) show "add_segment msg a \<circ> add_segment msg b = add_segment msg b \<circ> add_segment msg a"
      by (intro add_segment_commute) (auto simp: segments_ok_def of_message_def)
  qed (simp_all add: m)
  then show ?thesis by (simp add: incidents_with_def merge_sorted_fold)
qed

section \<open>Incidents of one message are apart\<close>

definition window_ok :: "failure_window \<times> string set \<Rightarrow> bool" where
  "window_ok w \<longleftrightarrow> fw_start (fst w) \<le> fw_end (fst w)"

lemma absorb_simps [simp]:
  "fw_start (fst (absorb sg w)) = fw_start (fst w)" "fw_message (fst (absorb sg w)) = fw_message (fst w)"
  "fw_end (fst (absorb sg w)) = max (fw_end (fst w)) (sg_end sg)" "snd (absorb sg w) = insert (sg_loc sg) (snd w)"
  by (simp_all add: absorb_def max_def)

lemma close_window_simps [simp]:
  "fw_start (close_window w) = fw_start (fst w)" "fw_end (close_window w) = fw_end (fst w)"
  "fw_message (close_window w) = fw_message (fst w)" "fw_count (close_window w) = fw_count (fst w)"
  "fw_locations (close_window w) = sorted_list_of_set (snd w)"
  by (simp_all add: close_window_def)

lemma open_window_simps [simp]:
  "fw_start (fst (open_window msg sg)) = sg_start sg" "fw_end (fst (open_window msg sg)) = sg_end sg"
  "fw_message (fst (open_window msg sg)) = msg" "snd (open_window msg sg) = {sg_loc sg}"
  by (simp_all add: open_window_def)

lemma grow_window_start:
  "fw_start (fst (fst (grow_window w sgs))) = fw_start (fst w)"
  "fw_message (fst (fst (grow_window w sgs))) = fw_message (fst w)"
  "fw_end (fst w) \<le> fw_end (fst (fst (grow_window w sgs)))"
proof (induction sgs arbitrary: w)
  case (Cons sg sgs)
  {
    case 1
    show ?case using Cons.IH(1) [of "absorb sg w"] by simp
  next
    case 2
    show ?case using Cons.IH(2) [of "absorb sg w"] by simp
  next
    case 3
    show ?case using Cons.IH(3) [of "absorb sg w"] by simp
  }
qed simp_all

text \<open>The rest of the segments starts after the gap.\<close>

lemma grow_window_rest:
  assumes "sorted (map sg_start sgs)"
  shows "\<exists>done. sgs = done @ snd (grow_window w sgs)
    \<and> (\<forall>sg \<in> set (snd (grow_window w sgs)).
        fw_end (fst (fst (grow_window w sgs))) + mergeGapSeconds < sg_start sg)
    \<and> (\<forall>sg \<in> set done. sg_end sg \<le> fw_end (fst (fst (grow_window w sgs)))
        \<and> sg_loc sg \<in> snd (fst (grow_window w sgs)))
    \<and> snd w \<subseteq> snd (fst (grow_window w sgs)) \<and> (finite (snd w) \<longrightarrow> finite (snd (fst (grow_window w sgs))))"
  using assms
proof (induction sgs arbitrary: w)
  case (Cons sg sgs)
  show ?case
  proof (cases "reaches w sg")
    case True
    obtain dn where dn: "sgs = dn @ snd (grow_window (absorb sg w) sgs)"
      "\<forall>sg' \<in> set (snd (grow_window (absorb sg w) sgs)).
        fw_end (fst (fst (grow_window (absorb sg w) sgs))) + mergeGapSeconds < sg_start sg'"
      "\<forall>sg' \<in> set dn. sg_end sg' \<le> fw_end (fst (fst (grow_window (absorb sg w) sgs)))
        \<and> sg_loc sg' \<in> snd (fst (grow_window (absorb sg w) sgs))"
      "snd (absorb sg w) \<subseteq> snd (fst (grow_window (absorb sg w) sgs))"
      "finite (snd (absorb sg w)) \<longrightarrow> finite (snd (fst (grow_window (absorb sg w) sgs)))"
      using Cons.IH [of "absorb sg w"] Cons.prems by auto
    have "sg_end sg \<le> fw_end (fst (fst (grow_window (absorb sg w) sgs)))"
      using grow_window_start(3) [of "absorb sg w" sgs] by simp
    with dn True show ?thesis by (intro exI [of _ "sg # dn"]) auto
  next
    case False
    then have "fw_end (fst w) + mergeGapSeconds < sg_start sg" by (simp add: reaches_def)
    with Cons.prems False show ?thesis by (intro exI [of _ "[]"]) fastforce
  qed
qed simp

lemma merge_sorted_starts:
  "sorted (map sg_start sgs) \<Longrightarrow> segments_ok sgs \<Longrightarrow>
    (\<forall>w \<in> set (merge_sorted msg sgs). fw_message w = msg \<and> fw_start w \<le> fw_end w
      \<and> (\<exists>sg \<in> set sgs. fw_start w = sg_start sg))
    \<and> sorted_wrt (\<lambda>w w'. fw_end w + mergeGapSeconds < fw_start w') (merge_sorted msg sgs)"
proof (induction msg sgs rule: merge_sorted.induct)
  case (2 msg sg sgs)
  let ?g = "grow_window (open_window msg sg) sgs"
  obtain dn where dn: "sgs = dn @ snd ?g"
    "\<forall>s \<in> set (snd ?g). fw_end (fst (fst ?g)) + mergeGapSeconds < sg_start s"
    using grow_window_rest [of sgs "open_window msg sg"] "2.prems"(1) by auto
  have "set sgs = set dn \<union> set (snd ?g)" using arg_cong [OF dn(1), of set] by (simp only: set_append)
  then have sub: "set (snd ?g) \<subseteq> set sgs" by blast
  have "sorted (map sg_start (snd ?g))"
    using "2.prems" dn(1) by (metis list.simps(9) map_append sorted_append sorted_simps(2))
  moreover have "segments_ok (snd ?g)" using "2.prems"(2) sub by (auto simp: segments_ok_def)
  ultimately have IH: "(\<forall>w \<in> set (merge_sorted msg (snd ?g)). fw_message w = msg \<and> fw_start w \<le> fw_end w
      \<and> (\<exists>sg \<in> set (snd ?g). fw_start w = sg_start sg))
    \<and> sorted_wrt (\<lambda>w w'. fw_end w + mergeGapSeconds < fw_start w') (merge_sorted msg (snd ?g))"
    by (rule "2.IH")
  then have from_rest: "\<forall>w \<in> set (merge_sorted msg (snd ?g)). \<exists>s \<in> set sgs. fw_start w = sg_start s"
    using sub by blast
  have "sg_start sg \<le> sg_end sg" using "2.prems"(2) by (simp add: segments_ok_def)
  then have "fw_start (close_window (fst ?g)) \<le> fw_end (close_window (fst ?g))"
    using grow_window_start [of "open_window msg sg" sgs] by simp
  moreover have "fw_end (close_window (fst ?g)) + mergeGapSeconds < fw_start w"
    if "w \<in> set (merge_sorted msg (snd ?g))" for w
    using IH that dn(2) by fastforce
  ultimately show ?case
    using IH from_rest grow_window_start [of "open_window msg sg" sgs] by simp
qed simp

lemma merge_sorted_covers:
  assumes "sorted (map sg_start sgs)" "sg \<in> set sgs"
  shows "\<exists>w \<in> set (merge_sorted msg sgs). fw_start w \<le> sg_start sg \<and> sg_end sg \<le> fw_end w
    \<and> sg_loc sg \<in> set (fw_locations w)"
  using assms
proof (induction msg sgs rule: merge_sorted.induct)
  case (2 msg s sgs)
  let ?g = "grow_window (open_window msg s) sgs"
  let ?w = "close_window (fst ?g)"
  obtain dn where dn: "sgs = dn @ snd ?g"
    "\<forall>x \<in> set dn. sg_end x \<le> fw_end (fst (fst ?g)) \<and> sg_loc x \<in> snd (fst ?g)"
    "{sg_loc s} \<subseteq> snd (fst ?g)" "finite (snd (fst ?g))"
    using grow_window_rest [of sgs "open_window msg s"] "2.prems"(1) by auto
  have start: "fw_start ?w = sg_start s" "sg_end s \<le> fw_end ?w"
    using grow_window_start [of "open_window msg s" sgs] by simp_all
  have locs: "set (fw_locations ?w) = snd (fst ?g)" using dn(4) by simp
  consider "sg = s" | "sg \<in> set dn" | "sg \<in> set (snd ?g)"
    using "2.prems"(2) dn(1) by (metis Un_iff set_ConsD set_append)
  then show ?case
  proof cases
    case 1
    with start locs dn(3) have "fw_start ?w \<le> sg_start sg \<and> sg_end sg \<le> fw_end ?w
        \<and> sg_loc sg \<in> set (fw_locations ?w)" by simp
    then show ?thesis by simp
  next
    case 2
    then have "sg_start s \<le> sg_start sg" using "2.prems"(1) dn(1) by (metis UnI1 imageI list.set_map
        list.simps(9) set_append sorted_simps(2))
    with 2 start locs dn(2) have "fw_start ?w \<le> sg_start sg \<and> sg_end sg \<le> fw_end ?w
        \<and> sg_loc sg \<in> set (fw_locations ?w)" by simp
    then show ?thesis by simp
  next
    case 3
    have "sorted (map sg_start (snd ?g))"
      using "2.prems"(1) dn(1) by (metis list.simps(9) map_append sorted_append sorted_simps(2))
    from "2.IH" [OF this 3] show ?thesis by auto
  qed
qed simp

section \<open>The incidents do not depend on the order of the segments\<close>

lemma incidents_with_ok:
  assumes "segments_ok sgs"
  shows "\<forall>w \<in> set (incidents_with sgs msg). fw_message w = msg \<and> fw_start w \<le> fw_end w"
    and "sorted_wrt (\<lambda>w w'. fw_end w + mergeGapSeconds < fw_start w') (incidents_with sgs msg)"
  using merge_sorted_starts [of "sort_key sg_start (of_message msg sgs)" msg] assms
  by (auto simp: incidents_with_def segments_ok_def of_message_def)

lemma incidents_with_inj:
  assumes "segments_ok sgs" "w \<in> set (incidents_with sgs msg)" "w' \<in> set (incidents_with sgs msg)"
    and "fw_start w = fw_start w'"
  shows "w = w'"
proof -
  note ok = incidents_with_ok [OF assms(1), of msg]
  obtain i j where i: "i < length (incidents_with sgs msg)" "w = incidents_with sgs msg ! i"
    and j: "j < length (incidents_with sgs msg)" "w' = incidents_with sgs msg ! j"
    using assms(2,3) by (metis in_set_conv_nth)
  have lt: False if "a < b" "b < length (incidents_with sgs msg)"
    "fw_start (incidents_with sgs msg ! a) = fw_start (incidents_with sgs msg ! b)" for a b
  proof -
    have "fw_end (incidents_with sgs msg ! a) + mergeGapSeconds < fw_start (incidents_with sgs msg ! b)"
      using ok(2) that by (simp add: sorted_wrt_iff_nth_less)
    moreover have "fw_start (incidents_with sgs msg ! a) \<le> fw_end (incidents_with sgs msg ! a)"
      using ok(1) nth_mem [OF less_trans [OF that(1,2)]] by blast
    ultimately show False using that(3) by (simp add: mergeGapSeconds_def)
  qed
  have "i = j" using lt [of i j] lt [of j i] i j assms(4) by (metis linorder_neqE_nat)
  then show ?thesis using i j by simp
qed

lemma mergeSegments_order_free:
  assumes "mset sgs = mset sgs'" "segments_ok sgs"
  shows "mergeSegments sgs = mergeSegments sgs'"
proof -
  have eq: "incidents_with sgs = incidents_with sgs'"
    by (rule ext) (rule incidents_with_perm [OF assms])
  have "set (messages sgs) = set (messages sgs')"
    unfolding messages_set mset_eq_setD [OF assms(1)] ..
  then have "mset (messages sgs) = mset (messages sgs')"
    by (rule set_eq_iff_mset_eq_distinct [THEN iffD1, OF messages_distinct messages_distinct])
  then have "mset (concat (map (incidents_with sgs) (messages sgs)))
      = mset (concat (map (incidents_with sgs) (messages sgs')))"
    by (simp add: mset_concat flip: sum_mset_sum_list)
  moreover have "inj_on window_key (set (concat (map (incidents_with sgs) (messages sgs))))"
  proof (rule inj_onI)
    fix w w' assume w: "w \<in> set (concat (map (incidents_with sgs) (messages sgs)))"
      "w' \<in> set (concat (map (incidents_with sgs) (messages sgs)))" "window_key w = window_key w'"
    then obtain m m' where m: "w \<in> set (incidents_with sgs m)" "w' \<in> set (incidents_with sgs m')" by auto
    then have "m = m'" using incidents_with_ok(1) [OF assms(2)] w(3) by (auto simp: window_key_def)
    with m w(3) incidents_with_inj [OF assms(2)] show "w = w'" by (auto simp: window_key_def)
  qed
  ultimately show ?thesis unfolding mergeSegments_alt eq [symmetric] by (rule sort_key_perm)
qed

lemma mergeSegments_set: "set (mergeSegments sgs) = (\<Union>m \<in> sg_msg ` set sgs. set (incidents_with sgs m))"
  unfolding mergeSegments_alt by (simp add: messages_set)

section \<open>Properties\<close>

lemma incidents_of_segs:
  obtains sgs where "incidents_of rollups now live = mergeSegments sgs"
    "segs_count sgs = sum_of segs_count (sh_segs (stitch_hours rollups))" "all_nonneg (stitch_hours rollups) \<Longrightarrow> nonneg sgs"
proof -
  have "stitching_ok (stitch_hours rollups)"
    using stitch_hours_ok [OF no_stitching_ok] by (simp add: stitch_hours_def)
  from marked_count [OF this] marked_nonneg [OF this] that show thesis by (simp add: incidents_of_def Let_def)
qed

text \<open>
  C11: stitching and merging neither lose nor duplicate a failure: as 64-bit integers the counts of the
  incidents add up to the counts of the failure runs of all hours and locations; and where those counts are
  not negative and their sum is in range, no addition on the way wraps and the sums are equal.
\<close>

theorem incidents_conserve_failures:
  assumes "wf_map rollups"
    and "failures = sum_of (\<lambda>r. sum_of (\<lambda>lr. sum_list (map fr_count (lr_runs lr))) (ag_per_location r)) rollups"
  shows "wrap64 (sum_list (map fw_count (incidents_of rollups now live))) = wrap64 failures
    \<and> (list_all (\<lambda>(h, r). list_all (\<lambda>(loc, lr). list_all (\<lambda>run. 0 \<le> fr_count run) (lr_runs lr)) (ag_per_location r)) rollups
        \<and> failures \<le> max_int64 \<longrightarrow> sum_list (map fw_count (incidents_of rollups now live)) = failures)"
proof -
  have tot: "failures = sum_of (\<lambda>r. runs_count (ag_per_location r)) rollups" by (simp add: assms(2) runs_count_def)
  obtain sgs where s: "incidents_of rollups now live = mergeSegments sgs"
    "segs_count sgs = sum_of segs_count (sh_segs (stitch_hours rollups))" "all_nonneg (stitch_hours rollups) \<Longrightarrow> nonneg sgs"
    by (rule incidents_of_segs [of rollups now live]) blast
  have "wrap64 (windows_count (mergeSegments sgs)) = wrap64 failures"
    by (simp add: mergeSegments_count s(2) stitch_hours_count [OF assms(1)] tot)
  moreover have "windows_count (mergeSegments sgs) = failures"
    if "list_all (\<lambda>(h, r). counted (ag_per_location r)) rollups" "failures \<le> max_int64"
    using stitch_hours_counted [OF assms(1) that(1)] that(2) s(2,3) mergeSegments_exact [of sgs] by (simp add: tot)
  ultimately show ?thesis by (simp add: s(1) windows_count_def counted_def [abs_def])
qed

definition example_run :: "int \<Rightarrow> int \<Rightarrow> int \<Rightarrow> bool \<Rightarrow> bool \<Rightarrow> failure_run" where
  "example_run s e n os oe = \<lparr>fr_start = s, fr_end = e, fr_count = n, fr_message = ''down'',
     fr_open_start = os, fr_open_end = oe\<rparr>"

definition example_hours :: "(int, aggregate_rollup) gomap" where
  "example_hours =
     [(3600, zero_ag\<lparr>ag_per_location := [(''eu'', zero_lr\<lparr>lr_runs := [example_run 3600 3660 2 True True]\<rparr>)]\<rparr>),
      (0, zero_ag\<lparr>ag_per_location := [(''eu'', zero_lr\<lparr>lr_runs := [example_run 3540 3540 1 False True]\<rparr>),
          (''us'', zero_lr\<lparr>lr_runs := [example_run 100 160 2 True False]\<rparr>)]\<rparr>)]"

theorem incidents_conserve_failures_witness:
  "sum_list (map fw_count (incidents_of example_hours 0 False)) = 5
   \<and> map fw_start (incidents_of example_hours 0 False) = [3540, 100]"
proof -
  have "wf_map example_hours" by (simp add: example_hours_def)
  from incidents_conserve_failures [OF this refl, of 0 False]
  have "sum_list (map fw_count (incidents_of example_hours 0 False)) = 5"
    by (simp add: example_hours_def example_run_def max_int64_def)
  moreover have "map fw_start (incidents_of example_hours 0 False) = [3540, 100]" by code_simp
  ultimately show ?thesis by blast
qed


definition example_segments :: "segment list" where
  "example_segments =
     [\<lparr>sg_loc = ''eu'', sg_msg = ''down'', sg_start = 1000, sg_end = 1300, sg_count = 3, sg_ongoing = False\<rparr>,
      \<lparr>sg_loc = ''us'', sg_msg = ''down'', sg_start = 1500, sg_end = 1500, sg_count = 1, sg_ongoing = True\<rparr>,
      \<lparr>sg_loc = ''us'', sg_msg = ''down'', sg_start = 9000, sg_end = 9000, sg_count = 1, sg_ongoing = False\<rparr>]"


end
