(* ===== verification/Store_Latency.thy ===== *)
theory Store_Latency
  imports Store_Storage Store_Examples
begin

text \<open>
  \<^verbatim>\<open>dashboard/internal/store/latency.go\<close>: the series of check times of each location, from the raw
  samples and the hourly rollups, grouped into equal buckets when there are too many of them.
\<close>

record point =
  pt_t :: int
  pt_span :: int
  pt_avg :: "rat option"
  pt_min :: "rat option"
  pt_max :: "rat option"
  pt_checks :: int
  pt_failed :: int

record latency_stats =
  la_avg :: "rat option"
  la_min :: "rat option"
  la_max :: "rat option"
  la_checks :: int
  la_failed :: int

record latency =
  lt_from :: int
  lt_to :: int
  lt_bucket :: int
  lt_series :: "(string, point list) gomap"
  lt_stats :: "(string, latency_stats) gomap"

record entry =
  en_t :: int
  en_span :: int
  en_checks :: int
  en_failed :: int
  en_ok :: int
  en_sum :: rat
  en_min :: rat
  en_max :: rat

definition zero_entry :: entry where
  "zero_entry = \<lparr>en_t = 0, en_span = 0, en_checks = 0, en_failed = 0, en_ok = 0, en_sum = 0,
     en_min = 0, en_max = 0\<rparr>"

definition merge_entry :: "entry \<Rightarrow> entry \<Rightarrow> entry" where
  "merge_entry e o1 =
     e\<lparr>en_min := (if 0 < en_ok o1 \<and> (en_ok e = 0 \<or> en_min o1 < en_min e) then en_min o1 else en_min e),
       en_max := (if 0 < en_ok o1 \<and> (en_ok e = 0 \<or> en_max e < en_max o1) then en_max o1 else en_max e),
       en_checks := wrap64 (en_checks e + en_checks o1),
       en_failed := wrap64 (en_failed e + en_failed o1),
       en_ok := wrap64 (en_ok e + en_ok o1),
       en_sum := f64_add (en_sum e) (en_sum o1)\<rparr>"

definition entry_point :: "entry \<Rightarrow> int \<Rightarrow> int \<Rightarrow> point" where
  "entry_point e t sp =
     (let p = \<lparr>pt_t = t, pt_span = sp, pt_avg = None, pt_min = None, pt_max = None,
               pt_checks = en_checks e, pt_failed = en_failed e\<rparr>
      in if 0 < en_ok e
         then p\<lparr>pt_avg := Some (f64_div (en_sum e) (f64_of_int (en_ok e))),
                pt_min := Some (en_min e), pt_max := Some (en_max e)\<rparr>
         else p)"

record raw_hour =
  rh_entries :: "entry list"
  rh_total :: int

definition rollupEntry :: "int \<Rightarrow> location_rollup \<Rightarrow> entry" where
  "rollupEntry h lr =
     (let e = zero_entry\<lparr>en_t := h, en_span := 3600, en_checks := lr_total lr, en_failed := lr_failure lr\<rparr>;
          measured = (if lr_measured lr = 0 \<and> 0 < lr_avg lr then lr_success lr else lr_measured lr)
      in if 0 < measured
         then (if lr_max lr = 0
               then e\<lparr>en_ok := measured, en_sum := f64_mul (lr_avg lr) (f64_of_int measured),
                      en_min := lr_avg lr, en_max := lr_avg lr\<rparr>
               else e\<lparr>en_ok := measured, en_sum := f64_mul (lr_avg lr) (f64_of_int measured),
                      en_min := lr_min lr, en_max := lr_max lr\<rparr>)
         else e)"

section \<open>The raw samples\<close>

function hours_between :: "time \<Rightarrow> time \<Rightarrow> time list" where
  "hours_between h to = (if to < h then [] else h # hours_between (h + hour) to)"
  by auto
termination
  by (relation "measure (\<lambda>(h, to). nat (to - h + 1))") (auto simp: hour_def)

declare hours_between.simps [simp del]

definition raw_entry :: "time \<Rightarrow> time \<Rightarrow> (string, payload) gomap \<Rightarrow> string \<times> payload \<Rightarrow> entry option" where
  "raw_entry fr to details entry =
     (case parse_int_ok (fst entry) of
        None \<Rightarrow> None
      | Some ts \<Rightarrow>
          if ts < unix fr \<or> unix to < ts then None
          else (let e = zero_entry\<lparr>en_t := ts, en_checks := 1\<rparr>
                in Some (if payload_text (snd entry) = ''f'' then e\<lparr>en_failed := 1\<rparr>
                   else (case map_of details (fst entry) of
                       None \<Rightarrow> e
                     | Some d \<Rightarrow>
                         (let ms = f64_of_int (fst (parseDetail (payload_text d)))
                          in e\<lparr>en_ok := 1, en_sum := ms, en_min := ms, en_max := ms\<rparr>)))))"

fun raw_hours :: "'s valkey_client \<Rightarrow> 's \<Rightarrow> string \<Rightarrow> string \<Rightarrow> time \<Rightarrow> time \<Rightarrow> time list
    \<Rightarrow> (int, raw_hour) gomap \<Rightarrow> (int, raw_hour) gomap result" where
  "raw_hours vc conn dash svc fr to [] out = Inr out"
| "raw_hours vc conn dash svc fr to (h # hs) out =
     (case vc_hgetall vc conn (StatusHour dash svc (unix h)) of
        Inl e \<Rightarrow> Inl e
      | Inr statuses \<Rightarrow>
          (case vc_hgetall vc conn (DetailHour dash svc (unix h)) of
             Inl e \<Rightarrow> Inl e
           | Inr details \<Rightarrow>
               raw_hours vc conn dash svc fr to hs
                 (if statuses = [] then out
                  else map_put (unix h)
                    \<lparr>rh_entries = List.map_filter (raw_entry fr to details) statuses,
                     rh_total = int (length statuses)\<rparr> out)))"

definition rawEntries :: "'s valkey_client \<Rightarrow> 's \<Rightarrow> string \<Rightarrow> string \<Rightarrow> time \<Rightarrow> time
    \<Rightarrow> (int, raw_hour) gomap result" where
  "rawEntries vc conn dash svc fr to =
     raw_hours vc conn dash svc fr to (hours_between (time_truncate fr hour) to) []"

section \<open>The entries of a location\<close>

definition rollup_at :: "(int, aggregate_rollup) gomap \<Rightarrow> int \<Rightarrow> string \<Rightarrow> location_rollup option" where
  "rollup_at rollups h name = map_of (ag_per_location (get_or zero_ag rollups h)) name"

definition raw_part :: "(int, aggregate_rollup) gomap \<Rightarrow> string \<Rightarrow> (int, raw_hour) gomap \<Rightarrow> entry list" where
  "raw_part rollups name raw =
     concat (map (\<lambda>(h, rh). if rollup_at rollups h name = None then rh_entries rh else []) raw)"

definition use_rollup :: "int \<Rightarrow> int \<Rightarrow> int \<Rightarrow> location_rollup \<Rightarrow> raw_hour option \<Rightarrow> bool" where
  "use_rollup fromUnix settled h lr rh \<longleftrightarrow> fromUnix \<le> h \<and>
     (case rh of None \<Rightarrow> True | Some r \<Rightarrow> h < settled \<and> rh_total r < lr_total lr)"

definition rollup_part :: "int \<Rightarrow> int \<Rightarrow> (int, aggregate_rollup) gomap \<Rightarrow> string \<Rightarrow> (int, raw_hour) gomap
    \<Rightarrow> entry list" where
  "rollup_part fromUnix settled rollups name raw =
     concat (map (\<lambda>(h, r).
       (case map_of (ag_per_location r) name of
          None \<Rightarrow> []
        | Some lr \<Rightarrow>
            if use_rollup fromUnix settled h lr (map_of raw h) then [rollupEntry h lr]
            else (case map_of raw h of None \<Rightarrow> [] | Some rh \<Rightarrow> rh_entries rh))) rollups)"

definition location_entries :: "'s valkey_client \<Rightarrow> 's store \<Rightarrow> string \<Rightarrow> string \<Rightarrow> time \<Rightarrow> time
    \<Rightarrow> (int, aggregate_rollup) gomap \<Rightarrow> string \<Rightarrow> entry list" where
  "location_entries vc st dash svc fr to rollups name =
     (let raw = (case rawEntries vc (the (map_of (st_locations st) name)) dash svc fr to of
                   Inl _ \<Rightarrow> [] | Inr r \<Rightarrow> r);
          settled = unix (time_truncate to hour - hour)
      in sort_key en_t (raw_part rollups name raw @ rollup_part (unix fr) settled rollups name raw))"

definition by_location :: "'s valkey_client \<Rightarrow> 's store \<Rightarrow> string \<Rightarrow> string \<Rightarrow> time \<Rightarrow> time
    \<Rightarrow> (int, aggregate_rollup) gomap \<Rightarrow> (string, entry list) gomap" where
  "by_location vc st dash svc fr to rollups =
     filter (\<lambda>(_, es). es \<noteq> [])
       (map (\<lambda>name. (name, location_entries vc st dash svc fr to rollups name)) (LocationNames st))"

section \<open>Grouping\<close>

definition bucket_width :: "int \<Rightarrow> int \<Rightarrow> (string, entry list) gomap \<Rightarrow> int" where
  "bucket_width sp maxPoints locs =
     (if 0 < maxPoints \<and> (\<exists>(_, es) \<in> set locs. maxPoints < int (length es))
      then go_div sp maxPoints + 1 else 0)"

fun bucket_points :: "int \<Rightarrow> int \<Rightarrow> entry list \<Rightarrow> entry \<Rightarrow> int \<Rightarrow> bool \<Rightarrow> point list" where
  "bucket_points start width [] cur curIdx started =
     (if started then [entry_point cur (start + curIdx * width) width] else [])"
| "bucket_points start width (e # es) cur curIdx started =
     (let idx = go_div (en_t e - start) width
      in if started \<and> idx \<noteq> curIdx
         then entry_point cur (start + curIdx * width) width
              # bucket_points start width es (merge_entry zero_entry e) idx True
         else bucket_points start width es (merge_entry cur e) idx True)"

definition series_points :: "int \<Rightarrow> int \<Rightarrow> entry list \<Rightarrow> point list" where
  "series_points start width es =
     (if width = 0 then map (\<lambda>e. entry_point e (en_t e) (en_span e)) es
      else bucket_points start width es zero_entry 0 False)"

definition entries_stats :: "entry list \<Rightarrow> latency_stats" where
  "entries_stats es =
     (let p = entry_point (fold (\<lambda>e acc. merge_entry acc e) es zero_entry) 0 0
      in \<lparr>la_avg = pt_avg p, la_min = pt_min p, la_max = pt_max p, la_checks = pt_checks p,
          la_failed = pt_failed p\<rparr>)"

definition Latency :: "'s valkey_client \<Rightarrow> 's store \<Rightarrow> string \<Rightarrow> string \<Rightarrow> time \<Rightarrow> time \<Rightarrow> int
    \<Rightarrow> latency result" where
  "Latency vc st dash svc fr to maxPoints =
     (case GetAggregateRollups vc st dash svc (time_truncate fr hour) to of
        Inl e \<Rightarrow> Inl e
      | Inr rollups \<Rightarrow>
          (let locs = by_location vc st dash svc fr to rollups;
               width = bucket_width (unix to - unix fr) maxPoints locs
           in Inr \<lparr>lt_from = unix fr, lt_to = unix to, lt_bucket = width,
                lt_series = map (\<lambda>(name, es). (name, series_points (unix fr) width es)) locs,
                lt_stats = map (\<lambda>(name, es). (name, entries_stats es)) locs\<rparr>))"

section \<open>Every entry lies in the range\<close>

definition in_range :: "time \<Rightarrow> time \<Rightarrow> entry list \<Rightarrow> bool" where
  "in_range fr to es \<longleftrightarrow> (\<forall>e \<in> set es. unix fr \<le> en_t e \<and> en_t e \<le> unix to)"

lemma in_range_simps [simp]:
  "in_range fr to []" "in_range fr to (es @ es') = (in_range fr to es \<and> in_range fr to es')"
  "in_range fr to [e] = (unix fr \<le> en_t e \<and> en_t e \<le> unix to)"
  by (auto simp: in_range_def)

lemma in_range_concat: "(\<forall>es \<in> set ess. in_range fr to es) \<Longrightarrow> in_range fr to (concat ess)"
  by (auto simp: in_range_def)

lemma raw_entry_range: "raw_entry fr to details x = Some e \<Longrightarrow> unix fr \<le> en_t e \<and> en_t e \<le> unix to"
  by (auto simp: raw_entry_def zero_entry_def Let_def split: option.splits if_splits)

lemma raw_hours_range:
  "raw_hours vc conn dash svc fr to hs out = Inr raw \<Longrightarrow> (\<forall>(h, rh) \<in> set out. in_range fr to (rh_entries rh))
    \<Longrightarrow> (\<forall>(h, rh) \<in> set raw. in_range fr to (rh_entries rh))"
proof (induction hs arbitrary: out)
  case (Cons h hs)
  obtain statuses details where r:
    "vc_hgetall vc conn (StatusHour dash svc (unix h)) = Inr statuses"
    "vc_hgetall vc conn (DetailHour dash svc (unix h)) = Inr details"
    using Cons.prems(1) by (auto split: sum.splits)
  let ?rh = "\<lparr>rh_entries = List.map_filter (raw_entry fr to details) statuses, rh_total = int (length statuses)\<rparr>"
  let ?out = "if statuses = [] then out else map_put (unix h) ?rh out"
  have "in_range fr to (rh_entries ?rh)"
    by (auto simp: in_range_def in_map_filter dest: raw_entry_range)
  then have "\<forall>(h, rh) \<in> set ?out. in_range fr to (rh_entries rh)"
    using Cons.prems(2) set_map_put [of "unix h" ?rh out] by (cases "statuses = []") (simp, force)
  with Cons.IH [of ?out] Cons.prems(1) r show ?case by simp
qed simp

lemma rollupEntry_t [simp]: "en_t (rollupEntry h lr) = h"
  by (simp add: rollupEntry_def zero_entry_def Let_def)

lemma location_entries_range:
  assumes "\<forall>(h, r) \<in> set rollups. h \<le> unix to"
  shows "in_range fr to (location_entries vc st dash svc fr to rollups name)"
proof -
  let ?raw = "case rawEntries vc (the (map_of (st_locations st) name)) dash svc fr to of
                   Inl _ \<Rightarrow> [] | Inr r \<Rightarrow> r"
  have raw: "\<forall>(h, rh) \<in> set ?raw. in_range fr to (rh_entries rh)"
  proof (cases "rawEntries vc (the (map_of (st_locations st) name)) dash svc fr to")
    case (Inr r)
    with raw_hours_range [OF Inr [unfolded rawEntries_def]] show ?thesis by simp
  qed simp
  have "in_range fr to (raw_part rollups name ?raw)"
    unfolding raw_part_def by (rule in_range_concat) (use raw in auto)
  moreover have "in_range fr to (rollup_part (unix fr) s rollups name ?raw)" for s
    unfolding rollup_part_def
    by (rule in_range_concat)
      (use raw assms in \<open>fastforce simp: use_rollup_def split: option.splits dest: map_of_SomeD\<close>)
  ultimately show ?thesis by (simp add: location_entries_def Let_def in_range_def ball_Un)
qed

section \<open>Bounded and lossless\<close>

lemma bucket_points_length:
  assumes "sorted (map en_t es)" "0 < width" "\<forall>e \<in> set es. start \<le> en_t e \<and> (en_t e - start) div width < n"
    and "started \<longrightarrow> 0 \<le> i \<and> i < n \<and> (\<forall>e \<in> set es. i \<le> (en_t e - start) div width)"
  shows "int (length (bucket_points start width es cur i started)) \<le> (if started then n - i else max 0 n)"
  using assms
proof (induction es arbitrary: cur i started)
  case (Cons e es)
  let ?j = "(en_t e - start) div width"
  have j: "go_div (en_t e - start) width = ?j" "0 \<le> ?j" "?j < n"
    using Cons.prems(2,3) by (simp_all add: go_div_nonneg pos_imp_zdiv_nonneg_iff)
  have mono: "\<forall>x \<in> set es. ?j \<le> (en_t x - start) div width"
    using Cons.prems(1,2) by (auto intro!: zdiv_mono1)
  have IH: "int (length (bucket_points start width es c ?j True)) \<le> n - ?j" for c
    using Cons.IH [of True ?j c] Cons.prems j mono by simp
  show ?case
  proof (cases "started \<and> ?j \<noteq> i")
    case True
    then have "i < ?j" using Cons.prems(4) by fastforce
    with True IH [of "merge_entry zero_entry e"] j(1) show ?thesis by (simp add: Let_def)
  next
    case False
    with IH [of "merge_entry cur e"] j show ?thesis
      by (auto simp: Let_def max_def)
  qed
qed auto

lemma bucket_points_checks:
  "wrap64 (sum_list (map pt_checks (bucket_points start width es cur i started))) =
    wrap64 ((if started then en_checks cur else if es = [] then 0 else en_checks cur) + sum_list (map en_checks es))"
proof (induction es arbitrary: cur i started)
  case Nil
  show ?case by (simp add: entry_point_def Let_def)
next
  case (Cons e es)
  have m: "en_checks (merge_entry c e) = wrap64 (en_checks c + en_checks e)" for c
    by (simp add: merge_entry_def)
  have p: "pt_checks (entry_point c t s) = en_checks c" for c t s
    by (simp add: entry_point_def Let_def)
  show ?case
  proof (cases "started \<and> go_div (en_t e - start) width \<noteq> i")
    case True
    have "wrap64 (en_checks cur + sum_list (map pt_checks (bucket_points start width es
        (merge_entry zero_entry e) (go_div (en_t e - start) width) True)))
      = wrap64 (en_checks cur + wrap64 (sum_list (map pt_checks (bucket_points start width es
        (merge_entry zero_entry e) (go_div (en_t e - start) width) True))))"
      by (simp only: wrap64_add_right)
    also have "\<dots> = wrap64 (en_checks cur + wrap64 (wrap64 (en_checks e) + sum_list (map en_checks es)))"
      by (simp only: Cons.IH m) (simp add: zero_entry_def)
    also have "\<dots> = wrap64 (en_checks cur + (en_checks e + sum_list (map en_checks es)))"
      by (simp only: wrap64_add_left wrap64_add_right)
    finally show ?thesis using True by (simp add: Let_def p)
  next
    case False
    then have "bucket_points start width (e # es) cur i started =
        bucket_points start width es (merge_entry cur e) (go_div (en_t e - start) width) True"
      by (auto simp: Let_def)
    then have "wrap64 (sum_list (map pt_checks (bucket_points start width (e # es) cur i started)))
      = wrap64 (wrap64 (en_checks cur + en_checks e) + sum_list (map en_checks es))"
      by (simp only: Cons.IH m if_True)
    then show ?thesis by (simp add: add.assoc)
  qed
qed

lemma entries_stats_checks:
  "la_checks (entries_stats es) = (if es = [] then 0 else wrap64 (sum_list (map en_checks es)))"
proof -
  have "en_checks (fold (\<lambda>e acc. merge_entry acc e) es c) =
      (if es = [] then en_checks c else wrap64 (en_checks c + sum_list (map en_checks es)))" for c
    by (induction es arbitrary: c) (auto simp: merge_entry_def add.assoc)
  then show ?thesis by (simp add: entries_stats_def entry_point_def Let_def zero_entry_def)
qed

lemma series_points_checks:
  "es \<noteq> [] \<Longrightarrow> wrap64 (sum_list (map pt_checks (series_points start width es))) = wrap64 (sum_list (map en_checks es))"
proof (cases "width = 0")
  case True
  have "map pt_checks (series_points start width es) = map en_checks es"
    using True by (simp add: series_points_def entry_point_def Let_def)
  then show ?thesis by simp
next
  case False
  assume "es \<noteq> []"
  with False show ?thesis
    by (simp add: series_points_def bucket_points_checks) (simp add: zero_entry_def)
qed

lemma series_points_length:
  assumes "0 < maxPoints" "sorted (map en_t es)" "in_range fr to es" "unix fr \<le> unix to" "es \<in> snd ` set locs"
    and "width = bucket_width (unix to - unix fr) maxPoints locs"
  shows "int (length (series_points (unix fr) width es)) \<le> maxPoints"
proof (cases "width = 0")
  case True
  have "0 \<le> go_div (unix to - unix fr) maxPoints"
    using assms(1,4) by (simp add: go_div_nonneg pos_imp_zdiv_nonneg_iff)
  with True assms(1,5,6) have "int (length es) \<le> maxPoints"
    by (force simp: bucket_width_def split: if_splits)
  with True show ?thesis by (simp add: series_points_def)
next
  case False
  let ?span = "unix to - unix fr"
  have w: "width = ?span div maxPoints + 1"
    using False assms(1,4,6) by (simp add: bucket_width_def go_div_nonneg split: if_splits)
  have pos: "0 < width" using assms(1,4) by (simp add: w pos_imp_zdiv_nonneg_iff add_nonneg_pos)
  have "?span < width * maxPoints"
  proof -
    have "?span = maxPoints * (?span div maxPoints) + ?span mod maxPoints" by simp
    moreover have "?span mod maxPoints < maxPoints" using assms(1) by simp
    ultimately have "?span < maxPoints * (?span div maxPoints) + maxPoints" by linarith
    then show ?thesis by (simp add: w algebra_simps)
  qed
  then have "(en_t e - unix fr) div width < maxPoints" if "e \<in> set es" for e
  proof -
    have "en_t e - unix fr < maxPoints * width"
      using that assms(3) \<open>?span < width * maxPoints\<close> by (fastforce simp: in_range_def mult.commute)
    with pos show ?thesis by (rule div_less_bound)
  qed
  then have "int (length (bucket_points (unix fr) width es zero_entry 0 False)) \<le> max 0 maxPoints"
    using bucket_points_length [OF assms(2) pos, of "unix fr" maxPoints False 0 zero_entry] assms(3)
    by (simp add: in_range_def)
  with False assms(1) show ?thesis by (simp add: series_points_def)
qed

section \<open>Properties\<close>

text \<open>
  C13: with a positive limit no series has more points than the limit, and grouping loses no
  check: the checks of a location's points add up to the checks of its statistics.
\<close>

theorem latency_bounded_and_lossless:
  assumes "Latency vc st dash svc fr to maxPoints = Inr l" "fr \<le> to" "(name, ps) \<in> set (lt_series l)"
  shows "(0 < maxPoints \<longrightarrow> int (length ps) \<le> maxPoints)
    \<and> (\<exists>stats. (name, stats) \<in> set (lt_stats l)
        \<and> la_checks stats = wrap64 (sum_list (map pt_checks ps)))"
proof -
  from assms(1) obtain rollups where g:
    "GetAggregateRollups vc st dash svc (time_truncate fr hour) to = Inr rollups"
    by (auto simp: Latency_def split: sum.splits)
  let ?locs = "by_location vc st dash svc fr to rollups"
  let ?w = "bucket_width (unix to - unix fr) maxPoints ?locs"
  have l: "lt_series l = map (\<lambda>(name, es). (name, series_points (unix fr) ?w es)) ?locs"
    "lt_stats l = map (\<lambda>(name, es). (name, entries_stats es)) ?locs"
    using assms(1) g by (auto simp: Latency_def Let_def)
  with assms(3) obtain es where es: "(name, es) \<in> set ?locs" "ps = series_points (unix fr) ?w es" by auto
  then have ne: "es \<noteq> []" and loc: "es = location_entries vc st dash svc fr to rollups name"
    by (auto simp: by_location_def)
  have "\<forall>(h, r) \<in> set rollups. h \<le> unix to"
    using GetAggregateRollups_range(2) [OF g] of_unix_le by blast
  then have range: "in_range fr to es" unfolding loc by (rule location_entries_range)
  have sorted: "sorted (map en_t es)" by (simp add: loc location_entries_def Let_def)
  have le: "unix fr \<le> unix to" using assms(2) by (rule unix_mono)
  have mem: "es \<in> snd ` set ?locs" using es(1) by force
  have bound: "int (length ps) \<le> maxPoints" if "0 < maxPoints"
    unfolding es(2) by (rule series_points_length [OF that sorted range le mem refl])
  have "(name, entries_stats es) \<in> set (lt_stats l)" using es(1) l(2) by force
  moreover have "la_checks (entries_stats es) = wrap64 (sum_list (map pt_checks ps))"
    using ne by (simp add: es(2) series_points_checks entries_stats_checks)
  ultimately show ?thesis using bound by blast
qed

theorem latency_bounded_and_lossless_witness:
  "\<exists>l ps. Latency vt_client example_store ''d'' ''s'' (of_unix 7200) (of_unix 7300) 2 = Inr l
     \<and> (''eu'', ps) \<in> set (lt_series l) \<and> int (length ps) \<le> 2"
proof -
  let ?fr = "of_unix 7200" and ?to = "of_unix 7300"
  have "GetAggregateRollups vt_client example_store ''d'' ''s'' (time_truncate ?fr hour) ?to = Inr []"
    by code_simp
  then obtain l where l: "Latency vt_client example_store ''d'' ''s'' ?fr ?to 2 = Inr l"
    "map fst (lt_series l) = map fst (by_location vt_client example_store ''d'' ''s'' ?fr ?to [])"
    by (auto simp: Latency_def Let_def case_prod_unfold)
  have "map fst (by_location vt_client example_store ''d'' ''s'' ?fr ?to []) = [''eu'']" by code_simp
  with l(2) have "map fst (lt_series l) = [''eu'']" by (rule trans)
  then have "''eu'' \<in> set (map fst (lt_series l))" by (simp only: list.set_intros)
  then obtain ps where ps: "(''eu'', ps) \<in> set (lt_series l)" by auto
  have "?fr \<le> ?to" by (simp add: of_unix_def nsec_def)
  from latency_bounded_and_lossless [OF l(1) this ps] l(1) ps show ?thesis by auto
qed

end
