(* ===== verification/Rollup_Runner.thy ===== *)
theory Rollup_Runner
  imports Store_Storage
begin

text \<open>
  \<^verbatim>\<open>dashboard/internal/rollup/rollup.go\<close>: the runner that rolls up the current hours on every tick and
  fills the gaps of the past in a backfill that runs beside the ticks. A pass and a backfill are
  functions on the runner's fields and the store; the interleaving of passes, notes and backfills is
  the step relation of the last section. Cancelling the context is modelled by a predicate on how
  many times a backfill has looked at it.
\<close>

record runner =
  rn_hours :: int
  rn_backfilling :: bool
  rn_down :: "(string, string) gomap"
  rn_read_missing :: bool
  rn_recovered :: bool
  rn_store_failed :: bool
  rn_need_full :: bool
  rn_last_full :: time

record 's world =
  w_runner :: runner
  w_store :: "'s store"

definition fullBackfillGap :: duration where
  "fullBackfillGap = hour"

definition new_runner :: "int \<Rightarrow> runner" where
  "new_runner retentionDays = \<lparr>rn_hours = wrap64 (retentionDays * 24), rn_backfilling = False, rn_down = [],
     rn_read_missing = False, rn_recovered = False, rn_store_failed = False, rn_need_full = False,
     rn_last_full = zero_time\<rparr>"

text \<open>What \<^verbatim>\<open>Start\<close> sets before it launches the first backfill.\<close>

definition start_runner :: "runner \<Rightarrow> time \<Rightarrow> runner" where
  "start_runner r start = r\<lparr>rn_backfilling := True, rn_last_full := start\<rparr>"

definition noteStoreFailed :: "runner \<Rightarrow> runner" where
  "noteStoreFailed r = r\<lparr>rn_store_failed := True, rn_need_full := True\<rparr>"

definition note_hour :: "bool \<Rightarrow> bool \<Rightarrow> runner \<Rightarrow> runner" where
  "note_hour missing err r =
     (if missing \<or> err
      then r\<lparr>rn_read_missing := (rn_read_missing r \<or> missing),
             rn_store_failed := (rn_store_failed r \<or> err),
             rn_need_full := (rn_need_full r \<or> err)\<rparr>
      else r)"

definition finish_backfill :: "runner \<Rightarrow> runner" where
  "finish_backfill r = r\<lparr>rn_backfilling := False\<rparr>"

section \<open>A pass\<close>

definition rollupServiceHour :: "'s valkey_client \<Rightarrow> 's world \<Rightarrow> string \<Rightarrow> string \<Rightarrow> time \<Rightarrow> time \<Rightarrow> bool
    \<Rightarrow> 's world \<times> hour_rollup \<times> string option" where
  "rollupServiceHour vc w dash svc hr now mark =
     (case RollupHour vc (w_store w) dash svc hr now mark of
        (st', res, err) \<Rightarrow>
          (w\<lparr>w_store := st', w_runner := note_hour (hr_missing res \<noteq> []) (err \<noteq> None) (w_runner w)\<rparr>, res, err))"

definition updateDaily :: "'s valkey_client \<Rightarrow> 's world \<Rightarrow> string \<Rightarrow> string \<Rightarrow> time \<Rightarrow> time
    \<Rightarrow> 's world \<times> bool \<times> string option" where
  "updateDaily vc w dash svc dy now =
     (case UpdateDailyRollup vc (w_store w) dash svc dy now of
        (st', written, err) \<Rightarrow>
          (w\<lparr>w_store := st',
             w_runner := (if err \<noteq> None then noteStoreFailed (w_runner w) else w_runner w)\<rparr>, written, err))"

record 's pass =
  ps_world :: "'s world"
  ps_down :: "(string, string) gomap"
  ps_rolled :: bool
  ps_failed :: bool

definition pass_hour :: "'s valkey_client \<Rightarrow> string \<Rightarrow> string \<Rightarrow> time \<Rightarrow> time \<Rightarrow> 's pass \<Rightarrow> 's pass" where
  "pass_hour vc dash svc now hr p =
     (case rollupServiceHour vc (ps_world p) dash svc hr now True of
        (w1, res, err) \<Rightarrow>
          (let p1 = p\<lparr>ps_world := w1, ps_rolled := True, ps_failed := (ps_failed p \<or> err \<noteq> None),
                      ps_down := put_all (hr_missing res) (ps_down p)\<rparr>
           in if hr < time_truncate now day
              then (case updateDaily vc w1 dash svc hr now of
                      (w2, _, err2) \<Rightarrow> p1\<lparr>ps_world := w2, ps_failed := (ps_failed p1 \<or> err2 \<noteq> None)\<rparr>)
              else p1))"

definition pass_hours :: "time \<Rightarrow> time list" where
  "pass_hours now = [time_truncate now hour, time_truncate now hour - hour]"

definition pass_dashboard :: "'s valkey_client \<Rightarrow> time \<Rightarrow> string \<Rightarrow> 's pass \<Rightarrow> 's pass" where
  "pass_dashboard vc now dash p =
     (case ListServices vc (w_store (ps_world p)) dash of
        Inl e \<Rightarrow> p\<lparr>ps_world := (ps_world p)\<lparr>w_runner := noteStoreFailed (w_runner (ps_world p))\<rparr>,
                   ps_failed := True\<rparr>
      | Inr services \<Rightarrow>
          fold (\<lambda>svc. fold (pass_hour vc dash svc now) (pass_hours now)) services p)"

text \<open>The state after a pass, whether a backfill starts, and whether it is a full one.\<close>

definition pass_recovered :: "runner \<Rightarrow> (string, string) gomap \<Rightarrow> bool" where
  "pass_recovered r down \<longleftrightarrow> rn_recovered r \<or> (\<exists>(loc, _) \<in> set (rn_down r). \<not> has_key down loc)"

definition pass_full :: "runner \<Rightarrow> time \<Rightarrow> bool \<Rightarrow> bool" where
  "pass_full r now failed \<longleftrightarrow> rn_need_full r \<and> \<not> failed \<and> fullBackfillGap \<le> time_sub now (rn_last_full r)"

definition pass_repair :: "runner \<Rightarrow> (string, string) gomap \<Rightarrow> bool \<Rightarrow> bool" where
  "pass_repair r down failed \<longleftrightarrow>
     (rn_read_missing r \<and> (pass_recovered r down \<or> down = [])) \<or> (rn_store_failed r \<and> \<not> failed)"

definition afterPass :: "runner \<Rightarrow> time \<Rightarrow> (string, string) gomap \<Rightarrow> bool \<Rightarrow> runner \<times> bool \<times> bool" where
  "afterPass r now down failed =
     (let full = pass_full r now failed;
          start = (\<not> rn_backfilling r \<and> (full \<or> pass_repair r down failed));
          r1 = r\<lparr>rn_down := down, rn_recovered := pass_recovered r down\<rparr>;
          r2 = (if start
                then r1\<lparr>rn_backfilling := True, rn_read_missing := False, rn_recovered := False,
                        rn_store_failed := False\<rparr>
                else r1);
          r3 = (if start \<and> full then r2\<lparr>rn_need_full := False, rn_last_full := now\<rparr> else r2)
      in (r3, start, full))"

definition runOnce :: "'s valkey_client \<Rightarrow> 's world \<Rightarrow> time \<Rightarrow> 's world \<times> bool option" where
  "runOnce vc w now =
     (case ListDashboards vc (w_store w) of
        Inl e \<Rightarrow> (w\<lparr>w_runner := noteStoreFailed (w_runner w)\<rparr>, None)
      | Inr dashboards \<Rightarrow>
          (let p = fold (pass_dashboard vc now) dashboards
                     \<lparr>ps_world = w, ps_down = [], ps_rolled = False, ps_failed = False\<rparr>
           in if ps_rolled p
              then (case afterPass (w_runner (ps_world p)) now (ps_down p) (ps_failed p) of
                      (r, start, full) \<Rightarrow>
                        ((ps_world p)\<lparr>w_runner := r\<rparr>, if start then Some full else None))
              else (ps_world p, None)))"

section \<open>A backfill\<close>

record svc_ref =
  sr_dash :: string
  sr_svc :: string
  sr_existing :: "int list"
  sr_marked :: "int list"
  sr_touched :: "int list"
  sr_first :: int

record 's bfill =
  bf_world :: "'s world"
  bf_looks :: nat
  bf_stopped :: bool

text \<open>One look at the context, which is cancelled or not at that moment.\<close>

definition look :: "(nat \<Rightarrow> bool) \<Rightarrow> 's bfill \<Rightarrow> 's bfill" where
  "look ctx b = b\<lparr>bf_looks := Suc (bf_looks b), bf_stopped := (bf_stopped b \<or> ctx (bf_looks b))\<rparr>"

definition complete_hour :: "aggregate_rollup \<Rightarrow> bool" where
  "complete_hour r \<longleftrightarrow> ag_missing r = [] \<and> \<not> ag_in_progress r"

definition ref_of :: "string \<Rightarrow> string \<Rightarrow> (int, aggregate_rollup) gomap \<Rightarrow> svc_ref" where
  "ref_of dash svc rollups =
     \<lparr>sr_dash = dash, sr_svc = svc,
      sr_existing = map fst (filter (\<lambda>(_, r). complete_hour r) rollups),
      sr_marked = map fst (filter (\<lambda>(_, r). \<not> complete_hour r) rollups),
      sr_touched = [],
      sr_first = fold (\<lambda>(epoch, _). min epoch) rollups max_int64\<rparr>"

fun collect_services :: "'s valkey_client \<Rightarrow> time \<Rightarrow> bool \<Rightarrow> time \<Rightarrow> time \<Rightarrow> string \<Rightarrow> string list
    \<Rightarrow> 's store \<Rightarrow> svc_ref list \<times> 's store" where
  "collect_services vc t0 full oldest now dash [] st = ([], st)"
| "collect_services vc t0 full oldest now dash (svc # svcs) st =
     (let st1 = (if full then fst (ExpireRollupFields vc st dash svc t0) else st);
          (refs, st2) = collect_services vc t0 full oldest now dash svcs st1
      in case GetAggregateRollups vc st1 dash svc oldest now of
           Inl e \<Rightarrow> (refs, st2)
         | Inr rollups \<Rightarrow> (ref_of dash svc rollups # refs, st2))"

fun collect_refs :: "'s valkey_client \<Rightarrow> time \<Rightarrow> bool \<Rightarrow> time \<Rightarrow> time \<Rightarrow> string list
    \<Rightarrow> 's store \<Rightarrow> svc_ref list \<times> 's store" where
  "collect_refs vc t0 full oldest now [] st = ([], st)"
| "collect_refs vc t0 full oldest now (dash # dashes) st =
     (case ListServices vc st dash of
        Inl e \<Rightarrow> collect_refs vc t0 full oldest now dashes st
      | Inr svcs \<Rightarrow>
          (let (refs1, st1) = collect_services vc t0 full oldest now dash svcs st;
               (refs2, st2) = collect_refs vc t0 full oldest now dashes st1
           in (refs1 @ refs2, st2)))"

definition skips_hour :: "bool \<Rightarrow> svc_ref \<Rightarrow> int \<Rightarrow> bool" where
  "skips_hour full ref h \<longleftrightarrow> h \<in> set (sr_existing ref) \<or> (\<not> full \<and> h \<notin> set (sr_marked ref))"

text \<open>One hour across the services; a stopped backfill returns without touching the rest.\<close>

fun fill_hour :: "'s valkey_client \<Rightarrow> (nat \<Rightarrow> bool) \<Rightarrow> time \<Rightarrow> bool \<Rightarrow> time \<Rightarrow> svc_ref list
    \<Rightarrow> 's bfill \<Rightarrow> svc_ref list \<times> 's bfill" where
  "fill_hour vc ctx t0 full hr [] b = ([], b)"
| "fill_hour vc ctx t0 full hr (ref # refs) b =
     (if bf_stopped b then (ref # refs, b)
      else (let b1 = look ctx b
            in if bf_stopped b1 then (ref # refs, b1)
               else if skips_hour full ref (unix hr)
               then (case fill_hour vc ctx t0 full hr refs b1 of (refs', b') \<Rightarrow> (ref # refs', b'))
               else (case rollupServiceHour vc (bf_world b1) (sr_dash ref) (sr_svc ref) hr t0
                       (unix hr \<in> set (sr_marked ref) \<or> sr_first ref \<le> unix hr) of
                  (w, res, _) \<Rightarrow>
                    (let ref' = (if hr_written res
                                 then ref\<lparr>sr_touched := List.insert (unix (time_truncate hr day)) (sr_touched ref)\<rparr>
                                 else ref)
                     in case fill_hour vc ctx t0 full hr refs (look ctx (b1\<lparr>bf_world := w\<rparr>)) of
                          (refs', b') \<Rightarrow> (ref' # refs', b')))))"

fun fill_hours :: "'s valkey_client \<Rightarrow> (nat \<Rightarrow> bool) \<Rightarrow> time \<Rightarrow> bool \<Rightarrow> time list \<Rightarrow> svc_ref list
    \<Rightarrow> 's bfill \<Rightarrow> svc_ref list \<times> 's bfill" where
  "fill_hours vc ctx t0 full [] refs b = (refs, b)"
| "fill_hours vc ctx t0 full (hr # hrs) refs b =
     (case fill_hour vc ctx t0 full hr refs b of (refs', b') \<Rightarrow> fill_hours vc ctx t0 full hrs refs' b')"

text \<open>
  The products of hours are exact for retentions below 106751 days, whose nanoseconds are 64-bit integers.
\<close>

definition gap_hours :: "time \<Rightarrow> int \<Rightarrow> time list" where
  "gap_hours now hours = map (\<lambda>offset. now - int offset * hour) [1..<nat hours]"

function days_until :: "time \<Rightarrow> time \<Rightarrow> time list" where
  "days_until d today = (if d < today then d # days_until (add_days d 1) today else [])"
  by auto
termination
  by (relation "measure (\<lambda>(d, today). nat (today - d))") (auto simp: add_days_def day_def)

declare days_until.simps [simp del]

fun rebuild_days :: "'s valkey_client \<Rightarrow> (nat \<Rightarrow> bool) \<Rightarrow> time \<Rightarrow> bool \<Rightarrow> svc_ref
    \<Rightarrow> (string, daily_rollup) gomap \<Rightarrow> time list \<Rightarrow> 's bfill \<Rightarrow> 's bfill" where
  "rebuild_days vc ctx t0 full ref dailies [] b = b"
| "rebuild_days vc ctx t0 full ref dailies (d # ds) b =
     (if bf_stopped b then b
      else if unix d \<notin> set (sr_touched ref) \<and> (has_key dailies (format_date d) \<or> \<not> full)
      then rebuild_days vc ctx t0 full ref dailies ds b
      else (let b1 = look ctx b
            in if bf_stopped b1 then b1
               else (case updateDaily vc (bf_world b1) (sr_dash ref) (sr_svc ref) d t0 of
                       (w, _, _) \<Rightarrow>
                         rebuild_days vc ctx t0 full ref dailies ds (look ctx (b1\<lparr>bf_world := w\<rparr>)))))"

fun rebuild_refs :: "'s valkey_client \<Rightarrow> (nat \<Rightarrow> bool) \<Rightarrow> time \<Rightarrow> bool \<Rightarrow> time \<Rightarrow> time \<Rightarrow> svc_ref list
    \<Rightarrow> 's bfill \<Rightarrow> 's bfill" where
  "rebuild_refs vc ctx t0 full firstFull today [] b = b"
| "rebuild_refs vc ctx t0 full firstFull today (ref # refs) b =
     (if bf_stopped b then b
      else if full
      then (case GetDailyRollups vc (w_store (bf_world b)) (sr_dash ref) (sr_svc ref) firstFull (add_days today (-1)) of
              Inl e \<Rightarrow> rebuild_refs vc ctx t0 full firstFull today refs b
            | Inr dailies \<Rightarrow>
                rebuild_refs vc ctx t0 full firstFull today refs
                  (rebuild_days vc ctx t0 full ref dailies (days_until firstFull today) b))
      else rebuild_refs vc ctx t0 full firstFull today refs
             (rebuild_days vc ctx t0 full ref [] (days_until firstFull today) b))"

definition first_full_day :: "time \<Rightarrow> time" where
  "first_full_day oldest =
     (if time_truncate oldest day < oldest then add_days (time_truncate oldest day) 1
      else time_truncate oldest day)"

definition backfill :: "'s valkey_client \<Rightarrow> (nat \<Rightarrow> bool) \<Rightarrow> 's world \<Rightarrow> time \<Rightarrow> bool \<Rightarrow> 's world" where
  "backfill vc ctx w t0 full =
     (case ListDashboards vc (w_store w) of
        Inl e \<Rightarrow> w
      | Inr dashboards \<Rightarrow>
          (let now = time_truncate t0 hour;
               hours = rn_hours (w_runner w);
               oldest = now - (hours - 1) * hour;
               (refs, st1) = collect_refs vc t0 full oldest now dashboards (w_store w);
               (refs', b) = fill_hours vc ctx t0 full (gap_hours now hours) refs
                  \<lparr>bf_world = w\<lparr>w_store := st1\<rparr>, bf_looks = 0, bf_stopped = False\<rparr>
           in bf_world (rebuild_refs vc ctx t0 full (first_full_day oldest) (time_truncate t0 day) refs' b)))"

text \<open>What \<^verbatim>\<open>launchBackfill\<close> runs through \<^verbatim>\<open>spawn\<close>.\<close>

definition run_backfill :: "'s valkey_client \<Rightarrow> (nat \<Rightarrow> bool) \<Rightarrow> 's world \<Rightarrow> time \<Rightarrow> bool \<Rightarrow> 's world" where
  "run_backfill vc ctx w t0 full =
     (let w' = backfill vc ctx w t0 full in w'\<lparr>w_runner := finish_backfill (w_runner w')\<rparr>)"

end
