(* ===== verification/Rollup_Schedule.thy ===== *)
theory Rollup_Schedule
  imports Rollup_Runner Store_Examples Valkey_Test_Server
begin

text \<open>
  The runner of \<^verbatim>\<open>dashboard/internal/rollup/rollup.go\<close> as a state machine. Every section that the code
  runs under the mutex of \<^verbatim>\<open>Runner\<close> is one step; any interleaving of ticks, notes and backfills is a
  sequence of steps. The functions of \<open>Rollup_Runner\<close> are shown to be such sequences, so the invariants
  of the reachable schedules hold of them.
\<close>


section \<open>The schedule: passes, notes and backfills interleaved\<close>

text \<open>
  Each step is one section under the runner's lock. The state is the runner, the number of backfills
  in flight and the starts of the full backfills so far, the newest first.
\<close>

record sched =
  sd_runner :: runner
  sd_running :: nat
  sd_fulls :: "time list"

inductive sched_step :: "sched \<Rightarrow> sched \<Rightarrow> bool" where
  step_fail: "sched_step s (s\<lparr>sd_runner := noteStoreFailed (sd_runner s)\<rparr>)"
| step_note: "sched_step s (s\<lparr>sd_runner := note_hour missing err (sd_runner s)\<rparr>)"
| step_pass: "afterPass (sd_runner s) now down failed = (r, start, full) \<Longrightarrow>
     sched_step s \<lparr>sd_runner = r, sd_running = (if start then Suc (sd_running s) else sd_running s),
       sd_fulls = (if start \<and> full then now # sd_fulls s else sd_fulls s)\<rparr>"
| step_finish: "sd_running s = Suc n \<Longrightarrow>
     sched_step s (s\<lparr>sd_runner := finish_backfill (sd_runner s), sd_running := n\<rparr>)"

inductive sched_reachable :: "sched \<Rightarrow> bool" where
  reach_start: "sched_reachable \<lparr>sd_runner = start_runner (new_runner days) start, sd_running = 1, sd_fulls = [start]\<rparr>"
| reach_step: "sched_reachable s \<Longrightarrow> sched_step s s' \<Longrightarrow> sched_reachable s'"

inductive_cases sched_step_cases: "sched_step s s'"

text \<open>Full backfills that started at least the gap apart, the newest first.\<close>

fun spaced :: "time list \<Rightarrow> bool" where
  "spaced (later # earlier # ts) \<longleftrightarrow> fullBackfillGap \<le> time_sub later earlier \<and> spaced (earlier # ts)"
| "spaced _ \<longleftrightarrow> True"

text \<open>What the runner remembers of the schedule.\<close>

definition sched_inv :: "sched \<Rightarrow> bool" where
  "sched_inv s \<longleftrightarrow> sd_running s = (if rn_backfilling (sd_runner s) then 1 else 0)
     \<and> sd_fulls s \<noteq> [] \<and> hd (sd_fulls s) = rn_last_full (sd_runner s)
     \<and> spaced (sd_fulls s)"

lemma notes_keep [simp]:
  "rn_backfilling (noteStoreFailed r) = rn_backfilling r" "rn_last_full (noteStoreFailed r) = rn_last_full r"
  "rn_backfilling (note_hour m e r) = rn_backfilling r" "rn_last_full (note_hour m e r) = rn_last_full r"
  "rn_last_full (finish_backfill r) = rn_last_full r" "\<not> rn_backfilling (finish_backfill r)"
  by (simp_all add: noteStoreFailed_def note_hour_def finish_backfill_def)

lemma afterPass_cases:
  assumes "afterPass r now down failed = (r', start, full)"
  shows "start \<Longrightarrow> \<not> rn_backfilling r \<and> rn_backfilling r'"
    and "\<not> start \<Longrightarrow> rn_backfilling r' = rn_backfilling r \<and> rn_last_full r' = rn_last_full r
      \<and> rn_store_failed r' = rn_store_failed r \<and> rn_read_missing r' = rn_read_missing r
      \<and> rn_need_full r' = rn_need_full r"
    and "start \<Longrightarrow> full \<Longrightarrow> rn_last_full r' = now \<and> fullBackfillGap \<le> time_sub now (rn_last_full r)"
    and "start \<Longrightarrow> \<not> full \<Longrightarrow> rn_last_full r' = rn_last_full r \<and> rn_need_full r' = rn_need_full r"
    and "start = (\<not> rn_backfilling r \<and> (full \<or> pass_repair r down failed))" "full = pass_full r now failed"
    and "rn_down r' = down"
proof -
  let ?r1 = "r\<lparr>rn_down := down, rn_recovered := pass_recovered r down\<rparr>"
  let ?r2 = "?r1\<lparr>rn_backfilling := True, rn_read_missing := False, rn_recovered := False, rn_store_failed := False\<rparr>"
  let ?start = "\<not> rn_backfilling r \<and> (pass_full r now failed \<or> pass_repair r down failed)"
  have "(if ?start \<and> pass_full r now failed then (if ?start then ?r2 else ?r1)\<lparr>rn_need_full := False, rn_last_full := now\<rparr>
      else if ?start then ?r2 else ?r1) = r' \<and> ?start = start \<and> pass_full r now failed = full"
    using assms unfolding afterPass_def Let_def prod.inject .
  note all = this
  have e: "(if ?start \<and> pass_full r now failed then (if ?start then ?r2 else ?r1)\<lparr>rn_need_full := False, rn_last_full := now\<rparr>
      else if ?start then ?r2 else ?r1) = r'" and s': "?start = start" and f': "pass_full r now failed = full"
    
    by (rule conjunct1 [OF all], rule conjunct1 [OF conjunct2 [OF all]], rule conjunct2 [OF conjunct2 [OF all]])
  note s = s' [symmetric] and f = f' [symmetric]
  have r': "r' = (if start \<and> full then (if start then ?r2 else ?r1)\<lparr>rn_need_full := False, rn_last_full := now\<rparr>
      else if start then ?r2 else ?r1)"
    using e [symmetric] unfolding s' f .
  show "start = (\<not> rn_backfilling r \<and> (full \<or> pass_repair r down failed))" using s unfolding f .
  show "full = pass_full r now failed" by (rule f)
  show "start \<Longrightarrow> \<not> rn_backfilling r \<and> rn_backfilling r'"
    using s by (auto simp: r')
  show "rn_down r' = down"
    "start \<Longrightarrow> \<not> full \<Longrightarrow> rn_last_full r' = rn_last_full r \<and> rn_need_full r' = rn_need_full r"
    "\<not> start \<Longrightarrow> rn_backfilling r' = rn_backfilling r \<and> rn_last_full r' = rn_last_full r
      \<and> rn_store_failed r' = rn_store_failed r \<and> rn_read_missing r' = rn_read_missing r
      \<and> rn_need_full r' = rn_need_full r"
    by (use s in blast | simp add: r')+
  show "start \<Longrightarrow> full \<Longrightarrow> rn_last_full r' = now \<and> fullBackfillGap \<le> time_sub now (rn_last_full r)"
    using f by (simp add: r' pass_full_def)
qed

lemma sched_inv_step: "sched_inv s \<Longrightarrow> sched_step s s' \<Longrightarrow> sched_inv s'"
proof (erule sched_step_cases, goal_cases)
  case (3 now down failed r start full)
  note c = afterPass_cases [OF 3(3)]
  show ?case
  proof (cases "start \<and> full")
    case True
    with c(3) 3(1) have "fullBackfillGap \<le> time_sub now (hd (sd_fulls s))" by (simp add: sched_inv_def)
    with 3(1) have "spaced (now # sd_fulls s)" by (cases "sd_fulls s") (auto simp: sched_inv_def)
    with True c(1,3) 3 show ?thesis by (simp add: sched_inv_def)
  next
    case False
    with c(1,2,4) 3 show ?thesis by (auto simp: sched_inv_def)
  qed
qed (auto simp: sched_inv_def split: if_splits)

lemma sched_inv_start:
  "sched_inv \<lparr>sd_runner = start_runner (new_runner days) start, sd_running = 1, sd_fulls = [start]\<rparr>"
  by (simp add: sched_inv_def start_runner_def)

lemma sched_reachable_inv: "sched_reachable s \<Longrightarrow> sched_inv s"
  by (induction rule: sched_reachable.induct) (rule sched_inv_start, rule sched_inv_step)

section \<open>The modelled passes and backfills are schedules\<close>

definition with_runner :: "sched \<Rightarrow> runner \<Rightarrow> sched" where
  "with_runner s r = s\<lparr>sd_runner := r\<rparr>"

lemma with_runner_simps [simp]:
  "sd_runner (with_runner s r) = r" "with_runner (with_runner s r) r' = with_runner s r'"
  "with_runner s (sd_runner s) = s" "sd_running (with_runner s r) = sd_running s"
  "sd_fulls (with_runner s r) = sd_fulls s"
  by (simp_all add: with_runner_def)

text \<open>\<open>only_notes r r'\<close>: some notes under the lock lead from \<open>r\<close> to \<open>r'\<close>.\<close>

inductive note_step :: "runner \<Rightarrow> runner \<Rightarrow> bool" where
  "note_step r (noteStoreFailed r)"
| "note_step r (note_hour m e r)"

abbreviation only_notes :: "runner \<Rightarrow> runner \<Rightarrow> bool" where
  "only_notes \<equiv> rtranclp note_step"

lemma notes_sched: "only_notes r r' \<Longrightarrow> rtranclp sched_step (with_runner s r) (with_runner s r')"
proof (induction rule: rtranclp_induct)
  case (step r1 r2)
  have "sched_step (with_runner s r1) (with_runner s r2)"
    using step(2)
  proof cases
    case 1
    then show ?thesis using step_fail [of "with_runner s r1"] by (simp add: with_runner_def)
  next
    case (2 m e)
    then show ?thesis using step_note [of "with_runner s r1" m e] by (simp add: with_runner_def)
  qed
  with step(3) show ?case by (rule rtranclp.rtrancl_into_rtrancl)
qed simp

lemma rollupServiceHour_notes:
  "rollupServiceHour vc w dash svc hr now mark = (w', res, err) \<Longrightarrow> only_notes (w_runner w) (w_runner w')"
  by (auto simp: rollupServiceHour_def split: prod.splits intro!: r_into_rtranclp note_step.intros)

lemma updateDaily_notes:
  "updateDaily vc w dash svc d now = (w', written, err) \<Longrightarrow> only_notes (w_runner w) (w_runner w')"
proof -
  have "only_notes r (noteStoreFailed r)" for r by (intro r_into_rtranclp note_step.intros)
  moreover assume "updateDaily vc w dash svc d now = (w', written, err)"
  ultimately show ?thesis by (auto simp: updateDaily_def split: prod.splits if_splits)
qed

lemma pass_hour_notes: "only_notes (w_runner (ps_world p)) (w_runner (ps_world (pass_hour vc dash svc now hr p)))"
proof -
  obtain w1 res err where 1: "rollupServiceHour vc (ps_world p) dash svc hr now True = (w1, res, err)"
    by (rule prod_cases3)
  obtain w2 b e where 2: "updateDaily vc w1 dash svc hr now = (w2, b, e)" by (rule prod_cases3)
  show ?thesis
    using rollupServiceHour_notes [OF 1] updateDaily_notes [OF 2]
    by (auto simp: pass_hour_def 1 2 Let_def)
qed

lemma fold_notes:
  assumes "\<And>x p. only_notes (w_runner (ps_world p)) (w_runner (ps_world (f x p)))"
  shows "only_notes (w_runner (ps_world p)) (w_runner (ps_world (fold f xs p)))"
  by (induction xs arbitrary: p) (auto intro: rtranclp_trans assms)

lemma pass_dashboard_notes:
  "only_notes (w_runner (ps_world p)) (w_runner (ps_world (pass_dashboard vc now dash p)))"
proof (cases "ListServices vc (w_store (ps_world p)) dash")
  case (Inl e)
  then show ?thesis by (auto simp: pass_dashboard_def intro!: r_into_rtranclp note_step.intros)
next
  case (Inr svcs)
  have "only_notes (w_runner (ps_world p)) (w_runner (ps_world
      (fold (\<lambda>svc. fold (pass_hour vc dash svc now) (pass_hours now)) svcs p)))"
    by (intro fold_notes pass_hour_notes)
  with Inr show ?thesis by (simp add: pass_dashboard_def)
qed

lemma runOnce_schedule:
  assumes "runOnce vc w now = (w', launch)" "sd_runner s = w_runner w"
  shows "\<exists>s'. rtranclp sched_step s s' \<and> sd_runner s' = w_runner w'
    \<and> sd_running s' = (if launch = None then sd_running s else Suc (sd_running s))"
proof (cases "ListDashboards vc (w_store w)")
  case (Inl e)
  with assms have w': "w_runner w' = noteStoreFailed (w_runner w)" "launch = None"
    by (auto simp: runOnce_def)
  have "sched_step s (with_runner s (w_runner w'))"
    using step_fail [of s] assms(2) by (simp add: w' with_runner_def)
  with w'(2) show ?thesis by (intro exI [of _ "with_runner s (w_runner w')"]) auto
next
  case (Inr dashes)
  define p where "p = fold (pass_dashboard vc now) dashes
      \<lparr>ps_world = w, ps_down = [], ps_rolled = False, ps_failed = False\<rparr>"
  have "only_notes (w_runner w) (w_runner (ps_world p))"
    using fold_notes [where f = "pass_dashboard vc now" and xs = dashes
        and p = "\<lparr>ps_world = w, ps_down = [], ps_rolled = False, ps_failed = False\<rparr>", OF pass_dashboard_notes]
    by (simp add: p_def)
  from notes_sched [OF this, of s] have 1: "rtranclp sched_step s (with_runner s (w_runner (ps_world p)))"
    by (simp flip: assms(2))
  show ?thesis
  proof (cases "ps_rolled p")
    case True
    obtain r start full where a: "afterPass (w_runner (ps_world p)) now (ps_down p) (ps_failed p) = (r, start, full)"
      by (rule prod_cases3)
    let ?s = "with_runner s (w_runner (ps_world p))"
    have "sched_step ?s \<lparr>sd_runner = r, sd_running = (if start then Suc (sd_running ?s) else sd_running ?s),
       sd_fulls = (if start \<and> full then now # sd_fulls ?s else sd_fulls ?s)\<rparr>"
      by (rule step_pass [where down = "ps_down p" and failed = "ps_failed p"]) (simp add: a)
    with 1 have 2: "rtranclp sched_step s \<lparr>sd_runner = r,
       sd_running = (if start then Suc (sd_running ?s) else sd_running ?s),
       sd_fulls = (if start \<and> full then now # sd_fulls ?s else sd_fulls ?s)\<rparr>" by (rule rtranclp.rtrancl_into_rtrancl)
    have "w_runner w' = r" "launch = (if start then Some full else None)"
      using assms(1) Inr True a by (auto simp: runOnce_def p_def Let_def)
    with 2 show ?thesis by (intro exI conjI) (assumption, auto)
  next
    case False
    then have "w' = ps_world p" "launch = None" using assms(1) Inr by (auto simp: runOnce_def p_def Let_def)
    with 1 show ?thesis by (intro exI conjI) (assumption, auto)
  qed
qed

lemma fill_hour_notes:
  "fill_hour vc ctx t0 full hr refs b = (refs', b') \<Longrightarrow> only_notes (w_runner (bf_world b)) (w_runner (bf_world b'))"
proof (induction refs arbitrary: b refs' b')
  case (Cons ref refs)
  let ?b1 = "look ctx b"
  have [simp]: "bf_world (look ctx b) = bf_world b" for b by (simp add: look_def)
  consider "bf_stopped b" | "\<not> bf_stopped b" "bf_stopped ?b1"
    | "\<not> bf_stopped b" "\<not> bf_stopped ?b1" "skips_hour full ref (unix hr)"
    | "\<not> bf_stopped b" "\<not> bf_stopped ?b1" "\<not> skips_hour full ref (unix hr)" by blast
  then show ?case
  proof cases
    case 3
    with Cons.prems Cons.IH [of ?b1] show ?thesis by (auto split: prod.splits)
  next
    case 4
    obtain w res e where 1: "rollupServiceHour vc (bf_world ?b1) (sr_dash ref) (sr_svc ref) hr t0
        (unix hr \<in> set (sr_marked ref) \<or> sr_first ref \<le> unix hr) = (w, res, e)" by (rule prod_cases3)
    obtain rs b2 where 2: "fill_hour vc ctx t0 full hr refs (look ctx (?b1\<lparr>bf_world := w\<rparr>)) = (rs, b2)" by fastforce
    have "b' = b2" using Cons.prems 4 1 2 by (simp add: Let_def)
    with rollupServiceHour_notes [OF 1] Cons.IH [OF 2] show ?thesis by (simp add: rtranclp_trans)
  qed (use Cons.prems in \<open>auto\<close>)
qed simp

lemma fill_hours_notes:
  "fill_hours vc ctx t0 full hrs refs b = (refs', b') \<Longrightarrow> only_notes (w_runner (bf_world b)) (w_runner (bf_world b'))"
proof (induction hrs arbitrary: refs b)
  case (Cons hr hrs)
  obtain rs b1 where 1: "fill_hour vc ctx t0 full hr refs b = (rs, b1)" by fastforce
  with Cons have "only_notes (w_runner (bf_world b1)) (w_runner (bf_world b'))" by simp
  with fill_hour_notes [OF 1] show ?case by (rule rtranclp_trans)
qed simp

lemma rebuild_days_notes:
  "only_notes (w_runner (bf_world b)) (w_runner (bf_world (rebuild_days vc ctx t0 full ref dailies ds b)))"
proof (induction ds arbitrary: b)
  case (Cons d ds)
  have [simp]: "bf_world (look ctx b) = bf_world b" for b by (simp add: look_def)
  obtain w x e where 1: "updateDaily vc (bf_world (look ctx b)) (sr_dash ref) (sr_svc ref) d t0 = (w, x, e)"
    by (rule prod_cases3)
  with updateDaily_notes [OF 1] Cons.IH [of "look ctx (look ctx b\<lparr>bf_world := w\<rparr>)"] Cons.IH [of b]
  show ?case by (auto simp: Let_def)
qed simp

lemma rebuild_refs_notes:
  "only_notes (w_runner (bf_world b)) (w_runner (bf_world (rebuild_refs vc ctx t0 full ff today refs b)))"
proof (induction refs arbitrary: b)
  case (Cons ref refs)
  have days: "only_notes (w_runner (bf_world b))
      (w_runner (bf_world (rebuild_refs vc ctx t0 full ff today refs (rebuild_days vc ctx t0 full ref dl ds b))))"
    for dl ds by (rule rtranclp_trans [OF rebuild_days_notes Cons.IH])
  show ?case
  proof (cases full)
    case True
    with days Cons.IH [of b] show ?thesis by (auto split: sum.splits)
  next
    case False
    with days show ?thesis by auto
  qed
qed simp

lemma run_backfill_schedule:
  assumes "sd_runner s = w_runner w" "sd_running s = Suc n"
  shows "rtranclp sched_step s
    (s\<lparr>sd_runner := w_runner (run_backfill vc ctx w t0 full), sd_running := n\<rparr>)"
proof -
  have n: "only_notes (w_runner w) (w_runner (backfill vc ctx w t0 full))"
  proof (cases "ListDashboards vc (w_store w)")
    case (Inr dashes)
    let ?now = "time_truncate t0 hour" and ?h = "rn_hours (w_runner w)"
    obtain refs st1 where 1: "collect_refs vc t0 full (?now - (?h - 1) * hour) ?now dashes (w_store w) = (refs, st1)"
      by fastforce
    let ?b0 = "\<lparr>bf_world = w\<lparr>w_store := st1\<rparr>, bf_looks = 0, bf_stopped = False\<rparr>"
    obtain refs' b where 2: "fill_hours vc ctx t0 full (gap_hours ?now ?h) refs ?b0 = (refs', b)" by fastforce
    show ?thesis
      using rtranclp_trans [OF fill_hours_notes [OF 2] rebuild_refs_notes
          [of b vc ctx t0 full "first_full_day (?now - (?h - 1) * hour)" "time_truncate t0 day" refs']]
      by (simp add: backfill_def Inr Let_def 1 2)
  qed (simp add: backfill_def)
  let ?r = "w_runner (backfill vc ctx w t0 full)"
  have "rtranclp sched_step s (with_runner s ?r)" using notes_sched [OF n, of s] by (simp flip: assms(1))
  moreover have "sched_step (with_runner s ?r)
      ((with_runner s ?r)\<lparr>sd_runner := finish_backfill ?r, sd_running := n\<rparr>)"
    using step_finish [of "with_runner s ?r" n] assms(2) by simp
  ultimately show ?thesis
    by (simp add: run_backfill_def Let_def with_runner_def rtranclp.rtrancl_into_rtrancl)
qed

section \<open>What the schedule promises\<close>

text \<open>
  C15: at every moment of every schedule at most one backfill is in flight, the flag says whether one
  is, and full backfills started at least an hour apart, the newest first.
\<close>

theorem schedule_is_exclusive_and_paced:
  assumes "sched_reachable s"
  shows "sd_running s = (if rn_backfilling (sd_runner s) then 1 else 0) \<and> sd_running s \<le> 1
    \<and> hd (sd_fulls s) = rn_last_full (sd_runner s) \<and> spaced (sd_fulls s)"
  using sched_reachable_inv [OF assms] by (simp add: sched_inv_def)

definition example_schedule :: sched where
  "example_schedule =
     \<lparr>sd_runner = (noteStoreFailed (finish_backfill (start_runner (new_runner 7) 0)))
        \<lparr>rn_backfilling := True, rn_store_failed := False, rn_need_full := False, rn_last_full := 2 * hour\<rparr>,
      sd_running = 1, sd_fulls = [2 * hour, 0]\<rparr>"

lemma example_schedule_reachable: "sched_reachable example_schedule"
proof -
  let ?s0 = "\<lparr>sd_runner = start_runner (new_runner 7) 0, sd_running = 1, sd_fulls = [0]\<rparr>"
  let ?s1 = "?s0\<lparr>sd_runner := finish_backfill (sd_runner ?s0), sd_running := 0\<rparr>"
  let ?s2 = "?s1\<lparr>sd_runner := noteStoreFailed (sd_runner ?s1)\<rparr>"
  have "sched_reachable ?s0" by (rule reach_start)
  then have "sched_reachable ?s1" by (rule reach_step) (rule step_finish, simp)
  then have 2: "sched_reachable ?s2" by (rule reach_step) (rule step_fail)
  let ?r = "sd_runner example_schedule"
  have "afterPass (sd_runner ?s2) (2 * hour) [] False = (?r, True, True)" by code_simp
  from step_pass [OF this] have "sched_step ?s2 example_schedule"
    by (simp add: example_schedule_def)
  with 2 show ?thesis by (rule reach_step)
qed

theorem schedule_is_exclusive_and_paced_witness:
  "sd_running example_schedule = 1 \<and> spaced [2 * hour, 0]"
  using schedule_is_exclusive_and_paced [OF example_schedule_reachable]
  by (simp add: example_schedule_def)

text \<open>A step that launches no backfill.\<close>

definition idle_step :: "sched \<Rightarrow> sched \<Rightarrow> bool" where
  "idle_step s s' \<longleftrightarrow> sched_step s s' \<and> sd_running s' \<le> sd_running s"

lemma idle_step_owed:
  assumes "idle_step s s'"
  shows "(rn_store_failed (sd_runner s) \<longrightarrow> rn_store_failed (sd_runner s'))
    \<and> (rn_need_full (sd_runner s) \<longrightarrow> rn_need_full (sd_runner s'))"
proof -
  from assms have "sched_step s s'" by (simp add: idle_step_def)
  then show ?thesis
  proof cases
    case (step_pass now down failed r start full)
    with assms have "\<not> start" by (auto simp: idle_step_def split: if_splits)
    from afterPass_cases(2) [OF step_pass(2) this] show ?thesis by (simp add: step_pass(1))
  qed (auto simp: noteStoreFailed_def note_hour_def finish_backfill_def)
qed

lemma idle_steps_owed:
  "rtranclp idle_step s s' \<Longrightarrow>
    (rn_store_failed (sd_runner s) \<longrightarrow> rn_store_failed (sd_runner s'))
    \<and> (rn_need_full (sd_runner s) \<longrightarrow> rn_need_full (sd_runner s'))"
  by (induction rule: rtranclp_induct) (auto dest: idle_step_owed)



text \<open>
  C14: every pass over the store is a sequence of steps of the schedule, its notes in their order and
  then the decision under the lock, which launches a backfill exactly when the pass asks for one; and
  every backfill that was launched is its notes followed by one finishing step.
\<close>

theorem passes_and_backfills_are_schedules:
  "(\<forall>s. sd_runner s = w_runner w \<longrightarrow>
      (\<exists>s'. rtranclp sched_step s s' \<and> sd_runner s' = w_runner (fst (runOnce vc w now))
        \<and> sd_running s' = (if snd (runOnce vc w now) = None then sd_running s else Suc (sd_running s))))
   \<and> (\<forall>s n. sd_runner s = w_runner w \<and> sd_running s = Suc n \<longrightarrow>
      rtranclp sched_step s (s\<lparr>sd_runner := w_runner (run_backfill vc ctx w t0 full), sd_running := n\<rparr>))"
proof (intro conjI allI impI, goal_cases)
  case (1 s)
  obtain w' l where "runOnce vc w now = (w', l)" by fastforce
  with 1 runOnce_schedule show ?case by fastforce
next
  case (2 s n)
  then show ?case by (intro run_backfill_schedule) simp_all
qed

section \<open>A repairing backfill leaves finished hours alone\<close>

definition settled :: "svc_ref \<Rightarrow> bool" where
  "settled ref \<longleftrightarrow> sr_marked ref = [] \<and> sr_touched ref = []"

lemma fill_hour_settled:
  "list_all settled refs \<Longrightarrow> \<exists>b'. fill_hour vc ctx t0 False hr refs b = (refs, b') \<and> bf_world b' = bf_world b"
proof (induction refs arbitrary: b)
  case (Cons ref refs)
  then have "skips_hour False ref h" for h by (simp add: skips_hour_def settled_def)
  moreover obtain b' where "fill_hour vc ctx t0 False hr refs (look ctx b) = (refs, b')"
    "bf_world b' = bf_world (look ctx b)" using Cons by fastforce
  ultimately show ?case by (auto simp: look_def Let_def)
qed simp

lemma fill_hours_settled:
  "list_all settled refs \<Longrightarrow> \<exists>b'. fill_hours vc ctx t0 False hrs refs b = (refs, b') \<and> bf_world b' = bf_world b"
proof (induction hrs arbitrary: b)
  case (Cons hr hrs)
  obtain b' where "fill_hour vc ctx t0 False hr refs b = (refs, b')" "bf_world b' = bf_world b"
    using fill_hour_settled [OF Cons.prems] by blast
  with Cons show ?case by fastforce
qed simp

lemma rebuild_days_settled:
  "settled ref \<Longrightarrow> rebuild_days vc ctx t0 False ref dailies ds b = b"
  by (induction ds) (auto simp: settled_def)

lemma rebuild_refs_settled:
  "list_all settled refs \<Longrightarrow> rebuild_refs vc ctx t0 False ff today refs b = b"
  by (induction refs) (auto simp: rebuild_days_settled)

text \<open>Every rollup of the window that a backfill would read is complete.\<close>

definition complete_service :: "'s valkey_client \<Rightarrow> 's store \<Rightarrow> time \<Rightarrow> time \<Rightarrow> string \<Rightarrow> string \<Rightarrow> bool" where
  "complete_service vc st oldest now dash svc \<longleftrightarrow>
     (case GetAggregateRollups vc st dash svc oldest now of
        Inl e \<Rightarrow> True
      | Inr rollups \<Rightarrow> list_all (\<lambda>(epoch, r). complete_hour r) rollups)"

definition complete_dashboard :: "'s valkey_client \<Rightarrow> 's store \<Rightarrow> time \<Rightarrow> time \<Rightarrow> string \<Rightarrow> bool" where
  "complete_dashboard vc st oldest now dash \<longleftrightarrow>
     (case ListServices vc st dash of
        Inl e \<Rightarrow> True
      | Inr svcs \<Rightarrow> list_all (complete_service vc st oldest now dash) svcs)"

definition all_complete :: "'s valkey_client \<Rightarrow> 's store \<Rightarrow> time \<Rightarrow> time \<Rightarrow> bool" where
  "all_complete vc st oldest now \<longleftrightarrow>
     (case ListDashboards vc st of
        Inl e \<Rightarrow> True
      | Inr dashes \<Rightarrow> list_all (complete_dashboard vc st oldest now) dashes)"

lemma ref_of_settled:
  "list_all (\<lambda>(epoch, r). complete_hour r) rollups \<Longrightarrow> settled (ref_of dash svc rollups)"
  by (fastforce simp: settled_def ref_of_def filter_empty_conv list_all_iff)

lemma collect_services_settled:
  "list_all (complete_service vc st oldest now dash) svcs \<Longrightarrow>
    \<exists>refs. collect_services vc t0 False oldest now dash svcs st = (refs, st) \<and> list_all settled refs"
proof (induction svcs)
  case (Cons svc svcs)
  then obtain refs where "collect_services vc t0 False oldest now dash svcs st = (refs, st)" "list_all settled refs"
    by auto
  moreover have "settled (ref_of dash svc rollups)" if "GetAggregateRollups vc st dash svc oldest now = Inr rollups" for rollups
    using Cons.prems that by (intro ref_of_settled) (simp add: complete_service_def)
  ultimately show ?case by (cases "GetAggregateRollups vc st dash svc oldest now") auto
qed simp

lemma collect_refs_settled:
  "list_all (complete_dashboard vc st oldest now) dashes \<Longrightarrow>
    \<exists>refs. collect_refs vc t0 False oldest now dashes st = (refs, st) \<and> list_all settled refs"
proof (induction dashes)
  case (Cons dash dashes)
  then obtain refs where "collect_refs vc t0 False oldest now dashes st = (refs, st)" "list_all settled refs"
    by auto
  note rest = this
  show ?case
  proof (cases "ListServices vc st dash")
    case (Inr svcs)
    obtain rs where "collect_services vc t0 False oldest now dash svcs st = (rs, st)" "list_all settled rs"
      using collect_services_settled [of vc st oldest now dash svcs t0] Cons.prems Inr
      by (auto simp: complete_dashboard_def)
    with rest Inr show ?thesis by simp
  qed (use rest in simp)
qed simp

lemma repair_settled:
  assumes "all_complete vc (w_store w) (time_truncate t0 hour - (rn_hours (w_runner w) - 1) * hour) (time_truncate t0 hour)"
  shows "run_backfill vc ctx w t0 False = w\<lparr>w_runner := finish_backfill (w_runner w)\<rparr>"
proof (cases "ListDashboards vc (w_store w)")
  case (Inl e)
  then show ?thesis by (simp add: run_backfill_def backfill_def)
next
  case (Inr dashes)
  let ?now = "time_truncate t0 hour" and ?h = "rn_hours (w_runner w)"
  obtain refs where 1: "collect_refs vc t0 False (?now - (?h - 1) * hour) ?now dashes (w_store w) = (refs, w_store w)"
    and s: "list_all settled refs"
    using collect_refs_settled [of vc "w_store w" "?now - (?h - 1) * hour" ?now dashes t0] assms Inr
    by (auto simp: all_complete_def)
  let ?b0 = "\<lparr>bf_world = w\<lparr>w_store := w_store w\<rparr>, bf_looks = 0, bf_stopped = False\<rparr>"
  obtain b where 2: "fill_hours vc ctx t0 False (gap_hours ?now ?h) refs ?b0 = (refs, b)" "bf_world b = w"
    using fill_hours_settled [OF s, of vc ctx t0 "gap_hours ?now ?h" ?b0] by auto
  show ?thesis
    using 1 2 by (simp add: run_backfill_def backfill_def Inr Let_def rebuild_refs_settled [OF s])
qed

text \<open>
  C17: a backfill that is not a full one writes nothing when every stored rollup of its window is
  complete: afterwards the store is what it was and only the flag of the running backfill changed.
\<close>

theorem repair_leaves_complete_hours:
  assumes "all_complete vc (w_store w) (time_truncate t0 hour - (rn_hours (w_runner w) - 1) * hour) (time_truncate t0 hour)"
  shows "run_backfill vc ctx w t0 False = w\<lparr>w_runner := finish_backfill (w_runner w)\<rparr>"
  using assms by (rule repair_settled)

definition example_listed :: "vt_server store" where
  "example_listed = example_store\<lparr>st_locations := [(''eu'', (example_conn example_statuses example_details)
     \<lparr>vt_sets := [(Dashboards, [''d'']), (Services ''d'', [''s''])]\<rparr>)]\<rparr>"

definition example_world :: "vt_server world" where
  "example_world = \<lparr>w_runner = start_runner (new_runner 1) 0,
     w_store = fst (RollupHour vt_client example_listed ''d'' ''s'' (of_unix 7200) (of_unix 11000) False)\<rparr>"

lemma example_world_dashboards: "ListDashboards vt_client (w_store example_world) = Inr [''d'']"
  by code_simp

lemma example_world_services: "ListServices vt_client (w_store example_world) ''d'' = Inr [''s'']"
  by code_simp

lemma example_world_window:
  "of_unix 10800 - (rn_hours (w_runner example_world) - 1) * hour = of_unix (- 72000)"
  "time_truncate (of_unix 11000) hour = of_unix 10800"
  by code_simp+

lemma example_world_complete:
  "complete_service vt_client (w_store example_world) (of_unix (- 72000)) (of_unix 10800) ''d'' ''s''"
  by code_simp

theorem repair_leaves_complete_hours_witness:
  "run_backfill vt_client (\<lambda>_. False) example_world (of_unix 11000) False
     = example_world\<lparr>w_runner := finish_backfill (w_runner example_world)\<rparr>"
  by (rule repair_leaves_complete_hours)
    (simp add: example_world_window all_complete_def example_world_dashboards complete_dashboard_def
      example_world_services example_world_complete)

theorem passes_and_backfills_are_schedules_witness:
  "(\<exists>s'. rtranclp sched_step \<lparr>sd_runner = w_runner example_world, sd_running = 1, sd_fulls = [0]\<rparr> s'
      \<and> sd_runner s' = w_runner (fst (runOnce vt_client example_world (of_unix 11000))))
   \<and> rtranclp sched_step \<lparr>sd_runner = w_runner example_world, sd_running = 1, sd_fulls = [0]\<rparr>
       \<lparr>sd_runner = finish_backfill (w_runner example_world), sd_running = 0, sd_fulls = [0]\<rparr>"
  (is "_ \<and> rtranclp sched_step ?s _")
proof -
  note s = passes_and_backfills_are_schedules [of example_world vt_client "of_unix 11000" "\<lambda>_. False" "of_unix 11000" False]
  have "rn_backfilling (finish_backfill r) = False" for r by simp
  have c: "run_backfill vt_client (\<lambda>_. False) example_world (of_unix 11000) False
      = example_world\<lparr>w_runner := finish_backfill (w_runner example_world)\<rparr>"
    by (rule repair_settled)
      (simp add: example_world_window all_complete_def example_world_dashboards complete_dashboard_def
        example_world_services example_world_complete)
  show ?thesis using s [THEN conjunct1, rule_format, of ?s] s [THEN conjunct2, rule_format, of ?s 0] by (auto simp: c)
qed

end
