(* ===== verification/Dashboard_Config.thy ===== *)
theory Dashboard_Config
  imports Go_Time Go_Float Store_Rollup
begin

text \<open>
  \<^verbatim>\<open>dashboard/internal/config/config.go\<close> and the construction of the store from a configuration
  (\<^verbatim>\<open>store.New\<close>). Reading the file, decoding YAML, the environment and dialling a location are
  arguments. \<^verbatim>\<open>time.ParseDuration\<close> is the standard library's: decimal numbers with an optional
  fraction and a unit, added up in unsigned 64-bit arithmetic.
\<close>

section \<open>Durations as text\<close>

definition unit_of :: "string \<Rightarrow> int option" where
  "unit_of u = map_of [(''ns'', 1), (''us'', 1000), ([CHR 0xC2, CHR 0xB5, CHR ''s''], 1000),
     ([CHR 0xCE, CHR 0xBC, CHR ''s''], 1000), (''ms'', 1000000), (''s'', second), (''m'', minute), (''h'', hour)] u"

definition two63 :: int where
  "two63 = 9223372036854775808"

definition two64 :: int where
  "two64 = 18446744073709551616"

text \<open>\<^verbatim>\<open>leadingInt\<close>: the digits at the front, unless their value passes \<open>2 ^ 63\<close>.\<close>

fun leadingInt :: "int \<Rightarrow> string \<Rightarrow> (int \<times> string) option" where
  "leadingInt x [] = Some (x, [])"
| "leadingInt x (c # cs) =
     (if \<not> is_digit c then Some (x, c # cs)
      else if two63 div 10 < x then None
      else if two63 < x * 10 + digit_val c then None
      else leadingInt (x * 10 + digit_val c) cs)"

text \<open>\<^verbatim>\<open>leadingFraction\<close>: the digits that fit, the scale they have, and the rest.\<close>

fun leadingFraction :: "int \<Rightarrow> rat \<Rightarrow> bool \<Rightarrow> string \<Rightarrow> int \<times> rat \<times> string" where
  "leadingFraction x scale over [] = (x, scale, [])"
| "leadingFraction x scale over (c # cs) =
     (if \<not> is_digit c then (x, scale, c # cs)
      else if over then leadingFraction x scale over cs
      else if (two63 - 1) div 10 < x then leadingFraction x scale True cs
      else if two63 < x * 10 + digit_val c then leadingFraction x scale True cs
      else leadingFraction (x * 10 + digit_val c) (f64_mul scale 10) False cs)"

definition unit_end :: "char \<Rightarrow> bool" where
  "unit_end c \<longleftrightarrow> c = CHR ''.'' \<or> is_digit c"

text \<open>One number with its unit: its value and the rest of the text.\<close>

definition duration_term :: "string \<Rightarrow> (int \<times> string) option" where
  "duration_term s =
     (if s = [] \<or> \<not> unit_end (hd s) then None
      else case leadingInt 0 s of None \<Rightarrow> None
      | Some (v, s1) \<Rightarrow>
          (let pre = length s1 \<noteq> length s;
               dot = (s1 \<noteq> [] \<and> hd s1 = CHR ''.'');
               (f, scale, s2) = (if dot then leadingFraction 0 1 False (tl s1) else (0, 1, s1));
               post = dot \<and> length s2 \<noteq> length (tl s1);
               u = takeWhile (\<lambda>c. \<not> unit_end c) s2;
               rest = dropWhile (\<lambda>c. \<not> unit_end c) s2
           in if \<not> pre \<and> \<not> post then None
              else if u = [] then None
              else case unit_of u of None \<Rightarrow> None
              | Some un \<Rightarrow>
                  (if two63 div un < v then None
                   else let v1 = v * un + (if 0 < f
                            then \<lfloor>f64_mul (f64_of_int f) (f64_div (f64_of_int un) scale)\<rfloor> else 0)
                        in if 0 < f \<and> two63 < v1 then None else Some (v1, rest))))"

lemma leadingInt_length: "leadingInt x s = Some (v, r) \<Longrightarrow> length r \<le> length s"
  by (induction x s rule: leadingInt.induct) (auto split: if_splits)

lemma leadingFraction_length: "leadingFraction x sc ov s = (f, sc', r) \<Longrightarrow> length r \<le> length s"
  by (induction x sc ov s rule: leadingFraction.induct) (auto split: if_splits)

lemma duration_term_length:
  assumes "duration_term s = Some (v, r)"
  shows "length r < length s"
proof -
  from assms obtain w s1 where 1: "leadingInt 0 s = Some (w, s1)"
    by (auto simp: duration_term_def split: if_splits option.splits)
  let ?dot = "s1 \<noteq> [] \<and> hd s1 = CHR ''.''"
  obtain f sc s2 where 2: "(if ?dot then leadingFraction 0 1 False (tl s1) else (0, 1, s1)) = (f, sc, s2)"
    by (rule prod_cases3)
  have le: "length s2 \<le> length s1"
  proof (cases "?dot")
    case False
    with 2 have "(0, 1, s1) = (f, sc, s2)" by (simp only: if_False)
    then show ?thesis by simp
  next
    case True
    with 2 have "leadingFraction 0 1 False (tl s1) = (f, sc, s2)" by simp
    from leadingFraction_length [OF this] show ?thesis by simp
  qed
  have "takeWhile (\<lambda>c. \<not> unit_end c) s2 \<noteq> []" "r = dropWhile (\<lambda>c. \<not> unit_end c) s2"
    using assms unfolding duration_term_def 1 by (auto simp: 2 Let_def split: if_splits option.splits)
  moreover have "length s2 = length (takeWhile (\<lambda>c. \<not> unit_end c) s2) + length (dropWhile (\<lambda>c. \<not> unit_end c) s2)"
    by (metis length_append takeWhile_dropWhile_id)
  moreover note leadingInt_length [OF 1]
  ultimately show ?thesis using le by (cases "takeWhile (\<lambda>c. \<not> unit_end c) s2") auto
qed

function duration_sum :: "int \<Rightarrow> string \<Rightarrow> int option" where
  "duration_sum d s =
     (if s = [] then Some d
      else case duration_term s of None \<Rightarrow> None
      | Some (v, rest) \<Rightarrow>
          (let d' = (d + v) mod two64 in if two63 < d' then None else duration_sum d' rest))"
  by auto
termination
  by (relation "measure (\<lambda>(_, s). length s)") (auto dest: duration_term_length)

declare duration_sum.simps [simp del]

definition parse_duration :: "string \<Rightarrow> duration option" where
  "parse_duration s =
     (let neg = (case s of c # _ \<Rightarrow> c = CHR ''-'' | [] \<Rightarrow> False);
          body = (case s of c # cs \<Rightarrow> if c = CHR ''-'' \<or> c = CHR ''+'' then cs else s | [] \<Rightarrow> [])
      in if body = ''0'' then Some 0
         else if body = [] then None
         else case duration_sum 0 body of None \<Rightarrow> None
         | Some d \<Rightarrow> (if neg then Some (wrap64 (- d)) else if two63 - 1 < d then None else Some d))"

lemma duration_sum_range: "duration_sum d s = Some v \<Longrightarrow> 0 \<le> d \<Longrightarrow> d \<le> two63 \<Longrightarrow> 0 \<le> v \<and> v \<le> two63"
proof (induction d s rule: duration_sum.induct)
  case (1 d s)
  show ?case
  proof (cases "s = []")
    case True
    with 1 show ?thesis by (simp add: duration_sum.simps)
  next
    case False
    then obtain w rest where t: "duration_term s = Some (w, rest)" "\<not> two63 < (d + w) mod two64"
        "duration_sum ((d + w) mod two64) rest = Some v"
      using 1(2) by (subst (asm) duration_sum.simps) (auto simp: Let_def split: option.splits if_splits)
    have "0 \<le> (d + w) mod two64" by (simp add: two64_def)
    with 1(1) [OF False t(1) refl refl t(2)] t show ?thesis by (simp add: not_less)
  qed
qed

lemma parse_duration_range: "parse_duration s = Some d \<Longrightarrow> in_int64 d"
  using duration_sum_range [where d = 0]
  by (fastforce simp: parse_duration_def Let_def in_int64_def min_int64_def max_int64_def two63_def
      intro: wrap64_range [unfolded in_int64_def min_int64_def max_int64_def] split: if_splits option.splits list.splits)

section \<open>The configuration\<close>

record location =
  lc_name :: string
  lc_addr :: string
  lc_tls :: bool
  lc_username :: string
  lc_password :: string
  lc_db :: int
  lc_primary :: bool

record config =
  cf_http_addr :: string
  cf_rollup_interval :: string
  cf_backfill_pace :: string
  cf_retention_days :: int
  cf_locations :: "location list"

datatype config_error =
    ReadConfig string
  | ParseConfig string
  | NoLocations
  | NameAndAddrRequired
  | NameUsedTwice string
  | NotOnePrimary
  | RetentionTooShort int
  | BadInterval
  | IntervalNotPositive string
  | BadPace
  | PaceNegative string

definition envKey :: "string \<Rightarrow> string" where
  "envKey name = map (\<lambda>c. if c = CHR ''-'' then CHR ''_'' else upper_char c) name"

text \<open>The environment gives an empty text for a variable that is not set.\<close>

definition default_password :: "(string \<Rightarrow> string) \<Rightarrow> location \<Rightarrow> location" where
  "default_password env loc =
     (if lc_password loc = [] \<and> env (''VALKEY_PASSWORD_'' @ envKey (lc_name loc)) \<noteq> []
      then loc\<lparr>lc_password := env (''VALKEY_PASSWORD_'' @ envKey (lc_name loc))\<rparr>
      else loc)"

definition applyDefaults :: "(string \<Rightarrow> string) \<Rightarrow> config \<Rightarrow> config" where
  "applyDefaults env c =
     c\<lparr>cf_http_addr := (if cf_http_addr c = [] then '':8080'' else cf_http_addr c),
       cf_rollup_interval := (if cf_rollup_interval c = [] then ''5m'' else cf_rollup_interval c),
       cf_backfill_pace := (if cf_backfill_pace c = [] then ''10ms'' else cf_backfill_pace c),
       cf_retention_days := (if cf_retention_days c = 0 then 90 else cf_retention_days c),
       cf_locations := map (default_password env) (cf_locations c)\<rparr>"

text \<open>The loop of \<^verbatim>\<open>validate\<close>: the number of primaries, or the first error.\<close>

fun scan_locations :: "location list \<Rightarrow> string list \<Rightarrow> nat \<Rightarrow> config_error + nat" where
  "scan_locations [] seen n = Inr n"
| "scan_locations (loc # locs) seen n =
     (if lc_name loc = [] \<or> lc_addr loc = [] then Inl NameAndAddrRequired
      else if lc_name loc \<in> set seen then Inl (NameUsedTwice (lc_name loc))
      else scan_locations locs (lc_name loc # seen) (if lc_primary loc then Suc n else n))"

definition RollupDuration :: "config \<Rightarrow> duration option" where
  "RollupDuration c = parse_duration (cf_rollup_interval c)"

definition BackfillPaceDuration :: "config \<Rightarrow> duration option" where
  "BackfillPaceDuration c = parse_duration (cf_backfill_pace c)"

definition validate :: "config \<Rightarrow> config_error option" where
  "validate c =
     (if cf_locations c = [] then Some NoLocations
      else case scan_locations (cf_locations c) [] 0 of
        Inl e \<Rightarrow> Some e
      | Inr n \<Rightarrow>
          (if n \<noteq> 1 then Some NotOnePrimary
           else if cf_retention_days c < 1 then Some (RetentionTooShort (cf_retention_days c))
           else case RollupDuration c of None \<Rightarrow> Some BadInterval
           | Some interval \<Rightarrow>
               (if interval \<le> 0 then Some (IntervalNotPositive (cf_rollup_interval c))
                else case BackfillPaceDuration c of None \<Rightarrow> Some BadPace
                | Some pace \<Rightarrow> (if pace < 0 then Some (PaceNegative (cf_backfill_pace c)) else None))))"

definition Load :: "(string \<Rightarrow> string result) \<Rightarrow> (string \<Rightarrow> config result) \<Rightarrow> (string \<Rightarrow> string) \<Rightarrow> string
    \<Rightarrow> config_error + config" where
  "Load readFile decode env path =
     (case readFile path of
        Inl e \<Rightarrow> Inl (ReadConfig e)
      | Inr data \<Rightarrow>
          (case decode data of
             Inl e \<Rightarrow> Inl (ParseConfig e)
           | Inr cfg \<Rightarrow>
               (let c = applyDefaults env cfg
                in case validate c of Some e \<Rightarrow> Inl e | None \<Rightarrow> Inr c)))"

definition Primary :: "config \<Rightarrow> location option" where
  "Primary c = List.find lc_primary (cf_locations c)"

section \<open>The store of a configuration\<close>

text \<open>
  \<^verbatim>\<open>store.New\<close>: the connections in order, the primary by name. A configuration that was validated names
  no location twice, so the name of the primary leads to the connection the code points to.
\<close>

fun dial_all :: "(location \<Rightarrow> 's result) \<Rightarrow> location list \<Rightarrow> (string, 's) gomap \<Rightarrow> string option
    \<Rightarrow> ((string, 's) gomap \<times> string option) result" where
  "dial_all dial [] conns prim = Inr (conns, prim)"
| "dial_all dial (loc # locs) conns prim =
     (case dial loc of
        Inl e \<Rightarrow> Inl (''location '' @ lc_name loc @ '': '' @ e)
      | Inr c \<Rightarrow> dial_all dial locs (map_put (lc_name loc) c conns)
                  (if lc_primary loc then Some (lc_name loc) else prim))"

definition NewStore :: "(location \<Rightarrow> 's result) \<Rightarrow> config \<Rightarrow> 's store result" where
  "NewStore dial cfg =
     (case dial_all dial (cf_locations cfg) [] None of
        Inl e \<Rightarrow> Inl e
      | Inr (conns, None) \<Rightarrow> Inl ''no primary location configured''
      | Inr (conns, Some p) \<Rightarrow>
          Inr \<lparr>st_locations = conns, st_primary = p,
            st_retention = wrap64 (cf_retention_days cfg * 24 * 3600),
            st_retention_days = cf_retention_days cfg\<rparr>)"

section \<open>What validation means\<close>

lemma scan_locations_ok:
  "scan_locations locs seen n = Inr k \<longleftrightarrow>
     (\<forall>loc \<in> set locs. lc_name loc \<noteq> [] \<and> lc_addr loc \<noteq> [] \<and> lc_name loc \<notin> set seen)
     \<and> distinct (map lc_name locs) \<and> k = n + length (filter lc_primary locs)"
  by (induction locs arbitrary: seen n) (auto simp: image_iff split: if_splits dest: sym)

definition valid_config :: "config \<Rightarrow> bool" where
  "valid_config c \<longleftrightarrow> (\<forall>loc \<in> set (cf_locations c). lc_name loc \<noteq> [] \<and> lc_addr loc \<noteq> [])
     \<and> distinct (map lc_name (cf_locations c)) \<and> length (filter lc_primary (cf_locations c)) = 1
     \<and> 1 \<le> cf_retention_days c
     \<and> (\<exists>interval. RollupDuration c = Some interval \<and> 0 < interval)
     \<and> (\<exists>pace. BackfillPaceDuration c = Some pace \<and> 0 \<le> pace)"

lemma validate_valid: "validate c = None \<longleftrightarrow> valid_config c"
proof -
  have "scan_locations (cf_locations c) [] 0 = Inr (Suc 0) \<longleftrightarrow>
      (\<forall>loc \<in> set (cf_locations c). lc_name loc \<noteq> [] \<and> lc_addr loc \<noteq> [])
     \<and> distinct (map lc_name (cf_locations c)) \<and> length (filter lc_primary (cf_locations c)) = 1"
    using scan_locations_ok [of "cf_locations c" "[]" 0 "Suc 0"] by auto
  then show ?thesis
    by (auto simp: validate_def valid_config_def not_le not_less split: sum.splits option.splits if_splits)
qed

lemma dial_all_ok:
  assumes "dial_all dial locs conns prim = Inr (conns', prim')" "wf_map conns"
    and "distinct (map fst conns @ map lc_name locs)"
  shows "map fst conns' = map fst conns @ map lc_name locs"
    and "\<forall>loc \<in> set locs. map_of conns' (lc_name loc) = (case dial loc of Inr c \<Rightarrow> Some c | Inl e \<Rightarrow> None)"
    and "\<forall>k. k \<notin> lc_name ` set locs \<longrightarrow> map_of conns' k = map_of conns k"
    and "prim' = (case rev (filter lc_primary locs) of loc # _ \<Rightarrow> Some (lc_name loc) | [] \<Rightarrow> prim)"
proof -
  have "map fst conns' = map fst conns @ map lc_name locs
    \<and> (\<forall>loc \<in> set locs. map_of conns' (lc_name loc) = (case dial loc of Inr c \<Rightarrow> Some c | Inl e \<Rightarrow> None))
    \<and> (\<forall>k. k \<notin> lc_name ` set locs \<longrightarrow> map_of conns' k = map_of conns k)
    \<and> prim' = (case rev (filter lc_primary locs) of loc # _ \<Rightarrow> Some (lc_name loc) | [] \<Rightarrow> prim)"
    using assms
  proof (induction locs arbitrary: conns prim)
    case (Cons loc locs)
    then obtain c where c: "dial loc = Inr c" "dial_all dial locs (map_put (lc_name loc) c conns)
        (if lc_primary loc then Some (lc_name loc) else prim) = Inr (conns', prim')"
      by (auto split: sum.splits)
    have new: "map fst (map_put (lc_name loc) c conns) = map fst conns @ [lc_name loc]"
      using Cons.prems(3) by (simp add: update_keys)
    have "map fst conns' = (map fst conns @ [lc_name loc]) @ map lc_name locs
      \<and> (\<forall>l \<in> set locs. map_of conns' (lc_name l) = (case dial l of Inr c \<Rightarrow> Some c | Inl e \<Rightarrow> None))
      \<and> (\<forall>k. k \<notin> lc_name ` set locs \<longrightarrow> map_of conns' k = map_of (map_put (lc_name loc) c conns) k)
      \<and> prim' = (case rev (filter lc_primary locs) of l # _ \<Rightarrow> Some (lc_name l)
          | [] \<Rightarrow> if lc_primary loc then Some (lc_name loc) else prim)"
      using Cons.IH [OF c(2)] Cons.prems(2,3) new by simp
    moreover have "lc_name loc \<notin> lc_name ` set locs" using Cons.prems(3) by auto
    ultimately show ?case
      using c(1) by (auto split: list.splits simp: image_iff)
  qed simp
  then show "map fst conns' = map fst conns @ map lc_name locs"
    "\<forall>loc \<in> set locs. map_of conns' (lc_name loc) = (case dial loc of Inr c \<Rightarrow> Some c | Inl e \<Rightarrow> None)"
    "\<forall>k. k \<notin> lc_name ` set locs \<longrightarrow> map_of conns' k = map_of conns k"
    "prim' = (case rev (filter lc_primary locs) of loc # _ \<Rightarrow> Some (lc_name loc) | [] \<Rightarrow> prim)"
    by blast+
qed

lemma dial_all_total:
  "\<forall>loc \<in> set locs. \<exists>c. dial loc = Inr c \<Longrightarrow> \<exists>r. dial_all dial locs conns prim = Inr r"
  by (induction locs arbitrary: conns prim) auto

lemma filter_one: "length (filter p xs) = 1 \<Longrightarrow> \<exists>x. filter p xs = [x] \<and> List.find p xs = Some x"
  by (induction xs) (auto simp: length_Suc_conv)

section \<open>Properties\<close>

text \<open>
  A configuration is accepted exactly when every location has a name and an address, no name
  occurs twice, one location is primary, the retention is at least a day, the interval is a
  positive duration and the pace one that is not negative.
\<close>

theorem validate_accepts:
  "validate c = None \<longleftrightarrow>
     list_all (\<lambda>loc. lc_name loc \<noteq> [] \<and> lc_addr loc \<noteq> []) (cf_locations c)
     \<and> distinct (map lc_name (cf_locations c)) \<and> length (filter lc_primary (cf_locations c)) = 1
     \<and> 1 \<le> cf_retention_days c
     \<and> (\<exists>interval. RollupDuration c = Some interval \<and> 0 < interval)
     \<and> (\<exists>pace. BackfillPaceDuration c = Some pace \<and> 0 \<le> pace)"
  by (simp only: validate_valid valid_config_def list_all_iff)

lemma loaded_dials:
  assumes "Load readFile decode env path = Inr cfg" "\<forall>loc \<in> set (cf_locations cfg). \<exists>c. dial loc = Inr c"
  obtains p conns where "valid_config cfg" "filter lc_primary (cf_locations cfg) = [p]" "Primary cfg = Some p"
    "dial_all dial (cf_locations cfg) [] None = Inr (conns, Some (lc_name p))"
proof -
  from assms(1) have v: "valid_config cfg"
    by (auto simp: Load_def Let_def validate_valid split: sum.splits option.splits)
  then obtain p where p: "filter lc_primary (cf_locations cfg) = [p]" "Primary cfg = Some p"
    using filter_one by (fastforce simp: valid_config_def Primary_def)
  obtain conns prim where d: "dial_all dial (cf_locations cfg) [] None = Inr (conns, prim)"
    using dial_all_total [OF assms(2)] by fastforce
  have dist: "distinct (map fst [] @ map lc_name (cf_locations cfg))" using v by (simp add: valid_config_def)
  have "prim = Some (lc_name p)" using dial_all_ok(4) [OF d _ dist] p(1) by simp
  with d have "dial_all dial (cf_locations cfg) [] None = Inr (conns, Some (lc_name p))" by simp
  with v p show thesis by (rule that)
qed

lemma loaded_store:
  assumes "Load readFile decode env path = Inr cfg" "\<forall>loc \<in> set (cf_locations cfg). \<exists>c. dial loc = Inr c"
  shows "\<exists>st. NewStore dial cfg = Inr st"
proof -
  obtain p :: location and conns where "dial_all dial (cf_locations cfg) [] None = Inr (conns, Some (lc_name p))"
    by (rule loaded_dials [OF assms])
  then show ?thesis by (simp add: NewStore_def)
qed

text \<open>
  C18: a configuration that loads gives, once every location can be dialled, a well-formed store: one
  connection per location under its name, the primary among them, and a retention of at least a
  day; and the interval of its ticker is a positive duration that fits 64 bits.
\<close>

theorem loaded_config_gives_store:
  assumes "Load readFile decode env path = Inr cfg" "\<forall>loc \<in> set (cf_locations cfg). \<exists>c. dial loc = Inr c"
  shows "(\<exists>st p. NewStore dial cfg = Inr st \<and> store_ok st \<and> Primary cfg = Some p \<and> lc_primary p
      \<and> Inr (primary_conn st) = dial p
      \<and> map fst (st_locations st) = map lc_name (cf_locations cfg)
      \<and> 1 \<le> st_retention_days st)
    \<and> (\<exists>interval. RollupDuration cfg = Some interval \<and> 0 < interval \<and> interval \<le> max_int64)"
proof -
  obtain p conns where v: "valid_config cfg" and p: "filter lc_primary (cf_locations cfg) = [p]" "Primary cfg = Some p"
    and d: "dial_all dial (cf_locations cfg) [] None = Inr (conns, Some (lc_name p))"
    using loaded_dials [OF assms] .
  have dist: "distinct (map fst [] @ map lc_name (cf_locations cfg))" using v by (simp add: valid_config_def)
  note ok = dial_all_ok [OF d _ dist, simplified]
  have "set (filter lc_primary (cf_locations cfg)) = {p}" using p(1) by simp
  then have "p \<in> set (cf_locations cfg)" "lc_primary p" by auto
  moreover obtain c where "dial p = Inr c" using assms(2) calculation(1) by blast
  moreover have "map_of conns (lc_name p) = Some c" using ok(2) calculation by auto
  ultimately show ?thesis
    using v d p(2) ok(1) dist parse_duration_range
    by (auto simp: NewStore_def store_ok_def primary_conn_def valid_config_def RollupDuration_def in_int64_def)
qed

definition example_location :: "string \<Rightarrow> bool \<Rightarrow> location" where
  "example_location name prim = \<lparr>lc_name = name, lc_addr = ''valkey:6379'', lc_tls = False, lc_username = '''',
     lc_password = '''', lc_db = 0, lc_primary = prim\<rparr>"

definition example_config :: config where
  "example_config = \<lparr>cf_http_addr = '''', cf_rollup_interval = ''1m30s'', cf_backfill_pace = '''',
     cf_retention_days = 0, cf_locations = [example_location ''eu-west'' True, example_location ''us'' False]\<rparr>"

theorem loaded_config_gives_store_witness:
  "\<exists>st. NewStore (\<lambda>loc. Inr (lc_password loc)) (applyDefaults (\<lambda>v. if v = ''VALKEY_PASSWORD_EU_WEST'' then ''pw'' else '''')
      example_config) = Inr st \<and> store_ok st \<and> primary_conn st = ''pw''"
proof -
  let ?env = "\<lambda>v. if v = ''VALKEY_PASSWORD_EU_WEST'' then ''pw'' else ''''"
  let ?cfg = "applyDefaults ?env example_config"
  have l: "Load Inr (\<lambda>_. Inr example_config) ?env [] = Inr ?cfg" by code_simp
  have p: "Primary ?cfg = Some ((example_location ''eu-west'' True)\<lparr>lc_password := ''pw''\<rparr>)" by code_simp
  show ?thesis
    using loaded_config_gives_store [OF l, of "\<lambda>loc. Inr (lc_password loc)"] p by auto
qed

end
