(* ===== verification/Dashboard_Views.thy ===== *)
theory Dashboard_Views
  imports Store_Incidents Store_Latency
begin

text \<open>
  \<^verbatim>\<open>dashboard/internal/server/server.go\<close>, the data behind the pages and the API: day bars, current
  status, uptime, ranges, incident views and the handlers. A handler returns what it renders or
  writes as JSON; an error on the left stands for the answer 503 of \<^verbatim>\<open>unavailable\<close>. The current time
  is an argument. The templates and the JSON encoding of the answers are left out.
\<close>

section \<open>Names and durations\<close>

definition splitGroup :: "string \<Rightarrow> string \<times> string" where
  "splitGroup ident =
     (case cut ident ''_'' of
        None \<Rightarrow> ([], ident)
      | Some (before, rest) \<Rightarrow>
          (if before = [] then ([], ident)
           else if rest = [] \<or> contains rest ''_'' then ([], ident)
           else (before, rest)))"

definition rat_trunc :: "rat \<Rightarrow> int" where
  "rat_trunc x = (if 0 \<le> x then \<lfloor>x\<rfloor> else \<lceil>x\<rceil>)"

definition dur_seconds :: "duration \<Rightarrow> rat" where
  "dur_seconds d = f64_add (f64_of_int (go_div d second)) (f64_div (f64_of_int (go_mod d second)) 1000000000)"

definition humanDuration :: "duration \<Rightarrow> string" where
  "humanDuration d =
     (if d < minute then itoa (rat_trunc (dur_seconds d)) @ ''s''
      else let r = dur_round d minute;
               h = go_div r hour;
               m = go_div (go_mod r hour) minute
           in if h = 0 then itoa m @ ''m'' else itoa h @ ''h'' @ itoa m @ ''m'')"

text \<open>\<^verbatim>\<open>time.Format\<close> under the layout of the incident times.\<close>

definition format_datetime :: "time \<Rightarrow> string" where
  "format_datetime t =
     (let s = unix t mod 86400
      in format_date t @ '' '' @ pad_int 2 (s div 3600) @ '':'' @ pad_int 2 (s div 60 mod 60)
           @ '':'' @ pad_int 2 (s mod 60) @ '' UTC'')"

section \<open>Day bars\<close>

record day_bar =
  db_date :: string
  db_status :: string
  db_label :: string
  db_uptime :: string
  db_failed :: int
  db_total :: int
  db_color :: string

text \<open>\<^verbatim>\<open>%.1f\<close> of a finite value: the nearest tenth, ties to even.\<close>

definition format_tenth :: "rat \<Rightarrow> string" where
  "format_tenth x =
     (let n = round_even (\<bar>x\<bar> * 10)
      in (if x < 0 then ''-'' else []) @ itoa (n div 10) @ ''.'' @ itoa (n mod 10))"

definition anchors :: "rat list" where
  "anchors = [100, f64 (999 / 10), 99, 95, 90]"

text \<open>The loop over the anchors, from the index \<open>i\<close>; it stops at the first one that is reached.\<close>

fun anchor_step :: "rat \<Rightarrow> int \<Rightarrow> rat list \<Rightarrow> rat" where
  "anchor_step up i (hi # lo # as) =
     (if lo \<le> up
      then f64_add (f64_of_int (i - 1)) (f64_div (f64_sub hi up) (f64_sub hi lo))
      else anchor_step up (i + 1) (lo # as))"
| "anchor_step up i as = f64_of_int (int (length anchors) - 1)"

definition uptime_of :: "int \<Rightarrow> int \<Rightarrow> rat" where
  "uptime_of success tot = f64_div (f64_mul 100 (f64_of_int success)) (f64_of_int tot)"

definition color_mix :: "rat \<Rightarrow> string \<times> string \<times> rat" where
  "color_mix step =
     (if 2 < step then (''degraded'', ''major_outage'', f64_div (f64_sub step 2) 2)
      else (''operational'', ''degraded'', f64_div step 2))"

definition uptimeColor :: "int \<Rightarrow> int \<Rightarrow> string" where
  "uptimeColor success tot =
     (if tot \<le> success then ''var(--operational)''
      else case color_mix (anchor_step (uptime_of success tot) 1 anchors) of
        (from', to', mix) \<Rightarrow>
          ''color-mix(in srgb, var(--'' @ to' @ '') '' @ format_tenth (f64_mul 100 mix) @ ''%, var(--''
            @ from' @ ''))'')"

text \<open>The worst status of the hours of each day from \<open>from'\<close> on.\<close>

fun worst_hour :: "time \<Rightarrow> int \<times> aggregate_rollup \<Rightarrow> (string, string) gomap \<Rightarrow> (string, string) gomap" where
  "worst_hour from' (epoch, r) byDay =
     (if epoch < unix from' then byDay
      else let d = format_date (of_unix epoch)
           in map_put d (WorstAggregate (get_or [] byDay d) (ag_status r)) byDay)"

definition day_bar_of :: "(string, string) gomap \<Rightarrow> (string, day_count) gomap \<Rightarrow> time \<Rightarrow> day_bar" where
  "day_bar_of byDay counts dy =
     (let key = format_date dy;
          st = get_or [] byDay key;
          c = get_or zero_dc counts key
      in \<lparr>db_date = key, db_status = (if st = [] then AggregateUnknown else st), db_label = key,
          db_uptime = (if 0 < dc_total c then FormatPercent (dc_success c) (dc_total c) else []),
          db_failed = (if 0 < dc_total c then wrap64 (dc_total c - dc_success c) else 0),
          db_total = (if 0 < dc_total c then dc_total c else 0),
          db_color = (if 0 < dc_total c then uptimeColor (dc_success c) (dc_total c) else [])\<rparr>)"

definition first_bar :: "int \<Rightarrow> time \<Rightarrow> time" where
  "first_bar retention now = time_truncate (add_days now (- (retention - 1))) day"

definition dailyBars :: "int \<Rightarrow> history \<Rightarrow> time \<Rightarrow> day_bar list" where
  "dailyBars retention hist now =
     (let from' = first_bar retention now;
          byDay = fold (worst_hour from') (hi_hours hist) [];
          counts = ByDay hist now
      in map (\<lambda>d. day_bar_of byDay counts (add_days from' (int d))) [0..<nat retention])"

section \<open>Status and uptime\<close>

definition latest_hour :: "int \<Rightarrow> (int, aggregate_rollup) gomap \<Rightarrow> int" where
  "latest_hour since hours =
     fold (\<lambda>(epoch, _) latest. if since \<le> epoch \<and> latest < epoch then epoch else latest) hours (-1)"

definition currentStatus :: "history \<Rightarrow> time \<Rightarrow> string" where
  "currentStatus hist now =
     (let latest = latest_hour (unix (now - StatusMaxAge)) (hi_hours hist)
      in if latest < 0 then AggregateUnknown else ag_status (get_or zero_ag (hi_hours hist) latest))"

definition sla :: "history \<Rightarrow> int \<Rightarrow> time \<Rightarrow> string" where
  "sla hist days now = (case Uptime hist days now of (success, tot) \<Rightarrow> FormatPercent success tot)"

section \<open>The dashboard page\<close>

record service_overview =
  so_id :: string
  so_display :: string
  so_meta :: meta
  so_status :: string
  so_sla :: string
  so_daily :: "day_bar list"

record service_group =
  sg_name :: string
  sg_services :: "service_overview list"

record dashboard_data =
  dd_name :: string
  dd_groups :: "service_group list"

definition zero_meta :: meta where
  "zero_meta = \<lparr>mt_endpoint = [], mt_driver = [], mt_name = []\<rparr>"

definition meta_or_zero :: "'s valkey_client \<Rightarrow> 's store \<Rightarrow> string \<Rightarrow> string \<Rightarrow> meta" where
  "meta_or_zero vc st dash svc =
     (case GetMeta vc st dash svc of Inr m \<Rightarrow> m | Inl _ \<Rightarrow> zero_meta)"

definition display_name :: "string \<Rightarrow> meta \<Rightarrow> string" where
  "display_name svc m = (if mt_name m \<noteq> [] then mt_name m else svc)"

definition overview_of :: "int \<Rightarrow> string \<Rightarrow> meta \<Rightarrow> history \<Rightarrow> time \<Rightarrow> service_overview" where
  "overview_of retention svc m hist now =
     \<lparr>so_id = svc, so_display = snd (splitGroup (display_name svc m)), so_meta = m,
      so_status = currentStatus hist now, so_sla = sla hist 30 now, so_daily = dailyBars retention hist now\<rparr>"

type_synonym groups = "(string, nat) gomap \<times> service_group list"

definition add_overview :: "string \<Rightarrow> service_overview \<Rightarrow> groups \<Rightarrow> groups" where
  "add_overview grp ov gs =
     (case gs of (idx, groups) \<Rightarrow>
        (let i = get_or (length groups) idx grp;
             (idx', groups') = (if has_key idx grp then (idx, groups)
                else (map_put grp i idx, groups @ [\<lparr>sg_name = grp, sg_services = []\<rparr>]))
         in (idx', groups'[i := (groups' ! i)\<lparr>sg_services := sg_services (groups' ! i) @ [ov]\<rparr>])))"

fun add_services :: "'s valkey_client \<Rightarrow> 's store \<Rightarrow> int \<Rightarrow> string \<Rightarrow> time \<Rightarrow> string list \<Rightarrow> groups
    \<Rightarrow> groups result" where
  "add_services vc st retention dash now [] gs = Inr gs"
| "add_services vc st retention dash now (svc # svcs) gs =
     (case History vc st dash svc now of
        Inl e \<Rightarrow> Inl e
      | Inr hist \<Rightarrow>
          (let m = meta_or_zero vc st dash svc
           in add_services vc st retention dash now svcs
                (add_overview (fst (splitGroup (display_name svc m))) (overview_of retention svc m hist now) gs)))"

definition handleDashboard :: "'s valkey_client \<Rightarrow> 's store \<Rightarrow> int \<Rightarrow> string \<Rightarrow> time \<Rightarrow> dashboard_data result" where
  "handleDashboard vc st retention dash now =
     (case ListServices vc st dash of
        Inl e \<Rightarrow> Inl e
      | Inr services \<Rightarrow>
          (case add_services vc st retention dash now (sort services) ([], []) of
             Inl e \<Rightarrow> Inl e
           | Inr (_, groups) \<Rightarrow> Inr \<lparr>dd_name = dash, dd_groups = groups\<rparr>))"

section \<open>Ranges\<close>

definition maxPlotPoints :: int where
  "maxPlotPoints = 1440"

record range_option =
  ro_key :: string
  ro_label :: string
  ro_days :: int

definition fixed_ranges :: "range_option list" where
  "fixed_ranges = [\<lparr>ro_key = ''1d'', ro_label = ''24 hours'', ro_days = 1\<rparr>,
     \<lparr>ro_key = ''7d'', ro_label = ''7 days'', ro_days = 7\<rparr>,
     \<lparr>ro_key = ''30d'', ro_label = ''30 days'', ro_days = 30\<rparr>]"

text \<open>No range at all would index the empty slice, which panics: no value.\<close>

definition rangeOptions :: "int \<Rightarrow> range_option list option" where
  "rangeOptions retention =
     (let opts = filter (\<lambda>o'. ro_days o' \<le> retention) fixed_ranges
      in if opts = [] then None
         else if ro_days (last opts) < retention
         then Some (opts @ [\<lparr>ro_key = itoa retention @ ''d'', ro_label = itoa retention @ '' days'', ro_days = retention\<rparr>])
         else Some opts)"

definition parseRange :: "int \<Rightarrow> string \<Rightarrow> range_option option" where
  "parseRange retention key =
     (case rangeOptions retention of
        None \<Rightarrow> None
      | Some opts \<Rightarrow>
          (case List.find (\<lambda>o'. ro_key o' = key) opts of Some o' \<Rightarrow> Some o' | None \<Rightarrow> Some (hd opts)))"

definition range_duration :: "range_option \<Rightarrow> duration" where
  "range_duration rng = wrap64 (wrap64 (- ro_days rng * 24) * hour)"

definition handleAPILatency :: "'s valkey_client \<Rightarrow> 's store \<Rightarrow> int \<Rightarrow> string \<Rightarrow> string \<Rightarrow> string \<Rightarrow> time
    \<Rightarrow> latency result option" where
  "handleAPILatency vc st retention dash svc rangeKey now =
     map_option (\<lambda>rng. Latency vc st dash svc (now + range_duration rng) now
         (if ro_days rng \<le> 1 then 0 else maxPlotPoints))
       (parseRange retention rangeKey)"

section \<open>The service page\<close>

record window_view =
  wv_locations :: string
  wv_message :: string
  wv_start :: string
  wv_end :: string
  wv_duration :: string
  wv_count :: int
  wv_ongoing :: bool

definition window_view_of :: "time \<Rightarrow> failure_window \<Rightarrow> window_view" where
  "window_view_of now w =
     (let start = of_unix (fw_start w); end' = of_unix (fw_end w)
      in \<lparr>wv_locations = join '', '' (fw_locations w),
          wv_message = (if fw_message w = [] then ''(no message)'' else fw_message w),
          wv_start = format_datetime start,
          wv_end = (if fw_ongoing w then ''ongoing'' else format_datetime end'),
          wv_duration = (if fw_ongoing w then humanDuration (time_sub now start)
            else if 0 < time_sub end' start then humanDuration (time_sub end' start) else []),
          wv_count = fw_count w,
          wv_ongoing = fw_ongoing w\<rparr>)"

definition failureWindows :: "'s valkey_client \<Rightarrow> 's store \<Rightarrow> string \<Rightarrow> string \<Rightarrow> time \<Rightarrow> time \<Rightarrow> time \<Rightarrow> bool
    \<Rightarrow> window_view list result" where
  "failureWindows vc st dash svc from' to' now live =
     (case FailureWindows vc st dash svc from' to' now live of
        Inl e \<Rightarrow> Inl e
      | Inr raw \<Rightarrow> Inr (map (window_view_of now) raw))"

record service_data =
  sd_dashboard :: string
  sd_service :: string
  sd_display :: string
  sd_group :: string
  sd_meta :: meta
  sd_sla7 :: string
  sd_sla30 :: string
  sd_sla365 :: string
  sd_selected :: string
  sd_ranges :: "range_option list"
  sd_issue_range :: string
  sd_title :: string
  sd_windows :: "window_view list"
  sd_daily :: "day_bar list"

record issue_view =
  iv_from :: time
  iv_to :: time
  iv_title :: string
  iv_day :: string

text \<open>The rolling range that ends now, or the calendar day of the query.\<close>

definition issue_view_of :: "range_option \<Rightarrow> string \<Rightarrow> time \<Rightarrow> issue_view" where
  "issue_view_of rng dayParam now =
     (case parse_date dayParam of
        Some d \<Rightarrow> \<lparr>iv_from = d, iv_to = d + (24 * hour - second),
          iv_title = ''Issues on '' @ format_date d, iv_day = format_date d\<rparr>
      | None \<Rightarrow> \<lparr>iv_from = time_truncate (now + range_duration rng) hour, iv_to = now,
          iv_title = ''Issues (last '' @ ro_label rng @ '')'', iv_day = []\<rparr>)"

definition handleService :: "'s valkey_client \<Rightarrow> 's store \<Rightarrow> int \<Rightarrow> string \<Rightarrow> string \<Rightarrow> string \<Rightarrow> string \<Rightarrow> time
    \<Rightarrow> service_data result option" where
  "handleService vc st retention dash svc rangeKey dayParam now =
     (case History vc st dash svc now of
        Inl e \<Rightarrow> Some (Inl e)
      | Inr hist \<Rightarrow>
          (case (parseRange retention rangeKey, rangeOptions retention) of
             (Some rng, Some ranges) \<Rightarrow>
               (let m = meta_or_zero vc st dash svc;
                    (grp, display) = splitGroup (display_name svc m);
                    iv = issue_view_of rng dayParam now;
                    live = (time_truncate now hour \<le> iv_to iv)
                in Some (case failureWindows vc st dash svc (iv_from iv) (iv_to iv) now live of
                     Inl e \<Rightarrow> Inl e
                   | Inr windows \<Rightarrow>
                       Inr \<lparr>sd_dashboard = dash, sd_service = svc, sd_display = display, sd_group = grp,
                         sd_meta = m, sd_sla7 = sla hist 7 now, sd_sla30 = sla hist 30 now,
                         sd_sla365 = sla hist 365 now, sd_selected = iv_day iv, sd_ranges = ranges,
                         sd_issue_range = ro_key rng, sd_title = iv_title iv, sd_windows = windows,
                         sd_daily = dailyBars retention hist now\<rparr>))
           | _ \<Rightarrow> None))"

section \<open>The JSON API\<close>

definition handleAPIDashboards :: "'s valkey_client \<Rightarrow> 's store \<Rightarrow> string list result" where
  "handleAPIDashboards vc st = ListDashboards vc st"

fun api_items :: "'s valkey_client \<Rightarrow> 's store \<Rightarrow> int \<Rightarrow> string \<Rightarrow> time \<Rightarrow> string list
    \<Rightarrow> (string \<times> meta \<times> day_bar list) list result" where
  "api_items vc st retention dash now [] = Inr []"
| "api_items vc st retention dash now (svc # svcs) =
     (case History vc st dash svc now of
        Inl e \<Rightarrow> Inl e
      | Inr hist \<Rightarrow>
          (case api_items vc st retention dash now svcs of
             Inl e \<Rightarrow> Inl e
           | Inr items \<Rightarrow> Inr ((svc, meta_or_zero vc st dash svc, dailyBars retention hist now) # items)))"

definition handleAPIOverview :: "'s valkey_client \<Rightarrow> 's store \<Rightarrow> int \<Rightarrow> string \<Rightarrow> time
    \<Rightarrow> (string \<times> meta \<times> day_bar list) list result" where
  "handleAPIOverview vc st retention dash now =
     (case ListServices vc st dash of
        Inl e \<Rightarrow> Inl e
      | Inr services \<Rightarrow> api_items vc st retention dash now services)"

definition handleAPIService :: "'s valkey_client \<Rightarrow> 's store \<Rightarrow> int \<Rightarrow> string \<Rightarrow> string \<Rightarrow> time
    \<Rightarrow> (string \<times> meta \<times> (int, aggregate_rollup) gomap \<times> day_bar list) result" where
  "handleAPIService vc st retention dash svc now =
     (case History vc st dash svc now of
        Inl e \<Rightarrow> Inl e
      | Inr hist \<Rightarrow> Inr (svc, meta_or_zero vc st dash svc, hi_hours hist, dailyBars retention hist now))"

section \<open>Formatting for the templates\<close>

text \<open>\<^verbatim>\<open>html.EscapeString\<close>.\<close>

definition html_escape :: "string \<Rightarrow> string" where
  "html_escape s = concat (map (\<lambda>c.
     if c = CHR ''&'' then ''&amp;'' else if c = CHR 0x27 then ''&#39;''
     else if c = CHR ''<'' then ''&lt;'' else if c = CHR ''>'' then ''&gt;''
     else if c = CHR 0x22 then ''&#34;'' else [c]) s)"

text \<open>
  \<^verbatim>\<open>strconv.ParseFloat\<close> of a plain decimal number, the only texts \<^verbatim>\<open>FormatPercent\<close> gives: the binary64
  value nearest to it.
\<close>

definition parse_decimal :: "string \<Rightarrow> rat option" where
  "parse_decimal s =
     (let (whole, frac) = (case cut s ''.'' of None \<Rightarrow> (s, []) | Some p \<Rightarrow> p)
      in if whole @ frac \<noteq> [] \<and> list_all is_digit (whole @ frac)
         then Some (f64 (of_int (digits_val (whole @ frac)) / of_int (10 ^ length frac)))
         else None)"

definition sla_class :: "string \<Rightarrow> string" where
  "sla_class num =
     (case parse_decimal num of
        Some n \<Rightarrow> (if f64 (999 / 10) \<le> n then ''sla-good''
          else if f64 (995 / 10) \<le> n then ''sla-warning'' else ''sla-danger'')
      | None \<Rightarrow> ''sla-good'')"

definition formatSLA :: "string \<Rightarrow> string" where
  "formatSLA s =
     (if s = [] then ''&mdash;''
      else if has_suffix s ''%''
      then ''<span class='' @ [CHR 0x22] @ sla_class (trim_suffix s ''%'') @ [CHR 0x22] @ ''><span class='' @ [CHR 0x22]
             @ ''sla-num'' @ [CHR 0x22] @ ''>'' @ html_escape (trim_suffix s ''%'') @ ''</span><span class='' @ [CHR 0x22]
             @ ''sla-percent'' @ [CHR 0x22] @ ''>%</span></span>''
      else html_escape s)"

definition formatStatus :: "string \<Rightarrow> string" where
  "formatStatus s = replace_byte (CHR ''_'') '' '' s"

definition barClass :: "time \<Rightarrow> string \<Rightarrow> string \<Rightarrow> string" where
  "barClass now st date =
     (let base = ''bar-'' @ st
      in if st = [] \<or> st = ''unknown'' then base
         else case parse_date date of
           Some d \<Rightarrow> (if d < add_days now (-30) then base @ '' bar-old'' else base)
         | None \<Rightarrow> base)"

definition assetURL :: "string \<Rightarrow> (string, string) gomap \<Rightarrow> string" where
  "assetURL name hashes =
     (case map_of hashes name of
        Some h \<Rightarrow> ''/static/'' @ name @ ''?v='' @ h
      | None \<Rightarrow> ''/static/'' @ name)"

end
