(* ===== verification/Dashboard_View_Properties.thy ===== *)
theory Dashboard_View_Properties
  imports Dashboard_Views Store_Examples Valkey_Test_Server
begin

text \<open>
  What the pages of \<^verbatim>\<open>dashboard/internal/server/server.go\<close> promise: the scale of the day colors, the
  days behind the bars, the groups of a dashboard and the ranges of the issue list.
\<close>

section \<open>The scale of the day colors\<close>

definition step_of :: "rat \<Rightarrow> rat" where
  "step_of up = anchor_step up 1 anchors"

lemma segment_bounds:
  fixes up hi lo :: rat
  assumes "lo < hi" "lo \<le> up" "up \<le> hi" "0 < i" "i < 2 ^ 53"
  shows "of_int (i - 1) \<le> f64_add (f64_of_int (i - 1)) (f64_div (f64_sub hi up) (f64_sub hi lo))"
    and "f64_add (f64_of_int (i - 1)) (f64_div (f64_sub hi up) (f64_sub hi lo)) \<le> of_int i"
proof -
  have num: "0 \<le> f64_sub hi up" "f64_sub hi up \<le> f64_sub hi lo"
    using assms by (auto simp: f64_sub_def intro: f64_nonneg f64_mono)
  then have q: "0 \<le> f64_sub hi up / f64_sub hi lo" "f64_sub hi up / f64_sub hi lo \<le> 1"
    by (auto simp: divide_le_eq_1)
  have "of_int 0 \<le> f64_div (f64_sub hi up) (f64_sub hi lo) \<and> f64_div (f64_sub hi up) (f64_sub hi lo) \<le> of_int 1"
    unfolding f64_div_def by (rule f64.rnd_between) (use q in auto)
  moreover have "f64_of_int (i - 1) = of_int (i - 1)" using assms by (intro f64_of_int_exact) auto
  ultimately have "of_int (i - 1) \<le> f64_of_int (i - 1) + f64_div (f64_sub hi up) (f64_sub hi lo)
     \<and> f64_of_int (i - 1) + f64_div (f64_sub hi up) (f64_sub hi lo) \<le> of_int i" by simp
  then have "of_int (i - 1) \<le> f64_add (f64_of_int (i - 1)) (f64_div (f64_sub hi up) (f64_sub hi lo))
     \<and> f64_add (f64_of_int (i - 1)) (f64_div (f64_sub hi up) (f64_sub hi lo)) \<le> of_int i"
    unfolding f64_add_def by (intro f64.rnd_between) (use assms in auto)
  then show "of_int (i - 1) \<le> f64_add (f64_of_int (i - 1)) (f64_div (f64_sub hi up) (f64_sub hi lo))"
    "f64_add (f64_of_int (i - 1)) (f64_div (f64_sub hi up) (f64_sub hi lo)) \<le> of_int i" by simp_all
qed

lemma segment_antimono:
  fixes up up' hi lo :: rat
  assumes "lo < hi" "up \<le> up'"
  shows "f64_add (f64_of_int (i - 1)) (f64_div (f64_sub hi up') (f64_sub hi lo))
    \<le> f64_add (f64_of_int (i - 1)) (f64_div (f64_sub hi up) (f64_sub hi lo))"
proof -
  have "f64_sub hi up' \<le> f64_sub hi up" using assms unfolding f64_sub_def by (intro f64_mono) simp
  moreover have "0 \<le> f64_sub hi lo" using assms unfolding f64_sub_def by (intro f64_nonneg) simp
  ultimately show ?thesis
    unfolding f64_add_def f64_div_def by (intro f64_mono add_left_mono divide_right_mono)
qed

text \<open>Below the last anchor the step is the largest; on the scale it is between its segment's bounds.\<close>

fun descending :: "rat list \<Rightarrow> bool" where
  "descending (hi # lo # as) \<longleftrightarrow> lo < hi \<and> descending (lo # as)"
| "descending _ \<longleftrightarrow> True"

lemma anchor_step_bounds:
  assumes "descending as" "as \<noteq> []" "up \<le> hd as" "0 < i" "i + int (length as) - 1 = int (length anchors)"
  shows "of_int (i - 1) \<le> anchor_step up i as \<and> anchor_step up i as \<le> 4"
  using assms
proof (induction up i as rule: anchor_step.induct)
  case (1 up i hi lo as)
  have i: "i < 5" using "1.prems"(5) by (simp add: anchors_def)
  show ?case
  proof (cases "lo \<le> up")
    case True
    with 1 segment_bounds [of lo hi up i] i show ?thesis by (auto intro: order_trans)
  next
    case False
    with 1 have "of_int (i + 1 - 1) \<le> anchor_step up (i + 1) (lo # as) \<and> anchor_step up (i + 1) (lo # as) \<le> 4"
      by auto
    with False show ?thesis by auto
  qed
qed (simp_all add: anchors_def)

lemma anchor_step_antimono:
  assumes "descending as" "up \<le> up'" "as \<noteq> []" "up' \<le> hd as" "0 < i"
    "i + int (length as) - 1 = int (length anchors)"
  shows "anchor_step up' i as \<le> anchor_step up i as"
  using assms
proof (induction up i as rule: anchor_step.induct)
  case (1 up i hi lo as)
  have i: "i < 5" using "1.prems"(6) by (simp add: anchors_def)
  consider "lo \<le> up" | "up < lo" "lo \<le> up'" | "up' < lo" by linarith
  then show ?case
  proof cases
    case 1
    with "1.prems" segment_antimono [of lo hi up up' i] show ?thesis by auto
  next
    case 2
    have "of_int (i + 1 - 1) \<le> anchor_step up (i + 1) (lo # as)"
      using anchor_step_bounds [of "lo # as" up "i + 1"] "1.prems" 2 by auto
    moreover have "anchor_step up' i (hi # lo # as) \<le> of_int i"
      using segment_bounds(2) [of lo hi up' i] 2 "1.prems" i by auto
    ultimately show ?thesis using 2 by (auto intro: order_trans)
  next
    case 3
    with 1 show ?thesis by auto
  qed
qed simp_all

lemma anchors_descending: "descending anchors"
proof -
  have "f64 (999 / 10) < 100" "99 < f64 (999 / 10)" by code_simp+
  then show ?thesis by (simp add: anchors_def)
qed

lemma uptime_of_le: "success \<le> tot \<Longrightarrow> 0 < tot \<Longrightarrow> tot \<le> 2 ^ 46 \<Longrightarrow> 0 \<le> success \<Longrightarrow> uptime_of success tot \<le> 100"
proof -
  assume a: "success \<le> tot" "0 < tot" "tot \<le> 2 ^ 46" "0 \<le> success"
  have "(of_int (100 * success) :: rat) \<le> of_int (100 * tot)" using a by (intro of_int_le_iff [THEN iffD2]) simp
  then have "f64_mul 100 (f64_of_int success) / f64_of_int tot \<le> of_int 100"
    using a f64_int [of "100 * success"] by (simp add: f64_mul_def divide_le_eq)
  then have "f64 (f64_mul 100 (f64_of_int success) / f64_of_int tot) \<le> f64 (of_int 100)" by (rule f64_mono)
  then show ?thesis using f64_int [of 100] by (simp add: uptime_of_def f64_div_def)
qed

lemma uptime_of_mono: "s \<le> s' \<Longrightarrow> 0 < tot \<Longrightarrow> uptime_of s tot \<le> uptime_of s' tot"
  unfolding uptime_of_def f64_ops
  by (intro f64_mono divide_right_mono mult_left_mono f64_nonneg) simp_all

lemma color_mix_bounds:
  assumes "0 \<le> step" "step \<le> 4" "color_mix step = (from', to', mix)"
  shows "0 \<le> f64_mul 100 mix \<and> f64_mul 100 mix \<le> 100"
proof -
  have half: "of_int 0 \<le> f64_div x 2 \<and> f64_div x 2 \<le> of_int 1" if "0 \<le> x" "x \<le> 2" for x
    unfolding f64_div_def by (rule f64.rnd_between) (use that in auto)
  have sub: "0 \<le> f64_sub step 2 \<and> f64_sub step 2 \<le> 2" if "2 < step"
    using that assms(2) f64.rnd_between [of 0 "step - 2" 2] by (simp add: f64_sub_def)
  have "0 \<le> mix \<and> mix \<le> 1"
    using assms half [of step] half [of "f64_sub step 2"] sub by (auto simp: color_mix_def split: if_splits)
  then show ?thesis
    using f64.rnd_between [of 0 "100 * mix" 100] by (simp add: f64_mul_def)
qed



section \<open>Day bars\<close>

lemma WorstAggregate_rank [simp]: "status_rank (WorstAggregate a b) = max (status_rank a) (status_rank b)"
  by (auto simp: WorstAggregate_def)

lemma WorstAggregate_cases: "WorstAggregate a b = a \<or> WorstAggregate a b = b"
  by (simp add: WorstAggregate_def)

definition hours_of :: "time \<Rightarrow> string \<Rightarrow> (int, aggregate_rollup) gomap \<Rightarrow> (int, aggregate_rollup) gomap" where
  "hours_of from' d hs = filter (\<lambda>(epoch, _). unix from' \<le> epoch \<and> format_date (of_unix epoch) = d) hs"

lemma worst_hours:
  "status_rank (get_or [] (fold (worst_hour f) hs m) d)
     = fold max (map (\<lambda>(_, r). status_rank (ag_status r)) (hours_of f d hs)) (status_rank (get_or [] m d))
   \<and> (get_or [] (fold (worst_hour f) hs m) d = get_or [] m d
      \<or> (\<exists>(_, r) \<in> set (hours_of f d hs). get_or [] (fold (worst_hour f) hs m) d = ag_status r))"
proof (induction hs arbitrary: m)
  case (Cons h hs)
  obtain epoch r where h: "h = (epoch, r)" by fastforce
  show ?case
  proof (cases "unix f \<le> epoch \<and> format_date (of_unix epoch) = d")
    case True
    let ?m = "map_put d (WorstAggregate (get_or [] m d) (ag_status r)) m"
    have 1: "worst_hour f h m = ?m" "hours_of f d (h # hs) = h # hours_of f d hs"
      using True by (auto simp: h hours_of_def Let_def)
    with Cons.IH [of ?m] WorstAggregate_cases [of "get_or [] m d" "ag_status r"] show ?thesis
      by (auto simp: h max.commute)
  next
    case False
    then have 1: "hours_of f d (h # hs) = hours_of f d hs" "get_or [] (worst_hour f h m) d = get_or [] m d"
      by (auto simp: h hours_of_def Let_def)
    with Cons.IH [of "worst_hour f h m"] show ?thesis by simp
  qed
qed (simp add: hours_of_def)

lemma fold_max_start: "(a :: int) \<le> fold max xs a"
  by (induction xs arbitrary: a) (auto intro: order_trans [OF max.cobounded2])

lemma fold_max_ge: "x \<in> set xs \<Longrightarrow> (x :: int) \<le> fold max xs a"
proof (induction xs arbitrary: a)
  case (Cons y xs)
  then show ?case using fold_max_start [of "max y a" xs] by auto
qed simp

lemma rank_unknown: "status_rank AggregateUnknown = status_rank []"
  by (simp add: status_rank_def aggregate_consts get_or_def)

lemma first_bar_days:
  "add_days (first_bar retention now) (int d) = time_truncate (add_days now (int d - (retention - 1))) day"
proof -
  have "(now - (retention - 1) * day) mod day = now mod day"
    "(now + (int d - (retention - 1)) * day) mod day = now mod day"
    by (metis mod_diff_right_eq mod_mult_self2_is_0 diff_zero) (rule mod_mult_self1)
  then show ?thesis
    by (simp add: first_bar_def add_days_def time_truncate_day algebra_simps)
qed

text \<open>
  C19: the bars are the days of the retention, one each, the last one today. A bar shows the worst
  status of the day's hours, unknown when there is none, and counts what \<^verbatim>\<open>ByDay\<close> counts.
\<close>

theorem dailyBars_show_days:
  assumes "1 \<le> retention" "d < nat retention"
  shows "length (dailyBars retention hist now) = nat retention
    \<and> db_date (dailyBars retention hist now ! d) = format_date (add_days now (int d - (retention - 1)))
    \<and> db_date (last (dailyBars retention hist now)) = format_date now
    \<and> (let bar = dailyBars retention hist now ! d;
           hs = hours_of (first_bar retention now) (db_date bar) (hi_hours hist);
           c = get_or zero_dc (ByDay hist now) (db_date bar)
       in (\<forall>(_, r) \<in> set hs. status_rank (ag_status r) \<le> status_rank (db_status bar))
        \<and> (db_status bar = AggregateUnknown \<or> (\<exists>(_, r) \<in> set hs. db_status bar = ag_status r))
        \<and> (0 < dc_total c \<longrightarrow> db_total bar = dc_total c \<and> db_failed bar = wrap64 (dc_total c - dc_success c)))"
proof -
  let ?bars = "dailyBars retention hist now" and ?f = "first_bar retention now"
  let ?byDay = "fold (worst_hour ?f) (hi_hours hist) []"
  have bar: "?bars ! i = day_bar_of ?byDay (ByDay hist now) (add_days ?f (int i))" if "i < nat retention" for i
    using that by (simp add: dailyBars_def Let_def)
  have len: "length ?bars = nat retention" by (simp add: dailyBars_def Let_def)
  have date: "db_date (?bars ! i) = format_date (add_days now (int i - (retention - 1)))" if "i < nat retention" for i
    using that by (simp add: bar day_bar_of_def Let_def first_bar_days)
  have last: "db_date (last ?bars) = format_date now"
    using assms(1) len date [of "nat retention - 1"] by (subst last_conv_nth) (auto simp: add_days_def)
  let ?k = "db_date (?bars ! d)"
  have k: "?k = format_date (add_days ?f (int d))" using assms(2) by (simp add: bar day_bar_of_def Let_def)
  have st: "db_status (?bars ! d) = (if get_or [] ?byDay ?k = [] then AggregateUnknown else get_or [] ?byDay ?k)"
    unfolding k using assms(2) by (simp add: bar day_bar_of_def Let_def)
  have cnt: "0 < dc_total (get_or zero_dc (ByDay hist now) ?k) \<longrightarrow>
      db_total (?bars ! d) = dc_total (get_or zero_dc (ByDay hist now) ?k)
      \<and> db_failed (?bars ! d) = wrap64 (dc_total (get_or zero_dc (ByDay hist now) ?k) - dc_success (get_or zero_dc (ByDay hist now) ?k))"
    unfolding k using assms(2) by (simp add: bar day_bar_of_def Let_def)
  note w = worst_hours [of ?f "hi_hours hist" "[]" ?k]
  have rank: "status_rank (db_status (?bars ! d)) = status_rank (get_or [] ?byDay ?k)"
    by (simp add: st rank_unknown)
  have "\<forall>(_, r) \<in> set (hours_of ?f ?k (hi_hours hist)). status_rank (ag_status r) \<le> status_rank (db_status (?bars ! d))"
    unfolding rank w [THEN conjunct1] by (auto intro!: fold_max_ge rev_image_eqI)
  moreover have "db_status (?bars ! d) = AggregateUnknown
      \<or> (\<exists>(_, r) \<in> set (hours_of ?f ?k (hi_hours hist)). db_status (?bars ! d) = ag_status r)"
    using w [THEN conjunct2] by (auto simp: st get_or_def)
  ultimately show ?thesis using len date [OF assms(2)] last cnt by (simp add: Let_def)
qed

definition example_history :: history where
  "example_history = \<lparr>hi_hours = [(86400, zero_ag\<lparr>ag_status := ''degraded'', ag_success := 1, ag_failure := 1\<rparr>),
      (90000, zero_ag\<lparr>ag_status := ''operational'', ag_success := 2\<rparr>)], hi_days = []\<rparr>"

theorem dailyBars_show_days_witness:
  "db_date (dailyBars 7 example_history (of_unix 90000) ! 6) = ''1970-01-02''
    \<and> status_rank ''degraded'' \<le> status_rank (db_status (dailyBars 7 example_history (of_unix 90000) ! 6))"
proof -
  note p = dailyBars_show_days [of 7 6 example_history "of_unix 90000"]
  have d: "format_date (add_days (of_unix 90000) (int 6 - (7 - 1))) = ''1970-01-02''" by code_simp
  have h: "hours_of (first_bar 7 (of_unix 90000)) ''1970-01-02'' (hi_hours example_history) = hi_hours example_history"
    by code_simp
  have "db_date (dailyBars 7 example_history (of_unix 90000) ! 6) = ''1970-01-02''" using p d by simp
  moreover from this have "\<forall>(_, r) \<in> set (hi_hours example_history).
      status_rank (ag_status r) \<le> status_rank (db_status (dailyBars 7 example_history (of_unix 90000) ! 6))"
    using p h by (simp add: Let_def)
  ultimately show ?thesis by (simp add: example_history_def)
qed

section \<open>The groups of a dashboard\<close>

text \<open>
  What holds of the groups after the services \<open>done\<close>: the index names the position of every group,
  no group is empty, the groups hold the services done, in order, each under the group of its name.
\<close>

definition grouped :: "groups \<Rightarrow> bool" where
  "grouped gs \<longleftrightarrow> (\<forall>g i. map_of (fst gs) g = Some i \<longleftrightarrow> i < length (snd gs) \<and> sg_name (snd gs ! i) = g)
     \<and> (\<forall>grp \<in> set (snd gs). sg_services grp \<noteq> []
         \<and> (\<forall>ov \<in> set (sg_services grp). splitGroup (display_name (so_id ov) (so_meta ov)) = (sg_name grp, so_display ov)))"

definition grouped_ids :: "groups \<Rightarrow> string multiset" where
  "grouped_ids gs = image_mset so_id (mset (concat (map sg_services (snd gs))))"

lemma grouped_distinct: "grouped gs \<Longrightarrow> distinct (map sg_name (snd gs))"
  unfolding grouped_def distinct_conv_nth by (metis length_map nth_map option.inject)

lemma mset_concat_update:
  "i < length xs \<Longrightarrow> mset (concat (map f (xs[i := y]))) + mset (f (xs ! i)) = mset (concat (map f xs)) + mset (f y)"
  by (induction xs arbitrary: i) (auto split: nat.splits)

lemma add_overview_grouped:
  assumes "grouped gs" "splitGroup (display_name (so_id ov) (so_meta ov)) = (g, so_display ov)"
  shows "grouped (add_overview g ov gs)" "grouped_ids (add_overview g ov gs) = add_mset (so_id ov) (grouped_ids gs)"
    "\<forall>grp \<in> set (snd (add_overview g ov gs)). sg_services grp = [ov] \<or> (\<exists>grp' \<in> set (snd gs). sg_services grp = sg_services grp'
        \<or> sg_services grp = sg_services grp' @ [ov])"
proof -
  obtain idx groups where gs: "gs = (idx, groups)" by fastforce
  note inv = assms(1) [unfolded grouped_def gs fst_conv snd_conv]
  have all: "grouped (add_overview g ov gs) \<and> grouped_ids (add_overview g ov gs) = add_mset (so_id ov) (grouped_ids gs)
    \<and> (\<forall>grp \<in> set (snd (add_overview g ov gs)). sg_services grp = [ov] \<or> (\<exists>grp' \<in> set (snd gs). sg_services grp = sg_services grp'
        \<or> sg_services grp = sg_services grp' @ [ov]))"
  proof (cases "map_of idx g")
    case (Some i)
    then have i: "i < length groups" "sg_name (groups ! i) = g" using inv by blast+
    let ?new = "(groups ! i)\<lparr>sg_services := sg_services (groups ! i) @ [ov]\<rparr>"
    have add: "add_overview g ov gs = (idx, groups[i := ?new])"
      using Some by (simp add: add_overview_def gs get_or_def)
    have names: "j < length groups \<Longrightarrow> sg_name (groups[i := ?new] ! j) = sg_name (groups ! j)" for j
      using i by (cases "i = j") auto
    have ids: "mset (concat (map sg_services (groups[i := ?new]))) = add_mset ov (mset (concat (map sg_services groups)))"
      using mset_concat_update [OF i(1), of sg_services ?new] by simp
    have mem: "grp \<in> set (groups[i := ?new]) \<Longrightarrow> grp = ?new \<or> grp \<in> set groups" for grp
      using set_update_subset_insert by fastforce
    have "groups ! i \<in> set groups" using i by simp
    moreover have "grouped (add_overview g ov gs)"
      unfolding grouped_def add fst_conv snd_conv
    proof (intro conjI allI ballI iffI)
      fix grp assume "grp \<in> set (groups[i := ?new])"
      from mem [OF this] inv show "sg_services grp \<noteq> []" by auto
    next
      fix grp ov' assume "grp \<in> set (groups[i := ?new])" "ov' \<in> set (sg_services grp)"
      with mem [of grp] inv i assms(2) calculation
      show "splitGroup (display_name (so_id ov') (so_meta ov')) = (sg_name grp, so_display ov')" by auto
    qed (use inv names in auto)
    moreover have "\<forall>grp \<in> set (groups[i := ?new]). \<exists>grp' \<in> set groups. sg_services grp = sg_services grp'
        \<or> sg_services grp = sg_services grp' @ [ov]"
      using mem calculation(1) by fastforce
    ultimately show ?thesis
      unfolding grouped_ids_def add unfolding gs snd_conv ids by auto
  next
    case None
    let ?new = "\<lparr>sg_name = g, sg_services = [ov]\<rparr>"
    have add: "add_overview g ov gs = (map_put g (length groups) idx, groups @ [?new])"
      using None by (simp add: add_overview_def gs get_or_def list_update_append)
    have new: "\<not> (i < length groups \<and> sg_name (groups ! i) = g)" for i using inv None by (metis option.simps(3))
    have "grouped (add_overview g ov gs)"
      unfolding grouped_def add fst_conv snd_conv
    proof (intro conjI allI ballI)
      fix h i
      show "map_of (map_put g (length groups) idx) h = Some i \<longleftrightarrow>
          i < length (groups @ [?new]) \<and> sg_name ((groups @ [?new]) ! i) = h"
        using inv new [of i] by (auto simp: nth_append less_Suc_eq)
    qed (use inv assms(2) in auto)
    then show ?thesis unfolding grouped_ids_def add unfolding gs snd_conv by auto
  qed
  then show "grouped (add_overview g ov gs)" "grouped_ids (add_overview g ov gs) = add_mset (so_id ov) (grouped_ids gs)"
    "\<forall>grp \<in> set (snd (add_overview g ov gs)). sg_services grp = [ov] \<or> (\<exists>grp' \<in> set (snd gs). sg_services grp = sg_services grp'
        \<or> sg_services grp = sg_services grp' @ [ov])" by blast+
qed

lemma overview_of_id [simp]: "so_id (overview_of retention svc m hist now) = svc"
  "so_meta (overview_of retention svc m hist now) = m"
  "splitGroup (display_name svc m) = (fst (splitGroup (display_name svc m)), so_display (overview_of retention svc m hist now))"
  by (simp_all add: overview_of_def)

lemma add_services_grouped:
  assumes "add_services vc st retention dash now svcs gs = Inr gs'" "grouped gs"
    and "sorted svcs" "\<forall>grp \<in> set (snd gs). sorted (map so_id (sg_services grp)) \<and> (\<forall>ov \<in> set (sg_services grp). \<forall>svc \<in> set svcs. so_id ov \<le> svc)"
  shows "grouped gs' \<and> grouped_ids gs' = grouped_ids gs + mset svcs
    \<and> (\<forall>grp \<in> set (snd gs'). sorted (map so_id (sg_services grp)))"
  using assms
proof (induction svcs arbitrary: gs)
  case (Cons svc svcs)
  then obtain hist where h: "History vc st dash svc now = Inr hist" by (auto split: sum.splits)
  let ?m = "meta_or_zero vc st dash svc"
  let ?ov = "overview_of retention svc ?m hist now" and ?g = "fst (splitGroup (display_name svc ?m))"
  let ?gs = "add_overview ?g ?ov gs"
  have "splitGroup (display_name (so_id ?ov) (so_meta ?ov)) = (?g, so_display ?ov)" by simp
  note a = add_overview_grouped [OF Cons.prems(2) this]
  have rest: "add_services vc st retention dash now svcs ?gs = Inr gs'"
    using Cons.prems(1) h by (simp add: Let_def)
  have "\<forall>grp \<in> set (snd ?gs). sorted (map so_id (sg_services grp)) \<and> (\<forall>ov \<in> set (sg_services grp). \<forall>svc \<in> set svcs. so_id ov \<le> svc)"
  proof
    fix grp assume "grp \<in> set (snd ?gs)"
    with a(3) consider "sg_services grp = [?ov]" | grp' where "grp' \<in> set (snd gs)"
      "sg_services grp = sg_services grp' \<or> sg_services grp = sg_services grp' @ [?ov]" by blast
    then show "sorted (map so_id (sg_services grp)) \<and> (\<forall>ov \<in> set (sg_services grp). \<forall>svc \<in> set svcs. so_id ov \<le> svc)"
    proof cases
      case 1
      with Cons.prems(3) show ?thesis by simp
    next
      case 2
      with Cons.prems(3,4) show ?thesis by (auto simp: sorted_append)
    qed
  qed
  from Cons.IH [OF rest a(1) _ this] Cons.prems(3) a(2) show ?case by simp
qed simp

text \<open>
  C20: the dashboard page shows every listed service exactly once: the groups have different names,
  none is empty, each service stands in the group its display name asks for, and the services of
  a group are in the order of their identifiers.
\<close>

theorem dashboard_partitions_services:
  assumes "handleDashboard vc st retention dash now = Inr page" "ListServices vc st dash = Inr services"
  shows "mset (map so_id (concat (map sg_services (dd_groups page)))) = mset services
    \<and> distinct (map sg_name (dd_groups page))
    \<and> (\<forall>grp \<in> set (dd_groups page). sg_services grp \<noteq> [] \<and> sorted (map so_id (sg_services grp))
        \<and> (\<forall>ov \<in> set (sg_services grp).
            splitGroup (display_name (so_id ov) (so_meta ov)) = (sg_name grp, so_display ov)))"
proof -
  obtain gs where gs: "add_services vc st retention dash now (sort services) ([], []) = Inr gs"
      "page = \<lparr>dd_name = dash, dd_groups = snd gs\<rparr>"
    using assms by (auto simp: handleDashboard_def split: sum.splits)
  have "grouped ([], [])" by (simp add: grouped_def)
  from add_services_grouped [OF gs(1) this] grouped_distinct [of gs] show ?thesis
    by (auto simp: gs(2) grouped_ids_def grouped_def)
qed

definition example_page_store :: "vt_server store" where
  "example_page_store = example_store\<lparr>st_locations := [(''eu'', (example_conn example_statuses example_details)
     \<lparr>vt_sets := [(Services ''d'', [''web_b'', ''api'', ''web_a''])]\<rparr>)]\<rparr>"

theorem dashboard_partitions_services_witness:
  "\<exists>page. handleDashboard vt_client example_page_store 1 ''d'' (of_unix 7300) = Inr page
    \<and> mset (map so_id (concat (map sg_services (dd_groups page)))) = {#''api'', ''web_a'', ''web_b''#}"
proof -
  have s: "ListServices vt_client example_page_store ''d'' = Inr [''api'', ''web_a'', ''web_b'']" by code_simp
  have "map_sum (\<lambda>_. ()) (\<lambda>_. ()) (handleDashboard vt_client example_page_store 1 ''d'' (of_unix 7300)) = Inr ()"
    by code_simp
  then obtain page where "handleDashboard vt_client example_page_store 1 ''d'' (of_unix 7300) = Inr page"
    by (cases "handleDashboard vt_client example_page_store 1 ''d'' (of_unix 7300)") auto
  with dashboard_partitions_services [OF this s] show ?thesis by auto
qed

section \<open>Ranges\<close>

text \<open>
  C22: with a retention of at least a day, which every accepted configuration has, the ranges are
  offered without a panic: they ascend, end with the whole retention, and whatever key a request
  carries selects one of them.
\<close>

theorem ranges_within_retention:
  assumes "1 \<le> retention"
  shows "\<exists>opts rng. rangeOptions retention = Some opts \<and> sorted_wrt (<) (map ro_days opts)
    \<and> ro_days (hd opts) = 1 \<and> ro_days (last opts) = retention
    \<and> parseRange retention key = Some rng \<and> rng \<in> set opts
    \<and> (key \<in> set (map ro_key opts) \<longrightarrow> ro_key rng = key)"
proof -
  have "\<exists>opts. rangeOptions retention = Some opts \<and> opts \<noteq> [] \<and> sorted_wrt (<) (map ro_days opts)
    \<and> ro_days (hd opts) = 1 \<and> ro_days (last opts) = retention"
    using assms by (auto simp: rangeOptions_def fixed_ranges_def Let_def)
  then obtain opts where o': "rangeOptions retention = Some opts" "opts \<noteq> []" "sorted_wrt (<) (map ro_days opts)"
    "ro_days (hd opts) = 1" "ro_days (last opts) = retention" by blast
  show ?thesis
  proof (cases "List.find (\<lambda>o'. ro_key o' = key) opts")
    case None
    then have "\<forall>x \<in> set opts. ro_key x \<noteq> key" by (simp add: find_None_iff)
    moreover have "parseRange retention key = Some (hd opts)" using None o'(1) by (simp add: parseRange_def)
    ultimately show ?thesis using o' by (intro exI [of _ opts] exI [of _ "hd opts"]) auto
  next
    case (Some rng)
    then have "rng \<in> set opts" "ro_key rng = key" by (auto simp: find_Some_iff)
    with Some o' show ?thesis by (simp add: parseRange_def)
  qed
qed

theorem ranges_within_retention_witness:
  "\<exists>opts rng. rangeOptions 10 = Some opts \<and> ro_days (last opts) = 10
    \<and> parseRange 10 ''7d'' = Some rng \<and> rng \<in> set opts"
  using ranges_within_retention [of 10 "''7d''"] by fastforce

end
