(* ===== verification/Go_Path.thy ===== *)
theory Go_Path
  imports Go_Strings
begin

text \<open>The functions of Go's \<^verbatim>\<open>path\<close> and \<^verbatim>\<open>path/filepath\<close> packages that the program calls.\<close>

text \<open>\<^verbatim>\<open>path.Clean\<close>: the segments that remain, the last first.\<close>

fun clean_segments :: "bool \<Rightarrow> string list \<Rightarrow> string list \<Rightarrow> string list" where
  "clean_segments rooted [] out = rev out"
| "clean_segments rooted (s # ss) out =
     (if s = [] \<or> s = ''.'' then clean_segments rooted ss out
      else if s = ''..''
      then (case out of
              o' # os \<Rightarrow> if o' = ''..'' then clean_segments rooted ss (s # out) else clean_segments rooted ss os
            | [] \<Rightarrow> if rooted then clean_segments rooted ss [] else clean_segments rooted ss [s])
      else clean_segments rooted ss (s # out))"

definition path_clean :: "string \<Rightarrow> string" where
  "path_clean p =
     (let rooted = has_prefix p ''/'';
          segs = clean_segments rooted (split_byte (CHR ''/'') p) []
      in if rooted then CHR ''/'' # join ''/'' segs
         else if segs = [] then ''.'' else join ''/'' segs)"

text \<open>\<^verbatim>\<open>path.Ext\<close>: from the last dot of the last segment on.\<close>

definition path_ext :: "string \<Rightarrow> string" where
  "path_ext name =
     (let base = last (split_byte (CHR ''/'') name)
      in if CHR ''.'' \<in> set base then CHR ''.'' # last (split_byte (CHR ''.'') base) else [])"

text \<open>\<^verbatim>\<open>filepath.Join\<close> of two elements; an empty one counts as absent.\<close>

definition join_path :: "string \<Rightarrow> string \<Rightarrow> string" where
  "join_path dir name =
     (if dir = [] \<and> name = [] then []
      else path_clean (if dir = [] then name else if name = [] then dir else dir @ ''/'' @ name))"

end
