(* ===== verification/Dashboard_Http.thy ===== *)
theory Dashboard_Http
  imports Go_Path
begin

text \<open>
  \<^verbatim>\<open>dashboard/internal/server/server.go\<close>, the HTTP side: dispatch, static assets, the compressing
  response writer and the cache headers. A handler is the list of calls it makes on its
  \<^verbatim>\<open>http.ResponseWriter\<close>. The writer of \<^verbatim>\<open>net/http\<close> commits its header map with the status at the
  first \<^verbatim>\<open>WriteHeader\<close>, \<^verbatim>\<open>Write\<close> or \<^verbatim>\<open>Flush\<close>. Bytes that pass a gzip or deflate writer are kept with the name of
  the encoding; \<^verbatim>\<open>http.DetectContentType\<close> is an argument.
\<close>

type_synonym header = "(string, string list) gomap"

definition hd_get :: "header \<Rightarrow> string \<Rightarrow> string" where
  "hd_get h k = (case get_or [] h k of v # _ \<Rightarrow> v | [] \<Rightarrow> [])"

datatype chunk = Raw string | Packed string string

fun chunk_text :: "chunk \<Rightarrow> string" where
  "chunk_text (Raw b) = b"
| "chunk_text (Packed enc b) = b"

record recorder =
  rc_header :: header
  rc_status :: "int option"
  rc_sent :: header
  rc_body :: "chunk list"

definition fresh :: recorder where
  "fresh = \<lparr>rc_header = [], rc_status = None, rc_sent = [], rc_body = []\<rparr>"

datatype action =
    SetHeader string string
  | AddHeader string string
  | DelHeader string
  | WriteHeader int
  | Write string
  | Flush

fun set_header :: "action \<Rightarrow> header \<Rightarrow> header" where
  "set_header (SetHeader k v) h = map_put k [v] h"
| "set_header (AddHeader k v) h = map_put k (get_or [] h k @ [v]) h"
| "set_header (DelHeader k) h = map_del k h"
| "set_header _ h = h"

section \<open>The writer of net/http\<close>

text \<open>
  The first final status fixes status and header; an informational one is sent at once and fixes nothing.
  The recorder keeps what is handed to the server, which drops the bodies that HEAD and some statuses forbid.
\<close>

definition informational :: "int \<Rightarrow> bool" where
  "informational code \<longleftrightarrow> 100 \<le> code \<and> code \<le> 199 \<and> code \<noteq> 101"

definition commit :: "int \<Rightarrow> recorder \<Rightarrow> recorder" where
  "commit code r =
     (if rc_status r = None \<and> \<not> informational code then r\<lparr>rc_status := Some code, rc_sent := rc_header r\<rparr> else r)"

definition emit :: "chunk \<Rightarrow> recorder \<Rightarrow> recorder" where
  "emit c r = (let r' = commit 200 r in r'\<lparr>rc_body := rc_body r' @ [c]\<rparr>)"

fun plain_step :: "recorder \<Rightarrow> action \<Rightarrow> recorder" where
  "plain_step r (WriteHeader code) = commit code r"
| "plain_step r (Write b) = emit (Raw b) r"
| "plain_step r Flush = commit 200 r"
| "plain_step r a = r\<lparr>rc_header := set_header a (rc_header r)\<rparr>"

definition finished :: "recorder \<Rightarrow> recorder" where
  "finished r = commit 200 r"

section \<open>The compressing writer\<close>

definition isCompressible :: "string \<Rightarrow> bool" where
  "isCompressible contentType \<longleftrightarrow>
     trim_space (hd (split_byte (CHR '';'') contentType)) \<in>
       {''text/html'', ''text/css'', ''text/plain'', ''text/xml'', ''text/javascript'',
        ''application/javascript'', ''application/x-javascript'', ''application/json'', ''application/xml'',
        ''image/svg+xml''}"

record cwriter =
  cw_rec :: recorder
  cw_compressor :: "string option"
  cw_wrote :: bool
  cw_encoding :: string

definition cw_WriteHeader :: "int \<Rightarrow> cwriter \<Rightarrow> cwriter" where
  "cw_WriteHeader code w =
     (if cw_wrote w then w
      else let h = rc_header (cw_rec w) in
        if code = 204 \<or> code = 304 \<or> hd_get h ''Content-Encoding'' \<noteq> [] \<or> \<not> isCompressible (hd_get h ''Content-Type'')
        then w\<lparr>cw_wrote := True, cw_encoding := [], cw_rec := commit code (cw_rec w)\<rparr>
        else let h' = set_header (DelHeader ''Content-Length'') (set_header (AddHeader ''Vary'' ''Accept-Encoding'')
                        (set_header (SetHeader ''Content-Encoding'' (cw_encoding w)) h))
          in w\<lparr>cw_wrote := True,
               cw_compressor := (if cw_encoding w = ''gzip'' \<or> cw_encoding w = ''deflate''
                 then Some (cw_encoding w) else cw_compressor w),
               cw_rec := commit code ((cw_rec w)\<lparr>rc_header := h'\<rparr>)\<rparr>)"

definition cw_Write :: "(string \<Rightarrow> string) \<Rightarrow> string \<Rightarrow> cwriter \<Rightarrow> cwriter" where
  "cw_Write detect b w =
     (let w1 = (if cw_wrote w then w
                else cw_WriteHeader 200
                  (if hd_get (rc_header (cw_rec w)) ''Content-Type'' = []
                   then w\<lparr>cw_rec := plain_step (cw_rec w) (SetHeader ''Content-Type'' (detect b))\<rparr> else w))
      in case cw_compressor w1 of
           Some enc \<Rightarrow> w1\<lparr>cw_rec := emit (if cw_encoding w1 \<noteq> [] then Packed enc b else Raw b) (cw_rec w1)\<rparr>
         | None \<Rightarrow> w1\<lparr>cw_rec := emit (Raw b) (cw_rec w1)\<rparr>)"

definition cw_Flush :: "cwriter \<Rightarrow> cwriter" where
  "cw_Flush w = w\<lparr>cw_rec := commit 200 (cw_rec w)\<rparr>"

fun cw_step :: "(string \<Rightarrow> string) \<Rightarrow> cwriter \<Rightarrow> action \<Rightarrow> cwriter" where
  "cw_step detect w (WriteHeader code) = cw_WriteHeader code w"
| "cw_step detect w (Write b) = cw_Write detect b w"
| "cw_step detect w Flush = cw_Flush w"
| "cw_step detect w a = w\<lparr>cw_rec := plain_step (cw_rec w) a\<rparr>"

record request =
  rq_method :: string
  rq_path :: string
  rq_header :: header

definition chosen_encoding :: "string \<Rightarrow> string" where
  "chosen_encoding accept =
     (if contains accept ''gzip'' then ''gzip'' else if contains accept ''deflate'' then ''deflate'' else [])"

definition cw_start :: "string \<Rightarrow> recorder \<Rightarrow> cwriter" where
  "cw_start enc r = \<lparr>cw_rec = r, cw_compressor = None, cw_wrote = False, cw_encoding = enc\<rparr>"

text \<open>
  Closing the compressor writes what it still holds; the chunks above already count every byte that
  was given to it.
\<close>

definition Compress :: "(string \<Rightarrow> string) \<Rightarrow> request \<Rightarrow> action list \<Rightarrow> recorder \<Rightarrow> recorder" where
  "Compress detect rq acts r =
     (let enc = chosen_encoding (hd_get (rq_header rq) ''Accept-Encoding'')
      in if contains (hd_get (rq_header rq) ''Connection'') ''Upgrade'' \<or> enc = []
         then foldl plain_step r acts
         else cw_rec (foldl (cw_step detect) (cw_start enc r) acts))"

definition NoCache :: "request \<Rightarrow> recorder \<Rightarrow> recorder" where
  "NoCache rq r =
     plain_step r (SetHeader ''Cache-Control''
       (if has_prefix (rq_path rq) ''/.well-known/'' \<or> has_prefix (rq_path rq) ''/static/''
           \<or> has_prefix (rq_path rq) ''/robots.txt''
        then ''public, max-age=2600000'' else ''no-cache, no-store, must-revalidate''))"

section \<open>Static assets\<close>

record static_asset =
  sa_content :: string
  sa_gzipped :: string
  sa_type :: string

text \<open>
  \<^verbatim>\<open>loadStaticAssets\<close>: the files of the embedded tree with the type of their extension, or the detected
  one, and their gzipped bytes.
\<close>

definition loadStaticAssets :: "(string \<Rightarrow> string) \<Rightarrow> (string \<Rightarrow> string) \<Rightarrow> (string \<Rightarrow> string)
    \<Rightarrow> (string \<times> string) list \<Rightarrow> (string, static_asset) gomap" where
  "loadStaticAssets typeByExt detect gzip files =
     fold (\<lambda>(name, content). map_put name
       \<lparr>sa_content = content, sa_gzipped = gzip content,
         sa_type = (if typeByExt (path_ext name) = [] then detect content else typeByExt (path_ext name))\<rparr>) files []"

text \<open>\<^verbatim>\<open>http.NotFound\<close>.\<close>

definition not_found :: "action list" where
  "not_found =
     [DelHeader ''Content-Length'', SetHeader ''Content-Type'' ''text/plain; charset=utf-8'',
      SetHeader ''X-Content-Type-Options'' ''nosniff'', WriteHeader 404, Write (''404 page not found'' @ nl)]"

definition asset_name :: "request \<Rightarrow> string" where
  "asset_name rq = trim_prefix (path_clean (trim_prefix (rq_path rq) ''/static/'')) ''/''"

definition bad_name :: "string \<Rightarrow> bool" where
  "bad_name clean \<longleftrightarrow> clean = ''.'' \<or> clean = [] \<or> has_prefix clean ''../'' \<or> contains clean ''..''"

definition gzips_asset :: "request \<Rightarrow> static_asset \<Rightarrow> bool" where
  "gzips_asset rq asset \<longleftrightarrow>
     isCompressible (sa_type asset) \<and> contains (hd_get (rq_header rq) ''Accept-Encoding'') ''gzip''"

definition asset_actions :: "request \<Rightarrow> static_asset \<Rightarrow> action list" where
  "asset_actions rq asset =
     (let gz = gzips_asset rq asset;
          selected = (if gz then sa_gzipped asset else sa_content asset)
      in [SetHeader ''Content-Type'' (sa_type asset), SetHeader ''Content-Length'' (itoa (int (length selected)))]
         @ (if gz then [SetHeader ''Content-Encoding'' ''gzip'', AddHeader ''Vary'' ''Accept-Encoding''] else [])
         @ (if rq_method rq = ''HEAD'' then [WriteHeader 200] else [Write selected]))"

definition staticHandler :: "(string, static_asset) gomap \<Rightarrow> request \<Rightarrow> action list" where
  "staticHandler assets rq =
     (let clean = asset_name rq
      in if bad_name clean then not_found
         else case map_of assets clean of
           None \<Rightarrow> not_found
         | Some asset \<Rightarrow> asset_actions rq asset)"

section \<open>Dispatch\<close>

datatype route =
    Static
  | ApiDashboards
  | ApiOverview string
  | ApiService string string
  | ApiLatency string string
  | DashboardPage string
  | ServicePage string string
  | MethodNotAllowed
  | NoRoute

text \<open>The patterns of the two muxes on the segments of a clean path; a wildcard takes one segment.\<close>

fun api_route :: "string list \<Rightarrow> route" where
  "api_route [d, a] = (if d = [] \<and> a = ''dashboards'' then ApiDashboards else NoRoute)"
| "api_route [d, a, dash, name] =
     (if d \<noteq> [] \<or> a \<noteq> ''dashboard'' \<or> dash = [] \<or> name = [] then NoRoute
      else if name = ''overview'' then ApiOverview dash else ApiService dash name)"
| "api_route [d, a, dash, name, l] =
     (if d = [] \<and> a = ''dashboard'' \<and> dash \<noteq> [] \<and> name \<noteq> [] \<and> l = ''latency'' then ApiLatency dash name else NoRoute)"
| "api_route _ = NoRoute"

fun page_route :: "string list \<Rightarrow> route" where
  "page_route [d, dash] = (if d = [] \<and> dash \<noteq> [] then DashboardPage dash else NoRoute)"
| "page_route [d, dash, name] =
     (if d = [] \<and> dash \<noteq> [] \<and> name \<noteq> [] then ServicePage dash name else NoRoute)"
| "page_route _ = NoRoute"

definition handler_route :: "request \<Rightarrow> route" where
  "handler_route rq =
     (if has_prefix (rq_path rq) ''/static/'' then Static
      else let r = (if has_prefix (rq_path rq) ''/api/''
             then api_route (split_byte (CHR ''/'') (trim_prefix (rq_path rq) ''/api''))
             else page_route (split_byte (CHR ''/'') (rq_path rq)))
        in if r = NoRoute then NoRoute
           else if rq_method rq = ''GET'' \<or> rq_method rq = ''HEAD'' then r else MethodNotAllowed)"

text \<open>What a request for a static asset gets from the whole chain of handlers.\<close>

definition serve_static :: "(string \<Rightarrow> string) \<Rightarrow> (string, static_asset) gomap \<Rightarrow> request \<Rightarrow> recorder" where
  "serve_static detect assets rq =
     finished (Compress detect rq (staticHandler assets rq) (NoCache rq fresh))"

section \<open>The compressing writer is transparent\<close>

text \<open>No flush and no informational status comes before the handler has committed its header.\<close>

fun commits_first :: "action list \<Rightarrow> bool" where
  "commits_first [] = True"
| "commits_first (Flush # acts) = False"
| "commits_first (WriteHeader code # acts) = (\<not> informational code)"
| "commits_first (Write b # acts) = True"
| "commits_first (_ # acts) = commits_first acts"

text \<open>How the compressing writer and the plain one correspond while the same calls are made.\<close>

definition same_response :: "string \<Rightarrow> cwriter \<Rightarrow> recorder \<Rightarrow> bool" where
  "same_response enc w r \<longleftrightarrow>
     concat (map chunk_text (rc_body (cw_rec w))) = concat (map chunk_text (rc_body r))
     \<and> rc_status (cw_rec w) = rc_status r
     \<and> (cw_wrote w \<longleftrightarrow> rc_status r \<noteq> None)
     \<and> (case cw_compressor w of
          None \<Rightarrow> (\<forall>c \<in> set (rc_body (cw_rec w)). \<exists>b. c = Raw b) \<and> (cw_wrote w \<longrightarrow> cw_encoding w = [])
        | Some e \<Rightarrow> e = enc \<and> cw_wrote w \<and> cw_encoding w = enc
            \<and> (\<forall>c \<in> set (rc_body (cw_rec w)). \<exists>b. c = Packed enc b)
            \<and> get_or [] (rc_sent (cw_rec w)) ''Content-Encoding'' = [enc]
            \<and> \<not> has_key (rc_sent (cw_rec w)) ''Content-Length'')"

definition running :: "string \<Rightarrow> cwriter \<Rightarrow> recorder \<Rightarrow> bool" where
  "running enc w r \<longleftrightarrow> same_response enc w r \<and> rc_status r \<noteq> None"

definition waiting :: "string \<Rightarrow> cwriter \<Rightarrow> recorder \<Rightarrow> bool" where
  "waiting enc w r \<longleftrightarrow> cw_compressor w = None \<and> \<not> cw_wrote w \<and> cw_encoding w = enc
     \<and> rc_body (cw_rec w) = [] \<and> rc_body r = [] \<and> rc_status (cw_rec w) = None \<and> rc_status r = None"

lemma get_or_map_del [simp]: "get_or z (map_del k m) k' = (if k = k' then z else get_or z m k')"
  by (simp add: get_or_def)

lemma commit_committed [simp]: "rc_status r \<noteq> None \<Longrightarrow> commit code r = r"
  by (simp add: commit_def del: not_None_eq)

lemma final_statuses [simp]: "\<not> informational 200" "\<not> informational 404"
  by (simp_all add: informational_def)

lemma waiting_WriteHeader:
  assumes "waiting enc w r" "enc = ''gzip'' \<or> enc = ''deflate''" "\<not> informational code"
  shows "running enc (cw_WriteHeader code w) (commit code r)"
  using assms by (auto simp: waiting_def running_def same_response_def cw_WriteHeader_def commit_def Let_def)

lemma commit_status [simp]: "\<not> informational code \<Longrightarrow> rc_status (commit code r) \<noteq> None" "rc_body (commit code r) = rc_body r"
  "\<not> informational code \<Longrightarrow> rc_sent (commit code r) = (if rc_status r = None then rc_header r else rc_sent r)"
  by (simp_all add: commit_def)

lemma running_emit:
  assumes "running enc w r" "enc \<noteq> []"
  shows "running enc (cw_Write detect b w) (emit (Raw b) r)"
proof -
  have "cw_wrote w" using assms by (simp add: running_def same_response_def)
  with assms show ?thesis
    by (cases "cw_compressor w") (auto simp: running_def same_response_def cw_Write_def emit_def Let_def)
qed

lemma running_step:
  assumes "running enc w r" "enc \<noteq> []"
  shows "running enc (cw_step detect w a) (plain_step r a)"
  using assms
proof (cases a)
  case (WriteHeader code)
  then show ?thesis using assms by (auto simp: running_def same_response_def cw_WriteHeader_def)
next
  case (Write b)
  then show ?thesis using running_emit [OF assms] by simp
next
  case Flush
  then show ?thesis using assms by (auto simp: running_def same_response_def cw_Flush_def)
qed (auto simp: running_def same_response_def split: option.splits)

lemma running_steps:
  "running enc w r \<Longrightarrow> enc \<noteq> [] \<Longrightarrow> running enc (foldl (cw_step detect) w acts) (foldl plain_step r acts)"
  by (induction acts arbitrary: w r) (auto intro: running_step)

lemma cw_Write_waiting:
  assumes "waiting enc w r" "enc = ''gzip'' \<or> enc = ''deflate''"
  shows "running enc (cw_Write detect b w) (emit (Raw b) r)"
proof -
  define w0 where "w0 = (if hd_get (rc_header (cw_rec w)) ''Content-Type'' = []
    then w\<lparr>cw_rec := plain_step (cw_rec w) (SetHeader ''Content-Type'' (detect b))\<rparr> else w)"
  have "waiting enc w0 r" using assms(1) by (auto simp: w0_def waiting_def)
  then have r: "running enc (cw_WriteHeader 200 w0) (commit 200 r)" by (rule waiting_WriteHeader) (use assms(2) in simp_all)
  have "cw_wrote (cw_WriteHeader 200 w0)" by (auto simp: cw_WriteHeader_def Let_def)
  then have "cw_Write detect b w = cw_Write detect b (cw_WriteHeader 200 w0)"
    using assms(1) by (simp add: cw_Write_def w0_def waiting_def)
  moreover have "emit (Raw b) (commit 200 r) = emit (Raw b) r" by (simp add: emit_def)
  moreover have "running enc (cw_Write detect b (cw_WriteHeader 200 w0)) (emit (Raw b) (commit 200 r))"
    by (rule running_emit [OF r]) (use assms(2) in auto)
  ultimately show ?thesis by simp
qed

lemma waiting_steps:
  assumes "waiting enc w r" "enc = ''gzip'' \<or> enc = ''deflate''" "commits_first acts"
  shows "waiting enc (foldl (cw_step detect) w acts) (foldl plain_step r acts)
    \<or> running enc (foldl (cw_step detect) w acts) (foldl plain_step r acts)"
  using assms(1,3)
proof (induction acts arbitrary: w r)
  case (Cons a acts)
  have ne: "enc \<noteq> []" using assms(2) by auto
  show ?case
  proof (cases a)
    case (WriteHeader code)
    from running_steps [OF waiting_WriteHeader [OF Cons.prems(1) assms(2)] ne] Cons.prems(2) show ?thesis by (simp add: WriteHeader)
  next
    case (Write b)
    from running_steps [OF cw_Write_waiting [OF Cons.prems(1) assms(2)] ne] show ?thesis by (simp add: Write)
  next
    case Flush
    with Cons.prems(2) show ?thesis by simp
  next
    case (SetHeader k v)
    with Cons show ?thesis by (auto simp: waiting_def)
  next
    case (AddHeader k v)
    with Cons show ?thesis by (auto simp: waiting_def)
  next
    case (DelHeader k)
    with Cons show ?thesis by (auto simp: waiting_def)
  qed
qed simp

section \<open>Properties\<close>

text \<open>What the compression may do to a response.\<close>

definition well_encoded :: "string \<Rightarrow> recorder \<Rightarrow> bool" where
  "well_encoded accept out \<longleftrightarrow>
     (\<forall>c \<in> set (rc_body out). \<exists>b. c = Raw b)
     \<or> (\<exists>enc. contains accept enc \<and> (enc = ''gzip'' \<or> enc = ''deflate'')
        \<and> (\<forall>c \<in> set (rc_body out). \<exists>b. c = Packed enc b)
        \<and> get_or [] (rc_sent out) ''Content-Encoding'' = [enc] \<and> \<not> has_key (rc_sent out) ''Content-Length'')"

lemma chosen_encoding_cases:
  "chosen_encoding accept = [] \<or> (chosen_encoding accept = ''gzip'' \<and> contains accept ''gzip'')
     \<or> (chosen_encoding accept = ''deflate'' \<and> contains accept ''deflate'')"
  by (simp add: chosen_encoding_def)

lemma plain_raw:
  "\<forall>c \<in> set (rc_body r). \<exists>b. c = Raw b \<Longrightarrow> \<forall>c \<in> set (rc_body (foldl plain_step r acts)). \<exists>b. c = Raw b"
proof (induction acts arbitrary: r)
  case (Cons a acts)
  have "\<forall>c \<in> set (rc_body (plain_step r a)). \<exists>b. c = Raw b"
    using Cons.prems by (cases a) (auto simp: emit_def Let_def)
  with Cons.IH show ?case by simp
qed simp

lemma writer_transparent:
  assumes "commits_first acts" "rc_status r = None" "rc_body r = []"
  shows "rc_status (finished (Compress detect rq acts r)) = rc_status (finished (foldl plain_step r acts))
    \<and> concat (map chunk_text (rc_body (finished (Compress detect rq acts r))))
      = concat (map chunk_text (rc_body (finished (foldl plain_step r acts))))
    \<and> well_encoded (hd_get (rq_header rq) ''Accept-Encoding'') (finished (Compress detect rq acts r))"
proof -
  let ?accept = "hd_get (rq_header rq) ''Accept-Encoding''"
  let ?enc = "chosen_encoding ?accept"
  show ?thesis
  proof (cases "contains (hd_get (rq_header rq) ''Connection'') ''Upgrade'' \<or> ?enc = []")
    case True
    then have "Compress detect rq acts r = foldl plain_step r acts" by (auto simp: Compress_def Let_def)
    moreover have "\<forall>c \<in> set (rc_body (foldl plain_step r acts)). \<exists>b. c = Raw b"
      by (rule plain_raw) (simp add: assms(3))
    ultimately show ?thesis by (simp add: well_encoded_def finished_def)
  next
    case False
    let ?w = "foldl (cw_step detect) (cw_start ?enc r) acts" and ?r = "foldl plain_step r acts"
    have enc: "(?enc = ''gzip'' \<or> ?enc = ''deflate'') \<and> contains ?accept ?enc"
      using chosen_encoding_cases [of ?accept] False by auto
    have c: "Compress detect rq acts r = cw_rec ?w" using False by (simp add: Compress_def Let_def)
    have "waiting ?enc (cw_start ?enc r) r" using assms(2,3) by (simp add: waiting_def cw_start_def)
    from waiting_steps [OF this _ assms(1)] enc
    consider "waiting ?enc ?w ?r" | "running ?enc ?w ?r" by blast
    then show ?thesis
    proof cases
      case 1
      then show ?thesis by (simp add: c waiting_def finished_def well_encoded_def commit_def)
    next
      case 2
      then have s: "same_response ?enc ?w ?r" "rc_status ?r \<noteq> None" by (simp_all add: running_def)
      then have "rc_status (cw_rec ?w) \<noteq> None" by (simp add: same_response_def)
      then have f: "finished (cw_rec ?w) = cw_rec ?w" "finished ?r = ?r"
        using s(2) unfolding finished_def by (auto intro!: commit_committed)
      have "well_encoded ?accept (cw_rec ?w)"
        using s(1) enc by (cases "cw_compressor ?w") (auto simp: same_response_def well_encoded_def)
      then show ?thesis using s(1) unfolding c f by (simp add: same_response_def)
    qed
  qed
qed

text \<open>
  C23: for every handler that commits its header before it flushes, with a final status, the compressing
  writer delivers the bytes and the status the handler wrote. Either nothing is compressed, or the
  whole body is, in one encoding that the request accepts and the header names, and no length of
  the uncompressed body is announced.
\<close>

theorem Compress_transparent:
  assumes "commits_first acts" "rc_status r = None" "rc_body r = []"
  shows "rc_status (finished (Compress detect rq acts r)) = rc_status (finished (foldl plain_step r acts))
    \<and> concat (map chunk_text (rc_body (finished (Compress detect rq acts r))))
      = concat (map chunk_text (rc_body (finished (foldl plain_step r acts))))
    \<and> well_encoded (hd_get (rq_header rq) ''Accept-Encoding'') (finished (Compress detect rq acts r))"
  using writer_transparent [OF assms, of detect rq] .

definition example_request :: "string \<Rightarrow> string \<Rightarrow> request" where
  "example_request path accept =
     \<lparr>rq_method = ''GET'', rq_path = path, rq_header = [(''Accept-Encoding'', [accept])]\<rparr>"

theorem Compress_transparent_witness:
  "concat (map chunk_text (rc_body (finished (Compress (\<lambda>_. ''text/plain'') (example_request ''/d'' ''br, gzip'')
      [SetHeader ''Content-Type'' ''text/html; charset=utf-8'', Write ''<p>'', Flush, Write ''x''] fresh)))) = ''<p>x''"
  using Compress_transparent [of "[SetHeader ''Content-Type'' ''text/html; charset=utf-8'', Write ''<p>'', Flush, Write ''x'']"
      fresh "\<lambda>_. ''text/plain''" "example_request ''/d'' ''br, gzip''"]
  by (simp add: fresh_def finished_def emit_def Let_def commit_def)

text \<open>
  After an informational status the compressing writer drops the status of the handler.
\<close>

lemma informational_status_sticks:
  "let acts = [WriteHeader 103, WriteHeader 404, Write ''x'']; rq = example_request ''/d'' ''gzip''
   in rc_status (finished (foldl plain_step fresh acts)) = Some 404 \<and> rc_status (finished (Compress detect rq acts fresh)) = Some 200"
proof -
  have "\<not> isCompressible []" "chosen_encoding ''gzip'' = ''gzip''" "contains [] ''Upgrade'' = False" by code_simp+
  then show ?thesis
    by (simp add: Compress_def Let_def example_request_def hd_get_def get_or_def cw_start_def fresh_def
        cw_Write_def cw_WriteHeader_def commit_def emit_def finished_def informational_def)
qed

text \<open>
  Without that hypothesis the response breaks: an early flush sends the header before the encoding
  is named in it, and the body is compressed all the same.
\<close>

lemma early_flush_breaks_encoding:
  "let out = finished (Compress detect (example_request ''/d'' ''gzip'')
       [SetHeader ''Content-Type'' ''text/html'', Flush, Write ''x''] fresh)
   in rc_body out = [Packed ''gzip'' ''x''] \<and> get_or [] (rc_sent out) ''Content-Encoding'' = []"
proof -
  have "isCompressible ''text/html''" "chosen_encoding ''gzip'' = ''gzip''" "contains [] ''Upgrade'' = False" by code_simp+
  then show ?thesis
    by (simp add: Compress_def Let_def example_request_def hd_get_def get_or_def cw_start_def fresh_def cw_Flush_def
        cw_Write_def cw_WriteHeader_def commit_def emit_def finished_def)
qed

text \<open>The body as a client reads it that undoes the encoding the header names.\<close>

definition client_body :: "(string \<Rightarrow> string) \<Rightarrow> recorder \<Rightarrow> string" where
  "client_body gunzip out =
     (let body = concat (map chunk_text (rc_body out))
      in if (\<forall>c \<in> set (rc_body out). \<exists>b. c = Raw b) \<and> get_or [] (rc_sent out) ''Content-Encoding'' = [''gzip'']
         then gunzip body else body)"

text \<open>The assets are the files, each under its name.\<close>

lemma loadStaticAssets_files:
  assumes "wf_map files"
  shows "map_of (loadStaticAssets typeByExt detect gzip files) name =
    map_option (\<lambda>content. \<lparr>sa_content = content, sa_gzipped = gzip content,
      sa_type = (if typeByExt (path_ext name) = [] then detect content else typeByExt (path_ext name))\<rparr>) (map_of files name)"
proof -
  let ?asset = "\<lambda>name content. \<lparr>sa_content = content, sa_gzipped = gzip content,
      sa_type = (if typeByExt (path_ext name) = [] then detect content else typeByExt (path_ext name))\<rparr>"
  have "map_of (fold (\<lambda>(name, content). map_put name (?asset name content)) fs m) name =
      (case map_of (rev fs) name of Some content \<Rightarrow> Some (?asset name content) | None \<Rightarrow> map_of m name)" for fs m
    by (induction fs arbitrary: m) (auto simp: map_add_def split: option.splits)
  moreover have "map_of (rev files) = map_of files" using assms
    by (intro map_of_inject_set [THEN iffD2]) (simp_all add: rev_map [symmetric])
  ultimately show ?thesis unfolding loadStaticAssets_def by (simp split: option.split)
qed

text \<open>A name as an embedded tree has it: no segment is empty or a dot, and two dots never follow one another.\<close>

definition proper_name :: "string \<Rightarrow> bool" where
  "proper_name name \<longleftrightarrow> \<not> contains name ''..'' \<and> list_all (\<lambda>s. s \<notin> {[], ''.'', ''..''}) (split_byte (CHR ''/'') name)"

lemma clean_proper:
  "list_all (\<lambda>s. s \<notin> {[], ''.'', ''..''}) ss \<Longrightarrow> clean_segments rooted ss out = rev out @ ss"
  by (induction ss arbitrary: out) simp_all

lemma asset_name_proper:
  assumes "proper_name name" "rq_path rq = ''/static/'' @ name"
  shows "asset_name rq = name" "\<not> bad_name (asset_name rq)"
proof -
  let ?segs = "split_byte (CHR ''/'') name"
  have segs: "list_all (\<lambda>s. s \<notin> {[], ''.'', ''..''}) ?segs" using assms(1) by (simp add: proper_name_def)
  have "name \<noteq> []" using segs by auto
  moreover have "hd name \<noteq> CHR ''/''" using segs by (cases name) auto
  ultimately have rel: "\<not> has_prefix name ''/''" by (cases name) (auto simp: has_prefix_def)
  have "path_clean name = name"
    using rel join_split_byte [of "CHR ''/''" name] by (simp add: path_clean_def Let_def clean_proper [OF segs])
  moreover have "trim_prefix (rq_path rq) ''/static/'' = name" by (simp add: assms(2) trim_prefix_def has_prefix_def)
  moreover have "trim_prefix name ''/'' = name" using rel by (simp add: trim_prefix_def)
  ultimately show a: "asset_name rq = name" by (simp add: asset_name_def)
  have "name \<noteq> ''.''" using segs by auto
  moreover have "\<not> has_prefix name ''../''"
  proof
    assume "has_prefix name ''../''"
    then have "has_prefix name ''..''" by (cases name; cases "tl name") (auto simp: has_prefix_def)
    with assms(1) show False by (cases name) (auto simp: proper_name_def contains_def)
  qed
  ultimately show "\<not> bad_name (asset_name rq)" using a assms(1) \<open>name \<noteq> []\<close> by (simp add: bad_name_def proper_name_def)
qed

lemma staticHandler_plain: "commits_first (staticHandler assets rq)"
  by (auto simp: staticHandler_def not_found_def asset_actions_def Let_def split: option.splits)

lemma NoCache_fresh: "rc_status (NoCache rq fresh) = None" "rc_body (NoCache rq fresh) = []"
  by (simp_all add: NoCache_def fresh_def)

lemma NoCache_header:
  obtains v where "NoCache rq fresh = \<lparr>rc_header = [(''Cache-Control'', [v])], rc_status = None, rc_sent = [], rc_body = []\<rparr>"
  by (simp add: NoCache_def fresh_def)

lemma cw_Write_pass:
  assumes "\<not> cw_wrote w" "cw_compressor w = None" "hd_get (rc_header (cw_rec w)) ''Content-Type'' \<noteq> []"
    and "hd_get (rc_header (cw_rec w)) ''Content-Encoding'' \<noteq> []
      \<or> \<not> isCompressible (hd_get (rc_header (cw_rec w)) ''Content-Type'')"
  shows "cw_rec (cw_Write detect b w) = emit (Raw b) (cw_rec w)"
proof -
  have "cw_WriteHeader 200 w = w\<lparr>cw_wrote := True, cw_encoding := [], cw_rec := commit 200 (cw_rec w)\<rparr>"
    using assms by (simp add: cw_WriteHeader_def Let_def)
  with assms show ?thesis by (simp add: cw_Write_def emit_def Let_def)
qed

lemma cw_Write_pack:
  assumes "\<not> cw_wrote w" "hd_get (rc_header (cw_rec w)) ''Content-Type'' \<noteq> []"
    and "hd_get (rc_header (cw_rec w)) ''Content-Encoding'' = []"
    and "isCompressible (hd_get (rc_header (cw_rec w)) ''Content-Type'')"
    and "cw_encoding w = ''gzip'' \<or> cw_encoding w = ''deflate''" "rc_body (cw_rec w) = []"
  shows "rc_body (cw_rec (cw_Write detect b w)) = [Packed (cw_encoding w) b]"
proof -
  let ?w = "cw_WriteHeader 200 w"
  have "cw_compressor ?w = Some (cw_encoding w)" "cw_encoding ?w = cw_encoding w" "rc_body (cw_rec ?w) = []"
    using assms by (auto simp: cw_WriteHeader_def Let_def)
  moreover have "cw_encoding w \<noteq> []" using assms(5) by auto
  ultimately show ?thesis using assms(1,2) by (simp add: cw_Write_def emit_def Let_def)
qed

text \<open>The gzipped asset passes the compressing writer as it is, under the header of the handler.\<close>

lemma gzipped_asset_passes:
  assumes "gzips_asset rq asset" "rq_method rq \<noteq> ''HEAD''" "sa_type asset \<noteq> []"
  shows "rc_body (finished (Compress detect rq (asset_actions rq asset) (NoCache rq fresh))) = [Raw (sa_gzipped asset)]
    \<and> get_or [] (rc_sent (finished (Compress detect rq (asset_actions rq asset) (NoCache rq fresh)))) ''Content-Encoding'' = [''gzip'']"
proof -
  obtain v where v: "NoCache rq fresh = \<lparr>rc_header = [(''Cache-Control'', [v])], rc_status = None, rc_sent = [], rc_body = []\<rparr>"
    by (rule NoCache_header)
  have "chosen_encoding (hd_get (rq_header rq) ''Accept-Encoding'') = ''gzip''"
    using assms(1) by (simp add: gzips_asset_def chosen_encoding_def)
  then show ?thesis
    using assms
    by (cases "contains (hd_get (rq_header rq) ''Connection'') ''Upgrade''")
      (simp_all add: v Compress_def asset_actions_def Let_def cw_start_def cw_Write_pass
        hd_get_def finished_def emit_def commit_def get_or_def)
qed

lemma raw_asset_encoding:
  assumes "\<not> gzips_asset rq asset" "rq_method rq \<noteq> ''HEAD''" "sa_type asset \<noteq> []"
    and "\<forall>c \<in> set (rc_body (finished (Compress detect rq (asset_actions rq asset) (NoCache rq fresh)))). \<exists>b. c = Raw b"
  shows "get_or [] (rc_sent (finished (Compress detect rq (asset_actions rq asset) (NoCache rq fresh)))) ''Content-Encoding'' = []"
proof -
  let ?enc = "chosen_encoding (hd_get (rq_header rq) ''Accept-Encoding'')"
  obtain v where v: "NoCache rq fresh = \<lparr>rc_header = [(''Cache-Control'', [v])], rc_status = None, rc_sent = [], rc_body = []\<rparr>"
    by (rule NoCache_header)
  let ?h = "[(''Cache-Control'', [v]), (''Content-Type'', [sa_type asset]),
    (''Content-Length'', [itoa (int (length (sa_content asset)))])]"
  let ?r = "\<lparr>rc_header = ?h, rc_status = None, rc_sent = [], rc_body = []\<rparr>"
  have sent: "get_or [] (rc_sent (emit (Raw (sa_content asset)) ?r)) ''Content-Encoding'' = []"
    by (simp add: emit_def commit_def get_or_def)
  show ?thesis
  proof (cases "contains (hd_get (rq_header rq) ''Connection'') ''Upgrade'' \<or> ?enc = []")
    case True
    with assms(1,2) have "finished (Compress detect rq (asset_actions rq asset) (NoCache rq fresh)) = emit (Raw (sa_content asset)) ?r"
      by (auto simp: Compress_def Let_def v asset_actions_def finished_def emit_def)
    with sent show ?thesis by simp
  next
    case False
    let ?w = "\<lparr>cw_rec = ?r, cw_compressor = None, cw_wrote = False, cw_encoding = ?enc\<rparr>"
    have c: "Compress detect rq (asset_actions rq asset) (NoCache rq fresh) = cw_rec (cw_Write detect (sa_content asset) ?w)"
      using False assms(1,2) by (simp add: Compress_def Let_def v asset_actions_def cw_start_def)
    have ct: "hd_get ?h ''Content-Type'' = sa_type asset" "hd_get ?h ''Content-Encoding'' = []"
      by (simp_all add: hd_get_def get_or_def)
    have enc: "?enc = ''gzip'' \<or> ?enc = ''deflate''"
      using False chosen_encoding_cases [of "hd_get (rq_header rq) ''Accept-Encoding''"] by auto
    show ?thesis
    proof (cases "isCompressible (sa_type asset)")
      case True
      with cw_Write_pack [of ?w detect "sa_content asset"] ct enc assms(3)
      have "rc_body (cw_rec (cw_Write detect (sa_content asset) ?w)) = [Packed ?enc (sa_content asset)]" by simp
      with assms(4) show ?thesis by (simp add: c finished_def)
    next
      case False
      with cw_Write_pass [of ?w detect "sa_content asset"] ct assms(3)
      have "cw_rec (cw_Write detect (sa_content asset) ?w) = emit (Raw (sa_content asset)) ?r" by simp
      with sent show ?thesis by (simp add: c finished_def emit_def)
    qed
  qed
qed

lemma asset_delivered:
  assumes "map_of assets (asset_name rq) = Some \<lparr>sa_content = content, sa_gzipped = gzip content, sa_type = ty\<rparr>" "ty \<noteq> []"
    and "\<And>x. gunzip (gzip x) = x" "rq_method rq \<noteq> ''HEAD''" "\<not> bad_name (asset_name rq)"
  shows "client_body gunzip (serve_static detect assets rq) = content \<and> rc_status (serve_static detect assets rq) = Some 200"
proof
  let ?asset = "\<lparr>sa_content = content, sa_gzipped = gzip content, sa_type = ty\<rparr>"
  have acts: "staticHandler assets rq = asset_actions rq ?asset" using assms(1,5) by (simp add: staticHandler_def)
  note t = writer_transparent [OF staticHandler_plain [of assets rq] NoCache_fresh(1) [of rq] NoCache_fresh(2) [of rq], of detect rq,
      unfolded acts]
  have plain: "rc_status (finished (foldl plain_step (NoCache rq fresh) (asset_actions rq ?asset))) = Some 200
    \<and> concat (map chunk_text (rc_body (finished (foldl plain_step (NoCache rq fresh) (asset_actions rq ?asset)))))
      = (if gzips_asset rq ?asset then gzip content else content)"
    using assms(4) NoCache_fresh [of rq] by (simp add: asset_actions_def Let_def emit_def finished_def commit_def)
  then show "rc_status (serve_static detect assets rq) = Some 200" using t by (simp add: serve_static_def acts)
  show "client_body gunzip (serve_static detect assets rq) = content"
  proof (cases "gzips_asset rq ?asset")
    case True
    from gzipped_asset_passes [OF True assms(4), of detect] assms(2) show ?thesis
      by (simp add: client_body_def serve_static_def acts assms(3))
  next
    case False
    with raw_asset_encoding [OF False assms(4), of detect] assms(2) t plain show ?thesis
      by (auto simp: client_body_def serve_static_def acts Let_def)
  qed
qed


definition example_files :: "(string \<times> string) list" where
  "example_files = [(''css/main.css'', ''a{}''), (''robots'', ''x'')]"

definition example_assets :: "(string, static_asset) gomap" where
  "example_assets = loadStaticAssets (\<lambda>e. if e = ''.css'' then ''text/css; charset=utf-8'' else []) (\<lambda>_. ''text/plain'')
     rev example_files"


end
