(* ===== verification/Dashboard_Assets.thy ===== *)
theory Dashboard_Assets
  imports Dashboard_Http Dashboard_Views "HOL-Library.Word"
begin

text \<open>
  The addresses of static assets, \<^verbatim>\<open>New\<close> in \<^verbatim>\<open>dashboard/internal/server/server.go\<close>: every asset is linked
  under its name with the CRC-32 of its bytes, since browsers may keep it for a month. The templates
  are an argument.
\<close>

unbundle bit_operations_syntax

section \<open>The checksum\<close>

text \<open>\<^verbatim>\<open>crc32.ChecksumIEEE\<close> bit by bit, on 32-bit words.\<close>

definition crc_bit :: "32 word \<Rightarrow> 32 word" where
  "crc_bit x = (if bit x 0 then drop_bit 1 x XOR 0xEDB88320 else drop_bit 1 x)"

definition crc_byte :: "char \<Rightarrow> 32 word \<Rightarrow> 32 word" where
  "crc_byte b c = (crc_bit ^^ 8) (c XOR word_of_nat (of_char b))"

definition ChecksumIEEE :: "string \<Rightarrow> 32 word" where
  "ChecksumIEEE s = NOT (fold crc_byte s (NOT 0))"

definition hex_char :: "nat \<Rightarrow> char" where
  "hex_char n = char_of (if n < 10 then 48 + n else 87 + n)"

text \<open>\<^verbatim>\<open>%08x\<close>, the highest digit first.\<close>

definition hex8 :: "32 word \<Rightarrow> string" where
  "hex8 w = map (\<lambda>i. hex_char (unat (take_bit 4 (drop_bit (4 * i) w)))) (rev [0..<8])"

lemma ChecksumIEEE_example: "hex8 (ChecksumIEEE ''a'') = ''e8b7be43''"
  by code_simp

section \<open>The server\<close>

record 's server =
  sv_store :: "'s store"
  sv_retention :: int
  sv_assets :: "(string, static_asset) gomap"
  sv_hashes :: "(string, string) gomap"

definition asset_hashes :: "(string, static_asset) gomap \<Rightarrow> (string, string) gomap" where
  "asset_hashes assets = map (\<lambda>(name, asset). (name, hex8 (ChecksumIEEE (sa_content asset)))) assets"

text \<open>\<open>parse_templates\<close> is the error of the embedded templates, if any.\<close>

definition new_server :: "(string, static_asset) gomap \<Rightarrow> string option \<Rightarrow> 's store \<Rightarrow> int \<Rightarrow> 's server result" where
  "new_server assets parse_templates st retentionDays =
     (case parse_templates of
        Some e \<Rightarrow> Inl e
      | None \<Rightarrow> Inr \<lparr>sv_store = st, sv_retention = retentionDays, sv_assets = assets, sv_hashes = asset_hashes assets\<rparr>)"

section \<open>One byte changes the address\<close>

lemma crc_bit_inj: "crc_bit x = crc_bit y \<Longrightarrow> x = y"
proof -
  assume eq: "crc_bit x = crc_bit y"
  have poly: "bit (0xEDB88320 :: 32 word) 31" by simp
  have top: "bit (crc_bit z) 31 = bit z 0" for z
  proof -
    have "\<not> bit z 32" using bit_imp_le_length [of z 32] by auto
    then have "\<not> bit (drop_bit 1 z) 31" by (simp add: bit_drop_bit_eq)
    with poly show ?thesis by (simp add: crc_bit_def bit_xor_iff)
  qed
  with eq have low: "bit x 0 = bit y 0" by metis
  have "drop_bit 1 x = drop_bit 1 y"
  proof (cases "bit x 0")
    case True
    with eq low have "drop_bit 1 x XOR 0xEDB88320 = drop_bit 1 y XOR 0xEDB88320" by (simp add: crc_bit_def)
    then show ?thesis by (metis bit.xor_left_self xor.commute)
  next
    case False
    with eq low show ?thesis by (simp add: crc_bit_def)
  qed
  then have "bit x (Suc n) = bit y (Suc n)" for n
    by (metis bit_drop_bit_eq comp_apply plus_1_eq_Suc)
  with low have "bit x n = bit y n" for n by (cases n) auto
  then show "x = y" by (simp add: bit_eq_iff)
qed

lemma crc_bits_inj: "(crc_bit ^^ n) x = (crc_bit ^^ n) y \<Longrightarrow> x = y"
  by (induction n) (auto dest: crc_bit_inj)

lemma crc_byte_inj: "crc_byte b c = crc_byte b d \<Longrightarrow> c = d"
  unfolding crc_byte_def by (drule crc_bits_inj) (metis bit.xor_left_self xor.commute)

lemma crc_byte_char: "crc_byte a c = crc_byte b c \<Longrightarrow> a = b"
proof -
  assume "crc_byte a c = crc_byte b c"
  then have "c XOR word_of_nat (of_char a) = c XOR (word_of_nat (of_char b) :: 32 word)"
    unfolding crc_byte_def by (rule crc_bits_inj)
  then have "word_of_nat (of_char a) = (word_of_nat (of_char b) :: 32 word)" by (metis bit.xor_left_self)
  then have "unat (word_of_nat (of_char a) :: 32 word) = unat (word_of_nat (of_char b) :: 32 word)" by simp
  moreover have "of_char x < (2 :: nat) ^ 32" for x
    using nat_of_char_less_256 [of x] by (rule less_trans) simp
  ultimately have "(of_char a :: nat) = of_char b" by (simp add: unat_of_nat take_bit_nat_eq_self)
  then show "a = b" by simp
qed

lemma crc_fold_inj: "fold crc_byte s c = fold crc_byte s d \<Longrightarrow> c = d"
  by (induction s arbitrary: c d) (auto dest: crc_byte_inj)

lemma one_byte_changes_checksum: "a \<noteq> b \<Longrightarrow> ChecksumIEEE (p @ a # s) \<noteq> ChecksumIEEE (p @ b # s)"
  by (auto simp: ChecksumIEEE_def dest: crc_fold_inj crc_byte_char)

lemma hex_char_inj: "hex_char m = hex_char n \<Longrightarrow> m < 16 \<Longrightarrow> n < 16 \<Longrightarrow> m = n"
proof -
  assume "hex_char m = hex_char n" "m < 16" "n < 16"
  from arg_cong [OF this(1), of "of_char :: char \<Rightarrow> nat"] this(2,3) show "m = n"
    by (auto simp: hex_char_def split: if_splits)
qed

lemma hex8_inj: "hex8 v = hex8 w \<Longrightarrow> v = w"
proof (rule bit_word_eqI)
  fix n :: nat
  assume eq: "hex8 v = hex8 w" and n: "n < LENGTH(32)"
  let ?i = "n div 4"
  have small: "unat (take_bit 4 x) < 16" for x :: "32 word"
    using take_bit_nat_less_exp [of 4 "unat x"] by (simp add: unsigned_take_bit_eq)
  have "?i \<in> set (rev [0..<8])" using n by auto
  with eq have "hex_char (unat (take_bit 4 (drop_bit (4 * ?i) v))) = hex_char (unat (take_bit 4 (drop_bit (4 * ?i) w)))"
    unfolding hex8_def map_eq_conv by blast
  then have "take_bit 4 (drop_bit (4 * ?i) v) = take_bit 4 (drop_bit (4 * ?i) w)"
    using hex_char_inj small by (metis word_unat_eq_iff)
  then have "bit (take_bit 4 (drop_bit (4 * ?i) v)) (n mod 4) = bit (take_bit 4 (drop_bit (4 * ?i) w)) (n mod 4)" by simp
  then show "bit v n = bit w n" by (simp add: bit_take_bit_iff bit_drop_bit_eq)
qed

lemma asset_hash: "map_of assets name = Some x \<Longrightarrow> map_of (asset_hashes assets) name = Some (hex8 (ChecksumIEEE (sa_content x)))"
  by (induction assets) (auto simp: asset_hashes_def)

text \<open>
  An asset of which one byte has changed is linked under another address, so no browser shows the one it
  has kept.
\<close>

theorem changed_asset_changes_address:
  assumes "map_of assets name = Some x" "map_of assets' name = Some y"
    and "sa_content x = p @ a # s" "sa_content y = p @ b # s" "a \<noteq> b"
  shows "assetURL name (asset_hashes assets) \<noteq> assetURL name (asset_hashes assets')"
  using one_byte_changes_checksum [OF assms(5), of p s] assms(1-4) by (auto simp: assetURL_def asset_hash dest: hex8_inj)

end
