(* ===== verification/Dashboard_Main.thy ===== *)
theory Dashboard_Main
  imports Dashboard_Assets Dashboard_Config Rollup_Runner
begin

text \<open>
  \<^verbatim>\<open>dashboard/cmd/dashboard/main.go\<close>: the start of the dashboard, from the configuration to the runner and the
  server. Every failure ends the process. The flags, the signals and the shutdown of the HTTP server are left out.
\<close>

datatype fatal = LoadFailed config_error | ConnectFailed string | BadInterval | BadPace | ServerFailed string

text \<open>
  The options a location is dialled with, \<^verbatim>\<open>dial\<close> in \<^verbatim>\<open>store.go\<close>, and the HTTP server with the time it gives
  a client to send its headers; its handler is \<open>route\<close> of \<open>Dashboard_Http\<close>.
\<close>

record client_option =
  co_addresses :: "string list"
  co_username :: string
  co_password :: string
  co_db :: int
  co_tls :: bool

definition dial_option :: "location \<Rightarrow> client_option" where
  "dial_option loc =
     \<lparr>co_addresses = [lc_addr loc], co_username = lc_username loc, co_password = lc_password loc,
      co_db = lc_db loc, co_tls = lc_tls loc\<rparr>"

definition dial_location :: "(client_option \<Rightarrow> 's result) \<Rightarrow> location \<Rightarrow> 's result" where
  "dial_location newClient loc = newClient (dial_option loc)"

record http_server =
  hs_addr :: string
  hs_header_timeout :: duration

definition newHTTPServer :: "string \<Rightarrow> http_server" where
  "newHTTPServer addr = \<lparr>hs_addr = addr, hs_header_timeout = 10 * second\<rparr>"

record ('s, 'v) dashboard =
  db_store :: "'s store"
  db_interval :: duration
  db_pace :: duration
  db_runner :: runner
  db_server :: 'v
  db_http :: http_server

text \<open>The runner starts with a full backfill in flight.\<close>

definition dashboard_main :: "(string \<Rightarrow> string result) \<Rightarrow> (string \<Rightarrow> config result) \<Rightarrow> (string \<Rightarrow> string) \<Rightarrow> (location \<Rightarrow> 's result)
    \<Rightarrow> ('s store \<Rightarrow> int \<Rightarrow> 'v result) \<Rightarrow> string \<Rightarrow> time \<Rightarrow> fatal + ('s, 'v) dashboard" where
  "dashboard_main readFile decode env dial newServer path now =
     (case Load readFile decode env path of
        Inl e \<Rightarrow> Inl (LoadFailed e)
      | Inr cfg \<Rightarrow>
     (case NewStore dial cfg of
        Inl e \<Rightarrow> Inl (ConnectFailed e)
      | Inr st \<Rightarrow>
     (case RollupDuration cfg of
        None \<Rightarrow> Inl BadInterval
      | Some interval \<Rightarrow>
     (case BackfillPaceDuration cfg of
        None \<Rightarrow> Inl BadPace
      | Some pace \<Rightarrow>
     (case newServer st (cf_retention_days cfg) of
        Inl e \<Rightarrow> Inl (ServerFailed e)
      | Inr srv \<Rightarrow>
          Inr \<lparr>db_store = st, db_interval = interval, db_pace = pace,
               db_runner = start_runner (new_runner (cf_retention_days cfg)) now, db_server = srv, db_http = newHTTPServer (cf_http_addr cfg)\<rparr>)))))"

text \<open>Once a configuration has loaded, only a location or the server can keep the dashboard from starting.\<close>

theorem loaded_dashboard_starts:
  assumes "Load readFile decode env path = Inr cfg" "NewStore dial cfg = Inr st"
    "newServer st (cf_retention_days cfg) = Inr srv"
  shows "\<exists>db. dashboard_main readFile decode env dial newServer path now = Inr db
    \<and> db_store db = st \<and> 0 < db_interval db \<and> 0 \<le> db_pace db \<and> rn_backfilling (db_runner db)"
proof -
  have "valid_config cfg"
    using assms(1) by (auto simp: Load_def Let_def validate_valid split: sum.splits option.splits)
  then show ?thesis using assms by (auto simp: dashboard_main_def valid_config_def start_runner_def)
qed

text \<open>
  Over the server of \<open>Dashboard_Assets\<close>: with templates that parse, a dashboard whose locations answer starts,
  and every page links each asset under its checksum.
\<close>

theorem dashboard_starts:
  assumes "Load readFile decode env path = Inr cfg" "\<forall>loc \<in> set (cf_locations cfg). \<exists>c. newClient (dial_option loc) = Inr c"
    and "map_of assets name = Some x"
  shows "\<exists>db. dashboard_main readFile decode env (dial_location newClient) (new_server assets None) path now = Inr db
    \<and> assetURL name (sv_hashes (db_server db)) = ''/static/'' @ name @ ''?v='' @ hex8 (ChecksumIEEE (sa_content x))"
proof -
  obtain st where st: "NewStore (dial_location newClient) cfg = Inr st"
    using loaded_store [OF assms(1), of "dial_location newClient"] assms(2) by (auto simp: dial_location_def)
  have "valid_config cfg"
    using assms(1) by (auto simp: Load_def Let_def validate_valid split: sum.splits option.splits)
  then show ?thesis
    using assms(1) st by (auto simp: dashboard_main_def valid_config_def new_server_def assetURL_def asset_hash [OF assms(3)])
qed

end
