(* ===== verification/Valkey_Test_Control.thy ===== *)
theory Valkey_Test_Control
  imports Valkey_Test_Server
begin

text \<open>
  The in-memory server of \<^verbatim>\<open>dashboard/internal/valkeytest\<close> as a test holds it: the state of the commands with
  the log of what arrived, and the functions a test calls to fill and to read it.
\<close>

record vt_host =
  vh_server :: vt_server
  vh_commands :: "payload list list"

definition vh_start :: vt_host where
  "vh_start = \<lparr>vh_server = vt_start, vh_commands = []\<rparr>"

definition vh_HSet :: "vt_host \<Rightarrow> string \<Rightarrow> string \<Rightarrow> payload \<Rightarrow> vt_host" where
  "vh_HSet s key field value = s\<lparr>vh_server := vt_hset (vh_server s) key field value\<rparr>"

definition vh_SAdd :: "vt_host \<Rightarrow> string \<Rightarrow> string list \<Rightarrow> vt_host" where
  "vh_SAdd s key members = s\<lparr>vh_server := fold (\<lambda>m sv. vt_sadd sv key m) members (vh_server s)\<rparr>"

definition vh_SetKeyTTL :: "vt_host \<Rightarrow> string \<Rightarrow> int \<Rightarrow> vt_host" where
  "vh_SetKeyTTL s key ttl =
     s\<lparr>vh_server := (vh_server s)\<lparr>vt_key_ttl := map_put key ttl (vt_key_ttl (vh_server s))\<rparr>\<rparr>"

definition vh_Commands :: "vt_host \<Rightarrow> payload list list" where
  "vh_Commands s = vh_commands s"

text \<open>The commands of the handshake, which no log keeps.\<close>

definition handshake :: "payload list \<Rightarrow> bool" where
  "handshake args \<longleftrightarrow>
     args = [] \<or> to_upper (payload_text (hd args)) \<in> {''HELLO'', ''CLIENT'', ''SELECT'', ''AUTH'', ''PING'', ''CLUSTER''}"

definition vh_reply :: "vt_host \<Rightarrow> payload list \<Rightarrow> (resp \<times> vt_host) option" where
  "vh_reply s args =
     (case vt_reply (vh_server s) args of
        None \<Rightarrow> None
      | Some (r, sv) \<Rightarrow>
          Some (r, \<lparr>vh_server = sv, vh_commands = (if handshake args then vh_commands s else vh_commands s @ [args])\<rparr>))"

text \<open>A connection answers its commands in order.\<close>

fun vh_serve :: "vt_host \<Rightarrow> payload list list \<Rightarrow> (resp list \<times> vt_host) option" where
  "vh_serve s [] = Some ([], s)"
| "vh_serve s (args # rest) =
     (case vh_reply s args of
        None \<Rightarrow> None
      | Some (r, s1) \<Rightarrow> map_option (\<lambda>(rs, s2). (r # rs, s2)) (vh_serve s1 rest))"

theorem log_keeps_commands:
  "vh_serve s cmds = Some (rs, s') \<Longrightarrow>
    vh_Commands s' = vh_Commands s @ filter (\<lambda>args. \<not> handshake args) cmds \<and> length rs = length cmds"
proof (induction cmds arbitrary: s rs)
  case (Cons args cmds)
  obtain r s1 rs' where r: "vh_reply s args = Some (r, s1)" "vh_serve s1 cmds = Some (rs', s')" "rs = r # rs'"
    using Cons.prems by (auto split: option.splits)
  have "vh_Commands s1 = vh_Commands s @ (if handshake args then [] else [args])"
    using r(1) by (auto simp: vh_reply_def vh_Commands_def split: option.splits)
  with Cons.IH [OF r(2)] r(3) show ?case by simp
qed (simp add: vh_Commands_def)

lemma handshake_changes_nothing: "handshake args \<Longrightarrow> vt_reply s args = Some (r, s') \<Longrightarrow> s' = s"
  by (cases args) (auto simp: handshake_def vt_reply_def Let_def split: if_splits)

lemma HSet_reads_back: "vt_fields (vh_server (vh_HSet s key field value)) key field = Some value"
  by (simp add: vh_HSet_def vt_fields_def vt_hset_def vt_hash_def get_or_def)

end
