(* ===== verification/Notifier_Core.thy ===== *)
theory Notifier_Core
  imports Rollup_Data
begin

text \<open>
  \<^verbatim>\<open>internal/notifier/notifier.go\<close> and the notifiers of \<^verbatim>\<open>internal/notifier/slack\<close>,
  \<^verbatim>\<open>internal/notifier/discord\<close> and \<^verbatim>\<open>internal/notifier/webhook\<close>, with their configuration types of
  \<^verbatim>\<open>api/v1alpha1\<close>. What lies outside the program acts on a world \<open>'w\<close> and is gathered in a record of
  functions: HTTP exchanges, Secrets, templates. A template is known by its text.
\<close>

section \<open>Notices\<close>

record notice_values =
  nv_status :: string
  nv_endpoint :: string
  nv_driver :: string
  nv_healthy :: string
  nv_name :: string
  nv_response :: string
  nv_response_ms :: int
  nv_last_status :: string
  nv_last_checked :: string
  nv_last_change :: string
  nv_current_time :: string
  nv_status_time :: string
  nv_message :: string
  nv_namespace :: string
  nv_alert_message :: string

text \<open>\<^verbatim>\<open>RetryableError\<close> around an error, or a plain one.\<close>

datatype alert_error = Retryable string | Permanent string

fun retryable :: "alert_error \<Rightarrow> bool" where
  "retryable (Retryable _) \<longleftrightarrow> True"
| "retryable (Permanent _) \<longleftrightarrow> False"

definition ShouldAlert :: "string list \<Rightarrow> string \<Rightarrow> bool" where
  "ShouldAlert allowed status =
     (if allowed = [] then status = ''failure'' else status \<in> set allowed)"

section \<open>The world outside\<close>

datatype http_body = NoBody | JsonBody json | TextBody string

record http_request =
  hr_method :: string
  hr_url :: string
  hr_headers :: "(string \<times> string) list"
  hr_body :: http_body

record http_response =
  hp_code :: int
  hp_status :: string

text \<open>
  \<open>ex_bad_url\<close> is the error of \<^verbatim>\<open>http.NewRequest\<close>, \<open>ex_http\<close> a request and its answer, \<open>ex_secret\<close> the
  data of a Secret, \<open>ex_bad_template\<close> and \<open>ex_template\<close> parse and execute a template, \<open>ex_version\<close> is the
  version set at build time.
\<close>

record 'w externals =
  ex_bad_url :: "string \<Rightarrow> string option"
  ex_http :: "http_request \<Rightarrow> 'w \<Rightarrow> http_response result \<times> 'w"
  ex_secret :: "string \<Rightarrow> string \<Rightarrow> 'w \<Rightarrow> (string, string) gomap result"
  ex_bad_template :: "string \<Rightarrow> string option"
  ex_template :: "string \<Rightarrow> notice_values \<Rightarrow> string result"
  ex_version :: string

type_synonym 'w notifier = "string \<Rightarrow> notice_values \<Rightarrow> 'w \<Rightarrow> alert_error option \<times> 'w"

definition user_agent :: "'w externals \<Rightarrow> string \<times> string" where
  "user_agent ex = (''User-Agent'', ''endpoint-monitoring/'' @ ex_version ex)"

definition is_2xx :: "int \<Rightarrow> bool" where
  "is_2xx code \<longleftrightarrow> 200 \<le> code \<and> code < 300"

section \<open>Slack\<close>

record slack_config =
  sl_enabled :: bool
  sl_url :: string
  sl_alert_on :: "string list"

definition new_slack :: "slack_config option \<Rightarrow> slack_config result" where
  "new_slack config =
     (case config of
        None \<Rightarrow> Inl ''invalid Slack config''
      | Some c \<Rightarrow> if \<not> sl_enabled c \<or> sl_url c = [] then Inl ''invalid Slack config'' else Inr c)"

text \<open>The exchange the chat notifiers share: a JSON object posted to the webhook.\<close>

definition post_json :: "'w externals \<Rightarrow> string \<Rightarrow> string \<Rightarrow> json \<Rightarrow> 'w \<Rightarrow> alert_error option \<times> 'w" where
  "post_json ex kind url body w =
     (case ex_bad_url ex url of
        Some e \<Rightarrow> (Some (Permanent (''failed to create '' @ kind @ '' request: '' @ e)), w)
      | None \<Rightarrow>
          (case ex_http ex \<lparr>hr_method = ''POST'', hr_url = url,
              hr_headers = [(''Content-Type'', ''application/json''), user_agent ex], hr_body = JsonBody body\<rparr> w of
             (Inl e, w') \<Rightarrow> (Some (Permanent (''failed to send '' @ kind @ '' alert: '' @ e)), w')
           | (Inr resp, w') \<Rightarrow>
               (if \<not> is_2xx (hp_code resp)
                then (Some (Permanent (''non-2xx response from '' @ kind @ '': '' @ hp_status resp)), w')
                else (None, w'))))"

definition slack_send :: "'w externals \<Rightarrow> slack_config \<Rightarrow> 'w notifier" where
  "slack_send ex cfg status values w =
     (if \<not> ShouldAlert (sl_alert_on cfg) status then (None, w)
      else post_json ex ''slack'' (sl_url cfg) (JObj [(''text'', jstr (nv_alert_message values))]) w)"

section \<open>Discord\<close>

record discord_config =
  dc_enabled :: bool
  dc_url :: string
  dc_alert_on :: "string list"

definition new_discord :: "discord_config option \<Rightarrow> discord_config result" where
  "new_discord config =
     (case config of
        None \<Rightarrow> Inl ''invalid Discord config''
      | Some c \<Rightarrow> if \<not> dc_enabled c \<or> dc_url c = [] then Inl ''invalid Discord config'' else Inr c)"

definition status_emoji :: "string \<Rightarrow> string" where
  "status_emoji status =
     (if status = ''success'' then '':white_check_mark:''
      else if status = ''failure'' then '':x:'' else '':information_source:'')"

definition code_fence :: string where
  "code_fence = replicate 3 (CHR 0x60)"

definition formatDiscordMessage :: "notice_values \<Rightarrow> string" where
  "formatDiscordMessage values =
     (let e = status_emoji (nv_status values)
      in e @ '' **Endpoint Monitor Alert** '' @ e @ nl @ nl @ ''**Status:** '' @ to_upper (nv_status values)
           @ nl @ nl @ ''**Details:**'' @ nl @ code_fence @ nl @ nv_alert_message values @ nl @ code_fence)"

definition discord_send :: "'w externals \<Rightarrow> discord_config \<Rightarrow> 'w notifier" where
  "discord_send ex cfg status values w =
     (if \<not> ShouldAlert (dc_alert_on cfg) status then (None, w)
      else post_json ex ''discord'' (dc_url cfg) (JObj [(''content'', jstr (formatDiscordMessage values))]) w)"

section \<open>Webhook\<close>

record webhook_config =
  wh_enabled :: bool
  wh_url :: string
  wh_authorization :: string
  wh_content_type :: string
  wh_contents :: string
  wh_alert_on :: "string list"

definition new_webhook :: "'w externals \<Rightarrow> webhook_config option \<Rightarrow> webhook_config result" where
  "new_webhook ex config =
     (case config of
        None \<Rightarrow> Inl ''invalid Webhook config''
      | Some c \<Rightarrow>
          (if \<not> wh_enabled c \<or> wh_url c = [] then Inl ''invalid Webhook config''
           else if wh_contents c \<noteq> []
           then (case ex_bad_template ex (wh_contents c) of
                   Some e \<Rightarrow> Inl (''failed to parse the contents template: '' @ e)
                 | None \<Rightarrow> Inr c)
           else Inr c))"

text \<open>\<^verbatim>\<open>base64.StdEncoding\<close>: three bytes make four letters, the last group is padded.\<close>

definition base64_letter :: "nat \<Rightarrow> char" where
  "base64_letter n =
     (if n < 26 then char_of (65 + n) else if n < 52 then char_of (97 + (n - 26))
      else if n < 62 then char_of (48 + (n - 52)) else if n = 62 then CHR ''+'' else CHR ''/'')"

fun base64 :: "string \<Rightarrow> string" where
  "base64 [] = []"
| "base64 [a] =
     (let x = of_char a :: nat in [base64_letter (x div 4), base64_letter (x mod 4 * 16), CHR ''='', CHR ''=''])"
| "base64 [a, b] =
     (let x = of_char a; y = of_char b :: nat
      in [base64_letter (x div 4), base64_letter (x mod 4 * 16 + y div 16), base64_letter (y mod 16 * 4), CHR ''=''])"
| "base64 (a # b # c # rest) =
     (let x = of_char a; y = of_char b; z = of_char c :: nat
      in base64_letter (x div 4) # base64_letter (x mod 4 * 16 + y div 16)
           # base64_letter (y mod 16 * 4 + z div 64) # base64_letter (z mod 64) # base64 rest)"

definition authorization_headers :: "(string, string) gomap \<Rightarrow> (string \<times> string) list" where
  "authorization_headers secret =
     (case map_of secret ''Raw'' of Some a \<Rightarrow> [(''Authorization'', a)] | None \<Rightarrow> [])
     @ (case map_of secret ''Basic'' of Some a \<Rightarrow> [(''Authorization'', ''Basic '' @ base64 a)] | None \<Rightarrow> [])
     @ (case map_of secret ''Bearer'' of Some a \<Rightarrow> [(''Authorization'', ''Bearer '' @ a)] | None \<Rightarrow> [])"

definition webhook_request :: "'w externals \<Rightarrow> webhook_config \<Rightarrow> notice_values \<Rightarrow> http_request result" where
  "webhook_request ex cfg values =
     (if wh_contents cfg \<noteq> []
      then (case ex_template ex (wh_contents cfg) values of
              Inl e \<Rightarrow> Inl (''WEBHOOK: failed to execute the contents template: '' @ e)
            | Inr body \<Rightarrow>
                (case ex_bad_url ex (wh_url cfg) of
                   Some e \<Rightarrow> Inl (''WEBHOOK: failed to create POST webhook: '' @ e)
                 | None \<Rightarrow> Inr \<lparr>hr_method = ''POST'', hr_url = wh_url cfg,
                     hr_headers = [(''Content-Type'', if wh_content_type cfg \<noteq> [] then wh_content_type cfg
                       else ''application/json'')], hr_body = TextBody body\<rparr>))
      else (case ex_bad_url ex (wh_url cfg) of
              Some e \<Rightarrow> Inl (''WEBHOOK: failed to GET webhook alert: '' @ e)
            | None \<Rightarrow> Inr \<lparr>hr_method = ''GET'', hr_url = wh_url cfg, hr_headers = [], hr_body = NoBody\<rparr>))"

definition webhook_failure :: "http_response result \<Rightarrow> alert_error option" where
  "webhook_failure answer =
     (case answer of
        Inl e \<Rightarrow> Some (Retryable (''WEBHOOK: failed to make http webhook request: '' @ e))
      | Inr resp \<Rightarrow>
          (if is_2xx (hp_code resp) then None
           else let e = ''WEBHOOK: non-2xx response from webhook: '' @ hp_status resp
             in if hp_code resp = 429 \<or> 500 \<le> hp_code resp then Some (Retryable e) else Some (Permanent e)))"

definition webhook_send :: "'w externals \<Rightarrow> webhook_config \<Rightarrow> 'w notifier" where
  "webhook_send ex cfg status values w =
     (if \<not> ShouldAlert (wh_alert_on cfg) status then (None, w)
      else case webhook_request ex cfg values of
        Inl e \<Rightarrow> (Some (Permanent e), w)
      | Inr req \<Rightarrow>
          (case (if wh_authorization cfg \<noteq> [] then ex_secret ex (wh_authorization cfg) (nv_namespace values) w
                 else Inr []) of
             Inl e \<Rightarrow> (Some (Permanent (''WEBHOOK: unable to read the authorization secret: '' @ e)), w)
           | Inr secret \<Rightarrow>
               (case ex_http ex (req\<lparr>hr_headers := hr_headers req @ [user_agent ex] @ authorization_headers secret\<rparr>) w of
                  (answer, w') \<Rightarrow> (webhook_failure answer, w'))))"

end
