(* ===== verification/Go_Net.thy ===== *)
theory Go_Net
  imports Go_Strings
begin

text \<open>
  \<^verbatim>\<open>net.SplitHostPort\<close> and \<^verbatim>\<open>net.JoinHostPort\<close> of the standard library, and
  \<^verbatim>\<open>internal/driver/endpoint.go\<close>, which reads the endpoint of a monitor with them.
\<close>

text \<open>The text before and after the last occurrence of a byte.\<close>

definition cut_last :: "char \<Rightarrow> string \<Rightarrow> (string \<times> string) option" where
  "cut_last c s =
     (if c \<in> set s
      then Some (rev (tl (dropWhile (\<lambda>x. x \<noteq> c) (rev s))), rev (takeWhile (\<lambda>x. x \<noteq> c) (rev s)))
      else None)"

text \<open>No value stands for the error; the texts of the errors are not used.\<close>

definition SplitHostPort :: "string \<Rightarrow> (string \<times> string) option" where
  "SplitHostPort hostport =
     (case cut_last (CHR '':'') hostport of
        None \<Rightarrow> None
      | Some (before, port) \<Rightarrow>
          (if hd hostport = CHR ''[''
           then (if CHR '']'' \<notin> set hostport then None
                 else let host = takeWhile (\<lambda>x. x \<noteq> CHR '']'') (tl hostport)
                   in if CHR ''['' # host @ [CHR '']''] \<noteq> before then None
                      else if CHR ''['' \<in> set host \<or> CHR ''['' \<in> set port \<or> CHR '']'' \<in> set port then None
                      else Some (host, port))
           else if CHR '':'' \<in> set before \<or> CHR ''['' \<in> set hostport \<or> CHR '']'' \<in> set hostport then None
           else Some (before, port)))"

definition JoinHostPort :: "string \<Rightarrow> string \<Rightarrow> string" where
  "JoinHostPort host port =
     (if CHR '':'' \<in> set host then ''['' @ host @ '']:'' @ port else host @ '':'' @ port)"

section \<open>Endpoints\<close>

definition checkHostEndpoint :: "string \<Rightarrow> string option" where
  "checkHostEndpoint endpoint =
     (if contains endpoint ''://'' \<or> contains endpoint ''@''
      then Some ''endpoint must be a host or host:port, without a scheme or a user'' else None)"

definition hostPort :: "string \<Rightarrow> string \<Rightarrow> string \<times> string" where
  "hostPort endpoint defaultPort =
     (let (host, port) = (case SplitHostPort endpoint of
            Some hp \<Rightarrow> hp
          | None \<Rightarrow> (if has_prefix endpoint ''['' \<and> has_suffix endpoint '']''
                     then take (length endpoint - 2) (drop 1 endpoint) else endpoint, []))
      in (host, if port = [] then defaultPort else port))"

section \<open>Splitting and joining\<close>

lemma takeWhile_neq_append: "c \<notin> set a \<Longrightarrow> takeWhile (\<lambda>x. x \<noteq> c) (a @ c # b) = a"
  by (induction a) auto

lemma dropWhile_neq_append: "c \<notin> set a \<Longrightarrow> dropWhile (\<lambda>x. x \<noteq> c) (a @ c # b) = c # b"
  by (induction a) auto

lemma cut_last_append: "c \<notin> set b \<Longrightarrow> cut_last c (a @ c # b) = Some (a, b)"
  using takeWhile_neq_append [of c "rev b" "rev a"] dropWhile_neq_append [of c "rev b" "rev a"]
  by (simp add: cut_last_def)

definition plain_host :: "string \<Rightarrow> bool" where
  "plain_host h \<longleftrightarrow> CHR ''['' \<notin> set h \<and> CHR '']'' \<notin> set h"

definition plain_port :: "string \<Rightarrow> bool" where
  "plain_port p \<longleftrightarrow> CHR '':'' \<notin> set p \<and> CHR ''['' \<notin> set p \<and> CHR '']'' \<notin> set p"

lemma SplitHostPort_JoinHostPort:
  assumes "plain_host h" "plain_port p"
  shows "SplitHostPort (JoinHostPort h p) = Some (h, p)"
proof (cases "CHR '':'' \<in> set h")
  case True
  have "cut_last (CHR '':'') ((''['' @ h @ '']'') @ CHR '':'' # p) = Some (''['' @ h @ '']'', p)"
    using assms(2) by (intro cut_last_append) (simp add: plain_port_def)
  moreover have "takeWhile (\<lambda>x. x \<noteq> CHR '']'') (h @ CHR '']'' # CHR '':'' # p) = h"
    using assms(1) by (intro takeWhile_neq_append) (simp add: plain_host_def)
  ultimately show ?thesis
    using assms True by (simp add: SplitHostPort_def JoinHostPort_def plain_host_def plain_port_def)
next
  case False
  have "cut_last (CHR '':'') (h @ CHR '':'' # p) = Some (h, p)"
    using assms(2) by (intro cut_last_append) (simp add: plain_port_def)
  moreover have "hd (h @ CHR '':'' # p) \<noteq> CHR ''[''" using assms(1) by (cases h) (auto simp: plain_host_def)
  ultimately show ?thesis
    using assms False by (simp add: SplitHostPort_def JoinHostPort_def plain_host_def plain_port_def)
qed

lemma cut_last_parts: "cut_last c s = Some (a, b) \<Longrightarrow> s = a @ c # b \<and> c \<notin> set b"
proof -
  assume "cut_last c s = Some (a, b)"
  then have c: "c \<in> set (rev s)" and a: "a = rev (tl (dropWhile (\<lambda>x. x \<noteq> c) (rev s)))"
    and b: "b = rev (takeWhile (\<lambda>x. x \<noteq> c) (rev s))" by (auto simp: cut_last_def split: if_splits)
  from c obtain u v where u: "rev s = u @ c # v" "c \<notin> set u" by (meson split_list_first)
  with a b show ?thesis
    by (metis append_Cons append_Nil append_assoc dropWhile_neq_append list.sel(3) rev.simps(2) rev_append rev_rev_ident
        set_rev takeWhile_neq_append)
qed

end
