(* ===== verification/Resp_Protocol.thy ===== *)
theory Resp_Protocol
  imports Go_Net
begin

text \<open>
  The Valkey protocol on both ends: \<^verbatim>\<open>internal/notifier/valkey/client.go\<close>, which encodes commands and
  reads replies, the encoder of \<^verbatim>\<open>internal/driver/redis.go\<close>, and the command reader of the in-memory
  server (\<^verbatim>\<open>dashboard/internal/valkeytest/valkeytest.go\<close>). A stream is the list of bytes that will still
  arrive before it ends. \<^verbatim>\<open>make\<close> panics on a negative length and on one beyond the address space.
\<close>

datatype stream_error = Eof | Malformed string | Panic

section \<open>Encoding a command\<close>

definition encode_arg :: "string \<Rightarrow> string" where
  "encode_arg arg = ''$'' @ itoa (int (length arg)) @ crlf @ arg @ crlf"

definition encodeCommand :: "string list \<Rightarrow> string" where
  "encodeCommand cmd = ''*'' @ itoa (int (length cmd)) @ crlf @ concat (map encode_arg cmd)"

fun redis_args :: "string list \<Rightarrow> string" where
  "redis_args [] = []"
| "redis_args (arg # args) = ''$'' @ itoa (int (length arg)) @ crlf @ arg @ crlf @ redis_args args"

definition redisEncode :: "string list \<Rightarrow> string" where
  "redisEncode args = ''*'' @ itoa (int (length args)) @ crlf @ redis_args args"

section \<open>Reading bytes\<close>

text \<open>\<^verbatim>\<open>ReadString\<close> up to and including a line feed, and \<^verbatim>\<open>io.ReadFull\<close>.\<close>

definition read_string :: "string \<Rightarrow> (string \<times> string) option" where
  "read_string inp =
     (if CHR 0x0A \<in> set inp
      then Some (takeWhile (\<lambda>c. c \<noteq> CHR 0x0A) inp @ nl, tl (dropWhile (\<lambda>c. c \<noteq> CHR 0x0A) inp))
      else None)"

definition read_full :: "nat \<Rightarrow> string \<Rightarrow> (string \<times> string) option" where
  "read_full n inp = (if n \<le> length inp then Some (take n inp, drop n inp) else None)"

text \<open>The largest slice of one-byte elements that \<^verbatim>\<open>make\<close> can ask the allocator for.\<close>

definition max_alloc :: int where
  "max_alloc = 2 ^ 48"

definition is_eol :: "char \<Rightarrow> bool" where
  "is_eol c \<longleftrightarrow> c = CHR 0x0D \<or> c = CHR 0x0A"

definition readLine :: "string \<Rightarrow> (string \<times> string) option" where
  "readLine inp = map_option (\<lambda>(line, rest). (trim_right is_eol line, rest)) (read_string inp)"

lemma read_string_length: "read_string inp = Some (line, rest) \<Longrightarrow> length rest < length inp"
  by (induction inp arbitrary: line rest) (auto simp: read_string_def split: if_splits)

lemma read_string_line: "CHR 0x0A \<notin> set a \<Longrightarrow> read_string (a @ crlf @ rest) = Some (a @ crlf, rest)"
  by (induction a) (auto simp: read_string_def)

section \<open>The server reads a command\<close>

fun read_args :: "nat \<Rightarrow> string \<Rightarrow> stream_error + (string list \<times> string)" where
  "read_args 0 inp = Inr ([], inp)"
| "read_args (Suc n) inp =
     (case readLine inp of
        None \<Rightarrow> Inl Eof
      | Some (line, inp1) \<Rightarrow>
          (if line = [] \<or> hd line \<noteq> CHR ''$'' then Inl (Malformed line)
           else case parse_int_ok (tl line) of
             None \<Rightarrow> Inl (Malformed line)
           | Some sz \<Rightarrow>
               (if sz + 2 < 0 \<or> max_alloc < sz + 2 then Inl Panic
                else case read_full (nat (sz + 2)) inp1 of
                  None \<Rightarrow> Inl Eof
                | Some (buf, inp2) \<Rightarrow>
                    (if sz < 0 then Inl Panic
                     else case read_args n inp2 of
                       Inl e \<Rightarrow> Inl e
                     | Inr (args, inp3) \<Rightarrow> Inr (take (nat sz) buf # args, inp3)))))"

definition readCommand :: "string \<Rightarrow> stream_error + (string list \<times> string)" where
  "readCommand inp =
     (case readLine inp of
        None \<Rightarrow> Inl Eof
      | Some (line, inp1) \<Rightarrow>
          (if line = [] \<or> hd line \<noteq> CHR ''*'' then Inl (Malformed line)
           else case parse_int_ok (tl line) of
             None \<Rightarrow> Inl (Malformed line)
           | Some n \<Rightarrow>
               (if n < 0 \<or> max_alloc < 16 * n then Inl Panic else read_args (nat n) inp1)))"

section \<open>The client reads a reply\<close>

datatype reply = RpStatus string | RpInt int | RpBulk string | RpNil | RpArray "reply list"

text \<open>
  The items of an array are read one after another. The guard on the rest of the stream always holds
  (\<open>readReply_shorter\<close> below); it only makes the recursion visibly end.
\<close>

function readReply :: "string \<Rightarrow> stream_error + (reply \<times> string)"
  and readItems :: "nat \<Rightarrow> string \<Rightarrow> stream_error + (reply list \<times> string)" where
  "readReply inp =
     (case read_string inp of
        None \<Rightarrow> Inl Eof
      | Some (line, rest) \<Rightarrow>
          (let body = tl line; number = parse_int_ok (trim_space body)
           in if hd line = CHR ''+'' then Inr (RpStatus (trim_suffix body crlf), rest)
              else if hd line = CHR ''-'' then Inl (Malformed (''valkey error: '' @ trim_space body))
              else if hd line = CHR '':'' then
                (case number of None \<Rightarrow> Inl (Malformed line) | Some n \<Rightarrow> Inr (RpInt n, rest))
              else if hd line = CHR ''$'' then
                (case number of None \<Rightarrow> Inl (Malformed line)
                 | Some sz \<Rightarrow>
                     (if sz < 0 then Inr (RpNil, rest)
                      else if max_alloc < sz + 2 then Inl Panic
                      else case read_full (nat (sz + 2)) rest of
                        None \<Rightarrow> Inl Eof
                      | Some (buf, rest') \<Rightarrow> Inr (RpBulk (take (nat sz) buf), rest')))
              else if hd line = CHR ''*'' then
                (case number of None \<Rightarrow> Inl (Malformed line)
                 | Some cnt \<Rightarrow>
                     (if cnt < 0 \<or> max_alloc < 16 * cnt then Inl Panic
                      else case readItems (nat cnt) rest of
                        Inl e \<Rightarrow> Inl e
                      | Inr (items, rest') \<Rightarrow> Inr (RpArray items, rest')))
              else Inl (Malformed line)))"
| "readItems 0 inp = Inr ([], inp)"
| "readItems (Suc n) inp =
     (case readReply inp of
        Inl e \<Rightarrow> Inl e
      | Inr (item, rest) \<Rightarrow>
          (if length rest < length inp
           then (case readItems n rest of
                   Inl e \<Rightarrow> Inl e
                 | Inr (items, rest') \<Rightarrow> Inr (item # items, rest'))
           else Inl Eof))"
  by pat_completeness auto
termination
  by (relation "measure (\<lambda>x. case x of Inl inp \<Rightarrow> 2 * length inp | Inr (n, inp) \<Rightarrow> Suc (2 * length inp))")
    (auto dest!: read_string_length)

declare readReply.simps [simp del]

lemma readReply_readItems_length:
  "readReply inp = Inr (r, rest) \<Longrightarrow> length rest < length inp"
  "readItems n inp = Inr (rs, rest') \<Longrightarrow> length rest' \<le> length inp"
proof (induction inp and n inp arbitrary: r rest and rs rest' rule: readReply_readItems.induct)
  case (1 inp)
  obtain line rest0 where l: "read_string inp = Some (line, rest0)"
    using "1.prems" by (subst (asm) readReply.simps) (auto split: option.splits)
  note len = read_string_length [OF l]
  have "length rest \<le> length rest0"
    using "1.prems" "1.IH" [OF l] l
    by (subst (asm) readReply.simps)
      (auto simp: Let_def read_full_def split: if_splits option.splits sum.splits)
  with len show ?case by simp
next
  case (3 n inp)
  then show ?case by (fastforce split: sum.splits if_splits)
qed auto

lemmas readReply_shorter = readReply_readItems_length(1)

lemma readItems_Suc:
  "readItems (Suc n) inp =
     (case readReply inp of
        Inl e \<Rightarrow> Inl e
      | Inr (item, rest) \<Rightarrow>
          (case readItems n rest of Inl e \<Rightarrow> Inl e | Inr (items, rest') \<Rightarrow> Inr (item # items, rest')))"
  by (auto dest: readReply_shorter split: sum.splits)

section \<open>The connection\<close>

text \<open>
  A connection holds what the server will still send, what was written, and how many writes succeed
  before the connection breaks. Deadlines are left out: a reply that comes too late is one that does
  not come.
\<close>

record connection =
  cn_in :: string
  cn_out :: string
  cn_writes :: nat

definition cn_write :: "string \<Rightarrow> connection \<Rightarrow> (string option \<times> connection)" where
  "cn_write bytes c =
     (case cn_writes c of
        0 \<Rightarrow> (Some ''write: broken pipe'', c)
      | Suc n \<Rightarrow> (None, c\<lparr>cn_out := cn_out c @ bytes, cn_writes := n\<rparr>))"

definition stream_error_text :: "stream_error \<Rightarrow> string" where
  "stream_error_text e = (case e of Eof \<Rightarrow> ''EOF'' | Malformed m \<Rightarrow> m | Panic \<Rightarrow> ''panic'')"

definition read_one :: "connection \<Rightarrow> (string option \<times> connection)" where
  "read_one c =
     (case readReply (cn_in c) of
        Inl e \<Rightarrow> (Some (stream_error_text e), c)
      | Inr (_, rest) \<Rightarrow> (None, c\<lparr>cn_in := rest\<rparr>))"

definition do_command :: "string list \<Rightarrow> connection \<Rightarrow> (string option \<times> connection)" where
  "do_command cmd c =
     (case cn_write (encodeCommand cmd) c of
        (Some e, c') \<Rightarrow> (Some e, c')
      | (None, c') \<Rightarrow> read_one c')"

fun write_all :: "string list list \<Rightarrow> connection \<Rightarrow> (string option \<times> connection)" where
  "write_all [] c = (None, c)"
| "write_all (cmd # cmds) c =
     (case cn_write (encodeCommand cmd) c of
        (Some e, c') \<Rightarrow> (Some e, c')
      | (None, c') \<Rightarrow> write_all cmds c')"

fun read_all :: "nat \<Rightarrow> connection \<Rightarrow> (string option \<times> connection)" where
  "read_all 0 c = (None, c)"
| "read_all (Suc n) c =
     (case read_one c of
        (Some e, c') \<Rightarrow> (Some e, c')
      | (None, c') \<Rightarrow> read_all n c')"

definition Pipeline :: "string list list \<Rightarrow> connection \<Rightarrow> (string option \<times> connection)" where
  "Pipeline cmds c =
     (case write_all cmds c of
        (Some e, c') \<Rightarrow> (Some e, c')
      | (None, c') \<Rightarrow> read_all (length cmds) c')"

definition auth_command :: "string \<Rightarrow> string \<Rightarrow> string list" where
  "auth_command username password =
     (if username \<noteq> [] then [''AUTH'', username, password] else [''AUTH'', password])"

text \<open>\<^verbatim>\<open>Dial\<close> once the connection stands: the login, then the database.\<close>

definition Dial :: "(bool \<Rightarrow> string \<Rightarrow> connection result) \<Rightarrow> string \<Rightarrow> bool \<Rightarrow> string \<Rightarrow> string \<Rightarrow> int
    \<Rightarrow> connection result" where
  "Dial connect endpoint tls username password db =
     (let (host, port) = (case SplitHostPort endpoint of Some hp \<Rightarrow> hp | None \<Rightarrow> (endpoint, ''6379''))
      in case connect tls (JoinHostPort host port) of
        Inl e \<Rightarrow> Inl (''dial valkey: '' @ e)
      | Inr c \<Rightarrow>
          (case (if password \<noteq> [] then do_command (auth_command username password) c else (None, c)) of
             (Some e, _) \<Rightarrow> Inl (''auth: '' @ e)
           | (None, c1) \<Rightarrow>
               (case (if 0 < db then do_command [''SELECT'', itoa db] c1 else (None, c1)) of
                  (Some e, _) \<Rightarrow> Inl (''select db: '' @ e)
                | (None, c2) \<Rightarrow> Inr c2)))"

definition Close :: "connection \<Rightarrow> connection" where
  "Close c = snd (cn_write (''QUIT'' @ crlf) c)"

section \<open>Round trip\<close>

lemma itoa_no_eol: "CHR 0x0A \<notin> set (itoa n)" "CHR 0x0D \<notin> set (itoa n)"
proof -
  have d: "list_all is_digit (nat_text k)" for k by simp
  have "\<not> is_digit (CHR 0x0A)" "\<not> is_digit (CHR 0x0D)" by code_simp+
  with d have "CHR 0x0A \<notin> set (nat_text k)" "CHR 0x0D \<notin> set (nat_text k)" for k
    by (auto simp only: list_all_iff)
  then show "CHR 0x0A \<notin> set (itoa n)" "CHR 0x0D \<notin> set (itoa n)" by (simp_all add: itoa_def)
qed

lemma trim_right_crlf: "CHR 0x0A \<notin> set a \<Longrightarrow> CHR 0x0D \<notin> set a \<Longrightarrow> trim_right is_eol (a @ crlf) = a"
proof -
  assume a: "CHR 0x0A \<notin> set a" "CHR 0x0D \<notin> set a"
  then have "dropWhile is_eol (rev a) = rev a" by (cases "rev a") (auto simp: is_eol_def dest: arg_cong [where f = set])
  then show ?thesis by (simp add: trim_right_def is_eol_def)
qed

lemma readLine_header:
  "c \<noteq> CHR 0x0A \<Longrightarrow> c \<noteq> CHR 0x0D \<Longrightarrow> readLine (c # itoa n @ crlf @ rest) = Some (c # itoa n, rest)"
  using read_string_line [of "c # itoa n" rest] trim_right_crlf [of "c # itoa n"]
  by (simp add: readLine_def itoa_no_eol)

definition sendable :: "string list \<Rightarrow> bool" where
  "sendable cmd \<longleftrightarrow> int (length cmd) < 2 ^ 44 \<and> (\<forall>arg \<in> set cmd. int (length arg) < 2 ^ 47)"

lemma parse_int_itoa_small: "0 \<le> n \<Longrightarrow> n < 2 ^ 48 \<Longrightarrow> parse_int_ok (itoa n) = Some n"
  by (rule parse_int_ok_itoa) (simp add: in_int64_def min_int64_def max_int64_def)

lemma read_args_encoded:
  "\<forall>arg \<in> set cmd. int (length arg) < 2 ^ 47 \<Longrightarrow>
    read_args (length cmd) (concat (map encode_arg cmd) @ rest) = Inr (cmd, rest)"
proof (induction cmd)
  case (Cons arg cmd)
  have l: "readLine (encode_arg arg @ concat (map encode_arg cmd) @ rest)
      = Some (CHR ''$'' # itoa (int (length arg)), arg @ crlf @ concat (map encode_arg cmd) @ rest)"
    using readLine_header [of "CHR ''$''" "int (length arg)" "arg @ crlf @ concat (map encode_arg cmd) @ rest"]
    by (simp add: encode_arg_def)
  have p: "parse_int_ok (itoa (int (length arg))) = Some (int (length arg))"
    using Cons.prems by (intro parse_int_itoa_small) auto
  have b: "\<not> (int (length arg) + 2 < 0 \<or> max_alloc < int (length arg) + 2)"
    using Cons.prems by (auto simp: max_alloc_def)
  have n: "nat (int (length arg) + 2) = length arg + 2" by simp
  have r: "read_full (Suc (Suc (length arg))) (arg @ CHR 0x0D # CHR 0x0A # concat (map encode_arg cmd) @ rest)
      = Some (arg @ crlf, concat (map encode_arg cmd) @ rest)" by (simp add: read_full_def)
  show ?case using Cons.IH Cons.prems l p b by (simp add: n r)
qed simp

lemma readCommand_encoded: "sendable cmd \<Longrightarrow> readCommand (encodeCommand cmd @ rest) = Inr (cmd, rest)"
proof -
  assume s: "sendable cmd"
  have l: "readLine (encodeCommand cmd @ rest) = Some (CHR ''*'' # itoa (int (length cmd)), concat (map encode_arg cmd) @ rest)"
    using readLine_header [of "CHR ''*''" "int (length cmd)" "concat (map encode_arg cmd) @ rest"]
    by (simp add: encodeCommand_def)
  have p: "parse_int_ok (itoa (int (length cmd))) = Some (int (length cmd))"
    using s by (intro parse_int_itoa_small) (auto simp: sendable_def)
  have "\<not> (int (length cmd) < 0 \<or> max_alloc < 16 * int (length cmd))"
    using s by (auto simp: sendable_def max_alloc_def)
  with l p s show ?thesis by (simp add: readCommand_def read_args_encoded sendable_def)
qed

lemma redis_args_encode: "redis_args args = concat (map encode_arg args)"
  by (induction args) (simp_all add: encode_arg_def)

lemma redisEncode_same: "redisEncode args = encodeCommand args"
  by (simp add: redisEncode_def encodeCommand_def redis_args_encode)

end
