(* ===== verification/Notifier_Valkey.thy ===== *)
theory Notifier_Valkey
  imports Notifier_Core Resp_Protocol Valkey_Test_Server Valkey_Keys Store_Rollup Go_Time
begin

text \<open>
  \<^verbatim>\<open>internal/notifier/valkey/valkey.go\<close>: the notifier that writes every check where the dashboard reads
  it. The last sections run its commands on the in-memory server and compare the keys, the fields
  and the samples with those of the dashboard.
\<close>

record valkey_config =
  vk_enabled :: bool
  vk_endpoint :: string
  vk_tls :: bool
  vk_secret :: string
  vk_dashboards :: "string list"
  vk_name :: string
  vk_retention_days :: "int option"
  vk_db :: int

record valkey_notifier =
  vn_cfg :: valkey_config
  vn_retention :: int

definition defaultRetentionDays :: int where
  "defaultRetentionDays = 7"

definition bad_dashboard :: "string \<Rightarrow> bool" where
  "bad_dashboard dash \<longleftrightarrow> dash = [] \<or> contains dash '':''"

text \<open>\<^verbatim>\<open>%q\<close> of a text of printable characters.\<close>

definition quoted :: "string \<Rightarrow> string" where
  "quoted s = CHR 0x22 # s @ [CHR 0x22]"

definition quoted_colon :: string where
  "quoted_colon = [CHR 0x27, CHR '':'', CHR 0x27]"

definition new_valkey :: "valkey_config option \<Rightarrow> valkey_notifier result" where
  "new_valkey config =
     (case config of
        None \<Rightarrow> Inl ''invalid Valkey config''
      | Some c \<Rightarrow>
          (if \<not> vk_enabled c \<or> vk_endpoint c = [] then Inl ''invalid Valkey config''
           else if vk_dashboards c = [] then Inl ''valkey notifier requires at least one dashboard''
           else case List.find bad_dashboard (vk_dashboards c) of
             Some dash \<Rightarrow> Inl (''valkey dashboard name '' @ quoted dash @ '' must not be empty or contain '' @ quoted_colon)
           | None \<Rightarrow>
               (if contains (vk_name c) '':''
                then Inl (''valkey name '' @ quoted (vk_name c) @ '' must not contain '' @ quoted_colon)
                else case vk_retention_days c of
                  Some days \<Rightarrow>
                    (if days < 1 then Inl (''valkey retentionDays must be at least 1, got '' @ itoa days)
                     else Inr \<lparr>vn_cfg = c, vn_retention = wrap64 (days * 24 * 3600)\<rparr>)
                | None \<Rightarrow> Inr \<lparr>vn_cfg = c, vn_retention = defaultRetentionDays * 24 * 3600\<rparr>)))"

definition sanitizeMessage :: "string \<Rightarrow> string" where
  "sanitizeMessage msg =
     take 500 (replace_byte (CHR ''|'') ''/'' (replace_byte (CHR 0x0A) '' '' (replace_byte (CHR 0x0D) '' '' msg)))"

definition service_of :: "valkey_notifier \<Rightarrow> notice_values \<Rightarrow> string" where
  "service_of v vals = (if vk_name (vn_cfg v) \<noteq> [] then vk_name (vn_cfg v) else nv_name vals)"

definition status_value :: "string \<Rightarrow> string" where
  "status_value status = (if status = ''success'' then ''s'' else ''f'')"

definition detail_value :: "string \<Rightarrow> notice_values \<Rightarrow> string" where
  "detail_value status vals =
     itoa (nv_response_ms vals)
       @ (if status = ''failure'' \<and> nv_message vals \<noteq> [] then ''|'' @ sanitizeMessage (nv_message vals) else [])"

text \<open>The commands for one dashboard: the samples, the registrations and the metadata.\<close>

definition dashboard_commands :: "valkey_notifier \<Rightarrow> string \<Rightarrow> notice_values \<Rightarrow> time \<Rightarrow> string \<Rightarrow> string list list" where
  "dashboard_commands v status vals now dash =
     (let ts = itoa (unix now);
          hourEpoch = itoa (unix (time_truncate now hour));
          svc = service_of v vals;
          statusKey = ''emo:'' @ dash @ '':'' @ svc @ '':s:'' @ hourEpoch;
          detailKey = ''emo:'' @ dash @ '':'' @ svc @ '':d:'' @ hourEpoch
      in [[''HSET'', statusKey, ts, status_value status],
          [''HEXPIRE'', statusKey, itoa (vn_retention v), ''FIELDS'', ''1'', ts],
          [''HSET'', detailKey, ts, detail_value status vals],
          [''HEXPIRE'', detailKey, itoa (vn_retention v), ''FIELDS'', ''1'', ts],
          [''SADD'', ''emo:dashboards'', dash],
          [''SADD'', ''emo:'' @ dash @ '':svcs'', svc],
          [''HSET'', ''emo:'' @ dash @ '':'' @ svc @ '':meta'', ''endpoint'', nv_endpoint vals,
            ''driver'', nv_driver vals, ''name'', svc]])"

definition alert_commands :: "valkey_notifier \<Rightarrow> string \<Rightarrow> notice_values \<Rightarrow> time \<Rightarrow> string list list" where
  "alert_commands v status vals now =
     concat (map (dashboard_commands v status vals now) (vk_dashboards (vn_cfg v)))"

definition credentials :: "'w externals \<Rightarrow> valkey_notifier \<Rightarrow> string \<Rightarrow> 'w \<Rightarrow> (string \<times> string) result" where
  "credentials ex v namespace w =
     (if vk_secret (vn_cfg v) = [] then Inr ([], [])
      else case ex_secret ex (vk_secret (vn_cfg v)) namespace w of
        Inl e \<Rightarrow> Inl (''unable to read valkey secret: '' @ e)
      | Inr secret \<Rightarrow> Inr (get_or [] secret ''username'', get_or [] secret ''password''))"

text \<open>
  \<open>connect\<close> opens a connection in a world, \<open>hang_up\<close> gives the world the connection when it is closed,
  with everything that was written to it.
\<close>

definition valkey_send :: "'w externals \<Rightarrow> ('w \<Rightarrow> bool \<Rightarrow> string \<Rightarrow> connection result)
    \<Rightarrow> (connection \<Rightarrow> 'w \<Rightarrow> 'w) \<Rightarrow> ('w \<Rightarrow> time) \<Rightarrow> valkey_notifier \<Rightarrow> 'w notifier" where
  "valkey_send ex connect hang_up clock v status vals w =
     (if status \<noteq> ''success'' \<and> status \<noteq> ''failure'' then (None, w)
      else case credentials ex v (nv_namespace vals) w of
        Inl e \<Rightarrow> (Some (Permanent e), w)
      | Inr (username, password) \<Rightarrow>
          (case Dial (connect w) (vk_endpoint (vn_cfg v)) (vk_tls (vn_cfg v)) username password (vk_db (vn_cfg v)) of
             Inl e \<Rightarrow> (Some (Permanent e), w)
           | Inr c \<Rightarrow>
               (case Pipeline (alert_commands v status vals (clock w)) c of
                  (err, c') \<Rightarrow> (map_option Permanent err, hang_up (Close c') w))))"

section \<open>The same keys on both sides\<close>

lemma dashboard_commands_keys:
  "dashboard_commands v status vals now dash =
     (let ts = itoa (unix now); h = unix (time_truncate now hour); svc = service_of v vals
      in [[''HSET'', StatusHour dash svc h, ts, status_value status],
          [''HEXPIRE'', StatusHour dash svc h, itoa (vn_retention v), ''FIELDS'', ''1'', ts],
          [''HSET'', DetailHour dash svc h, ts, detail_value status vals],
          [''HEXPIRE'', DetailHour dash svc h, itoa (vn_retention v), ''FIELDS'', ''1'', ts],
          [''SADD'', Dashboards, dash], [''SADD'', Services dash, svc],
          [''HSET'', MetaKey dash svc, ''endpoint'', nv_endpoint vals, ''driver'', nv_driver vals, ''name'', svc]])"
  by (simp add: dashboard_commands_def key_defs Let_def)

lemma sanitizeMessage_no_bar: "CHR ''|'' \<notin> set (sanitizeMessage msg)"
  by (auto simp: sanitizeMessage_def replace_byte_def dest!: in_set_takeD split: if_splits)

lemma sanitizeMessage_length: "length (sanitizeMessage msg) \<le> 500"
  by (simp add: sanitizeMessage_def)

lemma splitDetail_plain: "CHR ''|'' \<notin> set a \<Longrightarrow> splitDetail a = (a, None)"
  by (induction a) auto

lemma splitDetail_bar: "CHR ''|'' \<notin> set a \<Longrightarrow> splitDetail (a @ CHR ''|'' # b) = (a, Some b)"
  by (induction a) auto

lemma itoa_no_bar: "CHR ''|'' \<notin> set (itoa n)"
proof -
  have d: "list_all is_digit (nat_text k)" for k by simp
  have "\<not> is_digit (CHR ''|'')" by code_simp
  with d have "CHR ''|'' \<notin> set (nat_text k)" for k by (auto simp only: list_all_iff)
  then show ?thesis by (simp add: itoa_def)
qed

lemma parseDetail_detail_value:
  assumes "in_int64 (nv_response_ms vals)"
  shows "parseDetail (detail_value status vals) = (nv_response_ms vals,
    if status = ''failure'' \<and> nv_message vals \<noteq> [] then sanitizeMessage (nv_message vals) else [])"
  using assms by (simp add: parseDetail_def detail_value_def splitDetail_plain splitDetail_bar itoa_no_bar parse_int_itoa)

section \<open>Running the commands on the in-memory server\<close>

definition run_command :: "string list \<Rightarrow> vt_server \<Rightarrow> vt_server" where
  "run_command cmd s = (case vt_reply s (map Text cmd) of Some (_, s') \<Rightarrow> s' | None \<Rightarrow> s)"

definition run_commands :: "string list list \<Rightarrow> vt_server \<Rightarrow> vt_server" where
  "run_commands cmds s = fold run_command cmds s"

text \<open>What the server does with the bytes of a connection, until they end.\<close>

function serve_stream :: "string \<Rightarrow> vt_server \<Rightarrow> vt_server" where
  "serve_stream inp s =
     (case readCommand inp of
        Inl _ \<Rightarrow> s
      | Inr (cmd, rest) \<Rightarrow> if length rest < length inp then serve_stream rest (run_command cmd s) else run_command cmd s)"
  by auto
termination
  by (relation "measure (\<lambda>(inp, _). length inp)") auto

declare serve_stream.simps [simp del]

lemma serve_stream_encoded:
  "\<forall>cmd \<in> set cmds. sendable cmd \<Longrightarrow> serve_stream (concat (map encodeCommand cmds)) s = run_commands cmds s"
proof (induction cmds arbitrary: s)
  case Nil
  have "readCommand [] = Inl Eof" by (simp add: readCommand_def readLine_def read_string_def)
  then show ?case by (subst serve_stream.simps) (simp add: run_commands_def)
next
  case (Cons cmd cmds)
  have "readCommand (encodeCommand cmd @ concat (map encodeCommand cmds)) = Inr (cmd, concat (map encodeCommand cmds))"
    using Cons.prems by (intro readCommand_encoded) simp
  moreover have "0 < length (encodeCommand cmd)" by (simp add: encodeCommand_def)
  ultimately show ?case using Cons by (subst serve_stream.simps) (simp add: run_commands_def)
qed

lemma vt_reply_healthy:
  assumes "vt_failures s = []" "to_upper c = c" "c \<notin> {''HELLO'', ''CLIENT'', ''SELECT'', ''AUTH'', ''PING'', ''CLUSTER''}"
  shows "vt_reply s (Text c # Text k # args) = vt_command s c c (Text k # args)"
  using vt_reply_locked [OF assms(2,3)] assms(1) by simp

lemma run_hset:
  assumes "vt_failures s = []"
  shows "run_command [''HSET'', k, f, v] s = vt_hset s k f (Text v)"
  using assms by (simp add: run_command_def vt_reply_healthy command_names vt_command_def Let_def)

lemma run_hset3:
  assumes "vt_failures s = []"
  shows "run_command [''HSET'', k, f1, v1, f2, v2, f3, v3] s =
    vt_hset (vt_hset (vt_hset s k f1 (Text v1)) k f2 (Text v2)) k f3 (Text v3)"
  using assms by (simp add: run_command_def vt_reply_healthy command_names vt_command_def Let_def split: prod.splits)

lemma run_sadd:
  assumes "vt_failures s = []"
  shows "run_command [''SADD'', k, m] s = vt_sadd s k m"
  using assms by (simp add: run_command_def vt_reply_healthy command_names vt_command_def Let_def)

text \<open>Expiring a field later keeps every hash, every set and the failures.\<close>

lemma run_hexpire:
  assumes "vt_failures s = []" "0 < ttl" "in_int64 ttl"
  shows "vt_hash (run_command [''HEXPIRE'', k, itoa ttl, ''FIELDS'', ''1'', f] s) = vt_hash s"
    and "vt_set (run_command [''HEXPIRE'', k, itoa ttl, ''FIELDS'', ''1'', f] s) = vt_set s"
    and "vt_failures (run_command [''HEXPIRE'', k, itoa ttl, ''FIELDS'', ''1'', f] s) = []"
proof -
  have one: "parse_int_ok ''1'' = Some 1" by code_simp
  have "vt_hash (run_command [''HEXPIRE'', k, itoa ttl, ''FIELDS'', ''1'', f] s) = vt_hash s
    \<and> vt_set (run_command [''HEXPIRE'', k, itoa ttl, ''FIELDS'', ''1'', f] s) = vt_set s
    \<and> vt_failures (run_command [''HEXPIRE'', k, itoa ttl, ''FIELDS'', ''1'', f] s) = []"
    using assms one
    by (auto simp: run_command_def vt_reply_healthy command_names vt_command_def Let_def vt_hash_def fun_eq_iff vt_set_def
        split: prod.splits)
  then show "vt_hash (run_command [''HEXPIRE'', k, itoa ttl, ''FIELDS'', ''1'', f] s) = vt_hash s"
    "vt_set (run_command [''HEXPIRE'', k, itoa ttl, ''FIELDS'', ''1'', f] s) = vt_set s"
    "vt_failures (run_command [''HEXPIRE'', k, itoa ttl, ''FIELDS'', ''1'', f] s) = []" by blast+
qed

lemma vt_hset_frame [simp]: "vt_set (vt_hset s k f v) = vt_set s" "vt_failures (vt_hset s k f v) = vt_failures s"
  by (simp_all add: vt_hset_def vt_set_def fun_eq_iff)

lemma vt_sadd_frame [simp]: "vt_hash (vt_sadd s k m) = vt_hash s" "vt_failures (vt_sadd s k m) = vt_failures s"
  "m' \<in> set (vt_set (vt_sadd s k m) k') \<longleftrightarrow> (k' = k \<and> m' = m) \<or> m' \<in> set (vt_set s k')"
  by (auto simp: vt_sadd_def vt_set_def vt_hash_def fun_eq_iff)

text \<open>What the dashboard finds of one alert under one of its names.\<close>

definition recorded :: "valkey_notifier \<Rightarrow> string \<Rightarrow> notice_values \<Rightarrow> time \<Rightarrow> string \<Rightarrow> vt_server \<Rightarrow> bool" where
  "recorded v status vals now dash s \<longleftrightarrow>
     (let svc = service_of v vals; h = unix (time_truncate now hour); ts = itoa (unix now)
      in map_of (vt_hash s (StatusHour dash svc h)) ts = Some (Text (status_value status))
       \<and> map_of (vt_hash s (DetailHour dash svc h)) ts = Some (Text (detail_value status vals))
       \<and> map_of (vt_hash s (MetaKey dash svc)) ''endpoint'' = Some (Text (nv_endpoint vals))
       \<and> map_of (vt_hash s (MetaKey dash svc)) ''driver'' = Some (Text (nv_driver vals))
       \<and> map_of (vt_hash s (MetaKey dash svc)) ''name'' = Some (Text svc)
       \<and> dash \<in> set (vt_set s Dashboards) \<and> svc \<in> set (vt_set s (Services dash)))"

lemma itoa_no_letter:
  assumes "\<not> is_digit c" "c \<noteq> CHR ''-''"
  shows "c \<notin> set (itoa n)"
proof -
  have "list_all is_digit (nat_text k)" for k by simp
  with assms(1) have "c \<notin> set (nat_text k)" for k by (auto simp only: list_all_iff)
  with assms(2) show ?thesis by (simp add: itoa_def)
qed

lemma itoa_not_meta: "itoa n \<noteq> ''endpoint''" "itoa n \<noteq> ''driver''" "itoa n \<noteq> ''name''"
proof -
  have "\<not> is_digit (CHR ''e'')" by code_simp
  then have "CHR ''e'' \<notin> set (itoa n)" by (intro itoa_no_letter) auto
  then show "itoa n \<noteq> ''endpoint''" "itoa n \<noteq> ''driver''" "itoa n \<noteq> ''name''" by auto
qed

lemma status_detail_differ: "StatusHour dash svc h \<noteq> DetailHour dash' svc' h"
proof
  assume "StatusHour dash svc h = DetailHour dash' svc' h"
  then have "(dash @ '':'' @ svc @ '':s:'') @ itoa h = (dash' @ '':'' @ svc' @ '':d:'') @ itoa h"
    by (simp add: StatusHour_def DetailHour_def)
  then have "rev (dash @ '':'' @ svc @ '':s:'') = rev (dash' @ '':'' @ svc' @ '':d:'')" by (simp only: append_same_eq)
  then show False by simp
qed

text \<open>The commands of a dashboard record its samples, and leave what other dashboards recorded.\<close>

lemma run_dashboard:
  assumes "vt_failures s = []" "0 < vn_retention v" "in_int64 (vn_retention v)"
  shows "vt_failures (run_commands (dashboard_commands v status vals now dash) s) = []"
    and "recorded v status vals now dash (run_commands (dashboard_commands v status vals now dash) s)"
    and "recorded v status vals now dash' s \<Longrightarrow>
      recorded v status vals now dash' (run_commands (dashboard_commands v status vals now dash) s)"
  using assms status_detail_differ status_detail_differ [symmetric]
  by (auto simp: dashboard_commands_keys run_commands_def Let_def run_hset run_hset3 run_sadd run_hexpire recorded_def
      itoa_not_meta itoa_not_meta [symmetric])

lemma run_alert:
  assumes "0 < vn_retention v" "in_int64 (vn_retention v)"
  shows "vt_failures s = [] \<Longrightarrow>
    (\<forall>dash \<in> set ds. recorded v status vals now dash (run_commands (concat (map (dashboard_commands v status vals now) ds)) s))
    \<and> (\<forall>dash. recorded v status vals now dash s \<longrightarrow>
        recorded v status vals now dash (run_commands (concat (map (dashboard_commands v status vals now) ds)) s))"
proof (induction ds arbitrary: s)
  case Nil
  then show ?case by (simp add: run_commands_def)
next
  case (Cons d ds)
  let ?s = "run_commands (dashboard_commands v status vals now d) s"
  note r = run_dashboard [OF Cons.prems assms, where status = status and vals = vals and now = now and dash = d]
  have "run_commands (concat (map (dashboard_commands v status vals now) (d # ds))) s
      = run_commands (concat (map (dashboard_commands v status vals now) ds)) ?s"
    by (simp add: run_commands_def)
  then show ?case using Cons.IH [OF r(1)] r(2) r(3) by auto
qed

section \<open>What a connection carries\<close>

lemma write_all_out:
  "length cmds \<le> cn_writes c \<Longrightarrow>
    \<exists>c'. write_all cmds c = (None, c') \<and> cn_out c' = cn_out c @ concat (map encodeCommand cmds)"
proof (induction cmds arbitrary: c)
  case (Cons cmd cmds)
  then obtain n where n: "cn_writes c = Suc n" by (cases "cn_writes c") auto
  let ?c = "c\<lparr>cn_out := cn_out c @ encodeCommand cmd, cn_writes := n\<rparr>"
  obtain c' where "write_all cmds ?c = (None, c')" "cn_out c' = cn_out ?c @ concat (map encodeCommand cmds)"
    using Cons.IH [of ?c] Cons.prems n by auto
  then show ?case by (simp add: cn_write_def n)
qed simp

lemma read_all_out: "cn_out (snd (read_all n c)) = cn_out c"
proof (induction n arbitrary: c)
  case (Suc n)
  show ?case
    using Suc by (auto simp: read_one_def split: prod.splits option.splits sum.splits)
qed simp

lemma Pipeline_out:
  assumes "length cmds \<le> cn_writes c"
  shows "cn_out (snd (Pipeline cmds c)) = cn_out c @ concat (map encodeCommand cmds)"
proof -
  obtain c' where "write_all cmds c = (None, c')" "cn_out c' = cn_out c @ concat (map encodeCommand cmds)"
    using write_all_out [OF assms] by blast
  then show ?thesis by (simp add: Pipeline_def read_all_out)
qed

section \<open>Properties\<close>

lemma new_valkey_retention: "new_valkey (Some cfg) = Inr v \<Longrightarrow> in_int64 (vn_retention v) \<and> vn_cfg v = cfg"
  using wrap64_range
  by (auto simp: new_valkey_def defaultRetentionDays_def split: if_splits option.splits)
    (simp add: in_int64_def min_int64_def max_int64_def)

text \<open>
  C25: what the notifier writes, the dashboard reads. The bytes of its pipeline, taken apart by the
  server, leave for every dashboard of the monitor a sample of this check under the dashboard's own
  keys: its status, its time in milliseconds and its message without line breaks and bars, and the
  service registered with its metadata. Several dashboards do not disturb one another.
\<close>

theorem alert_reaches_dashboards:
  assumes "new_valkey (Some cfg) = Inr v" "0 < vn_retention v" "status = ''success'' \<or> status = ''failure''"
    and "in_int64 (nv_response_ms vals)" "in_int64 (unix now)"
    and "cn_out c = []" "length (alert_commands v status vals now) \<le> cn_writes c"
    and "\<forall>cmd \<in> set (alert_commands v status vals now). sendable cmd"
    and "vt_failures s = []" "dash \<in> set (vk_dashboards cfg)"
    and "s' = serve_stream (cn_out (snd (Pipeline (alert_commands v status vals now) c))) s"
    and "svc = service_of v vals" "h = unix (time_truncate now hour)"
  shows "map_of (vt_hash s' (StatusHour dash svc h)) (itoa (unix now)) = Some (Text (status_value status))
    \<and> sample_of (vt_hash s' (DetailHour dash svc h)) (itoa (unix now), Text (status_value status)) =
        Some \<lparr>ls_ts = unix now, ls_fail = (status = ''failure''), ls_ms = nv_response_ms vals,
          ls_msg = (if status = ''failure'' \<and> nv_message vals \<noteq> [] then sanitizeMessage (nv_message vals) else []),
          ls_has_detail = True\<rparr>
    \<and> dash \<in> set (vt_set s' Dashboards) \<and> svc \<in> set (vt_set s' (Services dash))
    \<and> map_of (vt_hash s' (MetaKey dash svc)) ''endpoint'' = Some (Text (nv_endpoint vals))
    \<and> map_of (vt_hash s' (MetaKey dash svc)) ''driver'' = Some (Text (nv_driver vals))
    \<and> map_of (vt_hash s' (MetaKey dash svc)) ''name'' = Some (Text svc)"
proof -
  have v: "in_int64 (vn_retention v)" "vn_cfg v = cfg" using new_valkey_retention [OF assms(1)] by auto
  have "s' = run_commands (alert_commands v status vals now) s"
    using assms(6,11) Pipeline_out [OF assms(7)] serve_stream_encoded [OF assms(8)] by simp
  then have s': "s' = run_commands (concat (map (dashboard_commands v status vals now) (vk_dashboards cfg))) s"
    by (simp add: alert_commands_def v(2))
  have "recorded v status vals now dash s'"
    unfolding s' using run_alert [OF assms(2) v(1) assms(9)] assms(10) by blast
  then have rec: "map_of (vt_hash s' (StatusHour dash svc h)) (itoa (unix now)) = Some (Text (status_value status))"
    "map_of (vt_hash s' (DetailHour dash svc h)) (itoa (unix now)) = Some (Text (detail_value status vals))"
    "dash \<in> set (vt_set s' Dashboards)" "svc \<in> set (vt_set s' (Services dash))"
    "map_of (vt_hash s' (MetaKey dash svc)) ''endpoint'' = Some (Text (nv_endpoint vals))"
    "map_of (vt_hash s' (MetaKey dash svc)) ''driver'' = Some (Text (nv_driver vals))"
    "map_of (vt_hash s' (MetaKey dash svc)) ''name'' = Some (Text svc)"
    by (simp_all only: recorded_def Let_def assms(12,13))
  have "(payload_text (Text (status_value status)) = ''f'') = (status = ''failure'')"
    using assms(3) by (auto simp: status_value_def)
  then show ?thesis
    using rec parse_int_ok_itoa [OF assms(5)]
    by (simp add: sample_of_def parseDetail_detail_value [OF assms(4)])
qed

definition example_valkey :: valkey_config where
  "example_valkey = \<lparr>vk_enabled = True, vk_endpoint = ''valkey:6379'', vk_tls = False, vk_secret = [],
     vk_dashboards = [''prod'', ''all''], vk_name = [], vk_retention_days = Some 30, vk_db = 0\<rparr>"

definition example_notifier :: valkey_notifier where
  "example_notifier = \<lparr>vn_cfg = example_valkey, vn_retention = 2592000\<rparr>"

definition example_values :: notice_values where
  "example_values = \<lparr>nv_status = ''failure'', nv_endpoint = ''db:5432'', nv_driver = ''tcp'', nv_healthy = ''unhealthy'',
     nv_name = ''db'', nv_response = ''12ms'', nv_response_ms = 12, nv_last_status = ''success'', nv_last_checked = [],
     nv_last_change = [], nv_current_time = [], nv_status_time = [], nv_message = ''refused|x'', nv_namespace = ''ns'',
     nv_alert_message = []\<rparr>"

lemma example_commands_sendable:
  "list_all (\<lambda>cmd. length cmd < 20 \<and> list_all (\<lambda>arg. length arg < 60) cmd)
     (alert_commands example_notifier ''failure'' example_values (of_unix 7260))"
  by code_simp

theorem alert_reaches_dashboards_witness:
  "sample_of (vt_hash (serve_stream (cn_out (snd (Pipeline
        (alert_commands example_notifier ''failure'' example_values (of_unix 7260)) \<lparr>cn_in = [], cn_out = [], cn_writes = 20\<rparr>)))
        vt_start) (DetailHour ''all'' ''db'' 7200)) (itoa 7260, Text ''f'') =
     Some \<lparr>ls_ts = 7260, ls_fail = True, ls_ms = 12, ls_msg = ''refused/x'', ls_has_detail = True\<rparr>"
proof -
  have n: "new_valkey (Some example_valkey) = Inr example_notifier" by code_simp
  have len: "length (alert_commands example_notifier ''failure'' example_values (of_unix 7260)) = 14" by code_simp
  have send: "\<forall>cmd \<in> set (alert_commands example_notifier ''failure'' example_values (of_unix 7260)). sendable cmd"
    using example_commands_sendable by (fastforce simp: list_all_iff sendable_def)
  have h: "unix (time_truncate (of_unix 7260) hour) = 7200" "service_of example_notifier example_values = ''db''"
    "sanitizeMessage ''refused|x'' = ''refused/x''" "status_value ''failure'' = ''f''" by code_simp+
  have st: "vt_failures vt_start = []" by (simp add: vt_start_def)
  let ?c = "\<lparr>cn_in = [], cn_out = [], cn_writes = 20\<rparr> :: connection"
  show ?thesis
    using alert_reaches_dashboards [OF n _ _ _ _ _ _ send st _ refl refl refl, of ?c "''all''"] h len
    by (simp add: example_notifier_def example_valkey_def example_values_def in_int64_def min_int64_def max_int64_def)
qed

end
