(* ===== verification/Monitor_Types.thy ===== *)
theory Monitor_Types
  imports Notifier_Valkey
begin

text \<open>
  The API types of \<^verbatim>\<open>api/v1alpha1/endpointmonitor_types.go\<close> that the operator reads and writes, and the
  driver interface of \<^verbatim>\<open>internal/driver/driver.go\<close>. A pointer is an option, a reference to a Secret its
  name. Times are those of \<^verbatim>\<open>Go_Time\<close>; the zero time stands for an absent \<^verbatim>\<open>metav1.Time\<close>.
\<close>

section \<open>Checks\<close>

record http_json_check =
  hj_code :: int
  hj_assertions :: "(string, string) gomap"

record http_check =
  hc_body_contains :: string

record smtp_check =
  sk_helo :: string
  sk_tls :: bool
  sk_start_tls :: bool
  sk_secret :: string
  sk_verify :: string
  sk_from :: string
  sk_to :: string

record dns_check =
  dn_tls :: bool
  dn_verify :: string
  dn_server :: string
  dn_type :: string

record redis_check =
  rk_tls :: bool
  rk_secret :: string

record tls_check =
  tk_days :: int
  tk_host :: string

record mysql_check =
  my_secret :: string
  my_behind :: "int option"

record postgres_check =
  pg_secret :: string
  pg_database :: string
  pg_behind :: "int option"

record mongodb_check =
  mg_tls :: bool
  mg_secret :: string
  mg_behind :: "int option"

record scylladb_check =
  sy_secret :: string

section \<open>Notifications\<close>

record email_config =
  em_enabled :: bool
  em_from :: string
  em_to :: "string list"
  em_provider :: string
  em_secret :: string
  em_host :: string
  em_subject :: string
  em_body :: string
  em_alert_on :: "string list"

record notify_config =
  nc_slack :: "slack_config option"
  nc_email :: "email_config option"
  nc_discord :: "discord_config option"
  nc_webhook :: "webhook_config option"
  nc_valkey :: "valkey_config option"

section \<open>Monitors\<close>

definition MaxCheckInterval :: int where
  "MaxCheckInterval = 31536000"

record monitor_spec =
  sp_driver :: string
  sp_endpoint :: string
  sp_interval :: int
  sp_notify :: notify_config
  sp_http :: "http_check option"
  sp_http_json :: "http_json_check option"
  sp_smtp :: "smtp_check option"
  sp_redis :: "redis_check option"
  sp_tls :: "tls_check option"
  sp_dns :: "dns_check option"
  sp_mysql :: "mysql_check option"
  sp_postgres :: "postgres_check option"
  sp_mongodb :: "mongodb_check option"
  sp_scylladb :: "scylladb_check option"
  sp_families :: "string list"

record monitor_status =
  ms_checked :: time
  ms_status :: string
  ms_since :: time
  ms_notified :: "string option"
  ms_notified_since :: time
  ms_generation :: int

type_synonym name = "string \<times> string"

text \<open>The version is the \<^verbatim>\<open>resourceVersion\<close> by which the API server detects a conflict.\<close>

record monitor =
  mo_key :: name
  mo_generation :: int
  mo_version :: int
  mo_spec :: monitor_spec
  mo_status :: monitor_status

section \<open>The list of families\<close>

text \<open>
  \<^verbatim>\<open>IpFamilies.UnmarshalJSON\<close> on the value of the field: a list of texts, or one text as an earlier
  version of the API had it. A \<^verbatim>\<open>null\<close> is an empty list, and an empty text inside a list.
\<close>

definition dec_texts :: "json \<Rightarrow> string list option" where
  "dec_texts j = or_null [] (dec_list (or_null [] dec_str)) j"

definition UnmarshalJSON :: "json \<Rightarrow> string list option" where
  "UnmarshalJSON j =
     (case dec_texts j of
        Some texts \<Rightarrow> Some texts
      | None \<Rightarrow>
          (case or_null [] dec_str j of
             None \<Rightarrow> None
           | Some single \<Rightarrow>
               (if single = [] then Some []
                else if single = ''all'' then Some [''ipv4'', ''ipv6'']
                else Some [single])))"

lemma UnmarshalJSON_list: "UnmarshalJSON (JArr (map JStr fs)) = Some fs"
proof -
  have "those (map (or_null [] dec_str) (map JStr fs)) = Some fs" by (induction fs) (simp_all add: or_null_def)
  then show ?thesis by (simp add: UnmarshalJSON_def dec_texts_def or_null_def)
qed

section \<open>Drivers\<close>

record check_result =
  cr_success :: bool
  cr_time :: duration
  cr_error :: "string option"
  cr_message :: string

text \<open>A driver: its check in a world, its endpoint and its type.\<close>

record 'w driver =
  dv_check :: "'w \<Rightarrow> check_result result \<times> 'w"
  dv_endpoint :: string
  dv_type :: string

end
