(* ===== verification/Api_Heap.thy ===== *)
theory Api_Heap
  imports Monitor_Types
begin

text \<open>
  Monitors as they lie in memory, for \<^verbatim>\<open>api/v1alpha1/zz_generated.deepcopy.go\<close>: a pointer is an address or
  nil, a slice the address of its elements or nil. The metadata of \<^verbatim>\<open>k8s.io/apimachinery\<close> are of any types
  \<open>'m\<close> and \<open>'l\<close>. The locale \<open>deep_copy\<close> is the contract of a \<^verbatim>\<open>DeepCopyInto\<close>; it passes from the parts of
  a structure to the whole.
\<close>

type_synonym addr = nat

section \<open>Structures with pointers\<close>

record slack_obj =
  so_enabled :: bool
  so_url :: string
  so_alert_on :: "addr option"

record discord_obj =
  do_enabled :: bool
  do_url :: string
  do_alert_on :: "addr option"

record webhook_obj =
  wo_enabled :: bool
  wo_url :: string
  wo_authorization :: string
  wo_content_type :: string
  wo_contents :: string
  wo_alert_on :: "addr option"

record email_obj =
  eo_enabled :: bool
  eo_from :: string
  eo_to :: "addr option"
  eo_provider :: string
  eo_secret :: string
  eo_host :: string
  eo_subject :: string
  eo_body :: string
  eo_alert_on :: "addr option"

record valkey_obj =
  vo_enabled :: bool
  vo_endpoint :: string
  vo_tls :: bool
  vo_secret :: string
  vo_dashboards :: "addr option"
  vo_name :: string
  vo_retention_days :: "addr option"
  vo_db :: int

record notify_obj =
  no_slack :: "addr option"
  no_email :: "addr option"
  no_discord :: "addr option"
  no_webhook :: "addr option"
  no_valkey :: "addr option"

record http_json_obj =
  ho_code :: int
  ho_assertions :: "addr option"

record mysql_obj =
  yo_secret :: string
  yo_behind :: "addr option"

record postgres_obj =
  po_secret :: string
  po_database :: string
  po_behind :: "addr option"

record mongodb_obj =
  go_tls :: bool
  go_secret :: string
  go_behind :: "addr option"

record spec_obj =
  xo_driver :: string
  xo_endpoint :: string
  xo_interval :: int
  xo_notify :: notify_obj
  xo_http :: "addr option"
  xo_http_json :: "addr option"
  xo_smtp :: "addr option"
  xo_redis :: "addr option"
  xo_tls :: "addr option"
  xo_dns :: "addr option"
  xo_mysql :: "addr option"
  xo_postgres :: "addr option"
  xo_mongodb :: "addr option"
  xo_scylladb :: "addr option"
  xo_families :: "addr option"

record status_obj =
  to_checked :: time
  to_status :: string
  to_since :: time
  to_notified :: "addr option"
  to_notified_since :: time
  to_generation :: int

record 'm monitor_obj =
  mb_type :: "string \<times> string"
  mb_meta :: 'm
  mb_spec :: spec_obj
  mb_status :: status_obj

record 'l list_obj =
  lb_type :: "string \<times> string"
  lb_meta :: 'l
  lb_items :: "addr option"

datatype ('m, 'l) cell =
    CTexts (the_texts: "string list") | CTextMap (the_text_map: "(string, string) gomap")
  | CText (the_text: string) | CInt (the_int: int) | CSecretRef (the_secret_ref: string)
  | CHttp (the_http: http_check) | CHttpJson (the_http_json: http_json_obj) | CSmtp (the_smtp: smtp_check)
  | CRedis (the_redis: redis_check) | CTls (the_tls: tls_check) | CDns (the_dns: dns_check)
  | CMysql (the_mysql: mysql_obj) | CPostgres (the_postgres: postgres_obj) | CMongodb (the_mongodb: mongodb_obj)
  | CScylladb (the_scylladb: scylladb_check)
  | CSlack (the_slack: slack_obj) | CEmail (the_email: email_obj) | CDiscord (the_discord: discord_obj)
  | CWebhook (the_webhook: webhook_obj) | CValkey (the_valkey: valkey_obj)
  | CNotify (the_notify: notify_obj) | CSpec (the_spec: spec_obj) | CStatus (the_status: status_obj)
  | CMonitor (the_monitor: "'m monitor_obj") | CMonitors (the_monitors: "'m monitor_obj list")
  | CList (the_list: "'l list_obj")

section \<open>The heap\<close>

record ('m, 'l) heap =
  hp_next :: addr
  hp_cells :: "addr \<Rightarrow> ('m, 'l) cell option"

type_synonym ('m, 'l, 'a) copy = "'a \<Rightarrow> ('m, 'l) heap \<Rightarrow> 'a \<times> ('m, 'l) heap"

definition load :: "('m, 'l) heap \<Rightarrow> addr \<Rightarrow> ('m, 'l) cell" where
  "load h a = the (hp_cells h a)"

definition alloc :: "('m, 'l) cell \<Rightarrow> ('m, 'l) heap \<Rightarrow> addr \<times> ('m, 'l) heap" where
  "alloc c h = (hp_next h, h\<lparr>hp_next := Suc (hp_next h), hp_cells := (hp_cells h)(hp_next h \<mapsto> c)\<rparr>)"

text \<open>A heap that has grown keeps all that was there.\<close>

definition grows :: "('m, 'l) heap \<Rightarrow> ('m, 'l) heap \<Rightarrow> bool" where
  "grows h h' \<longleftrightarrow> hp_next h \<le> hp_next h' \<and> (\<forall>a < hp_next h. hp_cells h' a = hp_cells h a)"

definition below :: "addr \<Rightarrow> addr list \<Rightarrow> bool" where
  "below n as \<longleftrightarrow> list_all (\<lambda>a. a < n) as"

definition fresh_in :: "('m, 'l) heap \<Rightarrow> ('m, 'l) heap \<Rightarrow> addr list \<Rightarrow> bool" where
  "fresh_in h h' as \<longleftrightarrow> list_all (\<lambda>a. hp_next h \<le> a \<and> a < hp_next h') as"

lemma grows_refl [simp]: "grows h h"
  by (simp add: grows_def)

lemma grows_trans: "grows h h' \<Longrightarrow> grows h' h'' \<Longrightarrow> grows h h''"
  by (auto simp: grows_def)

lemma below_append [simp]: "below n (as @ bs) \<longleftrightarrow> below n as \<and> below n bs" "below n []"
  by (simp_all add: below_def)

lemma fresh_in_append [simp]: "fresh_in h h' (as @ bs) \<longleftrightarrow> fresh_in h h' as \<and> fresh_in h h' bs" "fresh_in h h' []"
  by (simp_all add: fresh_in_def)

lemma below_grows: "below (hp_next h) as \<Longrightarrow> grows h h' \<Longrightarrow> below (hp_next h') as"
  by (auto simp: below_def grows_def list_all_iff)

lemma fresh_in_below: "fresh_in h h' as \<Longrightarrow> below (hp_next h') as"
  by (simp add: fresh_in_def below_def list_all_iff)

lemma fresh_in_wider: "fresh_in h1 h2 as \<Longrightarrow> grows h0 h1 \<Longrightarrow> grows h2 h3 \<Longrightarrow> fresh_in h0 h3 as"
  by (fastforce simp: fresh_in_def grows_def list_all_iff)

section \<open>The contract of a copy\<close>

locale deep_copy =
  fixes into :: "('m, 'l, 'a) copy" and refs :: "('m, 'l) heap \<Rightarrow> 'a \<Rightarrow> addr list" and view :: "('m, 'l) heap \<Rightarrow> 'a \<Rightarrow> 'b"
  assumes depends: "\<forall>a \<in> set (refs h x). hp_cells h' a = hp_cells h a \<Longrightarrow> refs h' x = refs h x \<and> view h' x = view h x"
    and copies: "below (hp_next h) (refs h x) \<Longrightarrow> into x h = (y, h')
      \<Longrightarrow> grows h h' \<and> view h' y = view h x \<and> fresh_in h h' (refs h' y)"
begin

lemma old_part:
  assumes "below (hp_next h) (refs h x)" "grows h h'"
  shows "refs h' x = refs h x \<and> view h' x = view h x"
  by (rule depends) (use assms in \<open>auto simp: below_def grows_def list_all_iff\<close>)

lemma copies_later:
  assumes "below (hp_next h0) (refs h0 x)" "grows h0 h" "into x h = (y, h')"
  shows "grows h h' \<and> view h' y = view h0 x \<and> fresh_in h h' (refs h' y)"
proof -
  have same: "refs h x = refs h0 x \<and> view h x = view h0 x" by (rule old_part) (rule assms)+
  then have "below (hp_next h) (refs h x)" using below_grows [OF assms(1,2)] by simp
  from copies [OF this assms(3)] same show ?thesis by simp
qed

text \<open>Writes to what was there before do not reach the copy, and writes to what is new do not reach the original.\<close>

lemma copy_survives:
  assumes "below (hp_next h) (refs h x)" "into x h = (y, h')" "\<forall>a. hp_next h \<le> a \<longrightarrow> hp_cells h'' a = hp_cells h' a"
  shows "view h'' y = view h x"
proof -
  from copies [OF assms(1,2)] have y: "view h' y = view h x" "fresh_in h h' (refs h' y)" by auto
  have "refs h'' y = refs h' y \<and> view h'' y = view h' y"
    by (rule depends) (use y(2) assms(3) in \<open>auto simp: fresh_in_def list_all_iff\<close>)
  with y(1) show ?thesis by simp
qed

lemma original_survives:
  assumes "below (hp_next h) (refs h x)" "into x h = (y, h')" "\<forall>a < hp_next h. hp_cells h'' a = hp_cells h' a"
  shows "view h'' x = view h x"
proof -
  from copies [OF assms(1,2)] have "grows h h'" by simp
  then have "\<forall>a < hp_next h. hp_cells h'' a = hp_cells h a" using assms(3) by (simp add: grows_def)
  then have "refs h'' x = refs h x \<and> view h'' x = view h x"
    by (intro depends) (use assms(1) in \<open>auto simp: below_def list_all_iff\<close>)
  then show ?thesis by simp
qed

end

section \<open>From the parts to the whole\<close>

text \<open>A structure without pointers.\<close>

definition keep :: "('m, 'l, 'a) copy" where
  "keep x h = (x, h)"

definition no_refs :: "('m, 'l) heap \<Rightarrow> 'a \<Rightarrow> addr list" where
  "no_refs h x = []"

definition itself_view :: "('m, 'l) heap \<Rightarrow> 'a \<Rightarrow> 'a" where
  "itself_view h x = x"

interpretation flat: deep_copy keep no_refs itself_view
  by unfold_locales (auto simp: keep_def no_refs_def itself_view_def)

text \<open>A pointer: \<open>new\<close> and a copy of what it points to.\<close>

definition copy_ref :: "('a \<Rightarrow> ('m, 'l) cell) \<Rightarrow> (('m, 'l) cell \<Rightarrow> 'a) \<Rightarrow> ('m, 'l, 'a) copy \<Rightarrow> ('m, 'l, addr option) copy" where
  "copy_ref mk un into p h =
     (case p of
        None \<Rightarrow> (None, h)
      | Some a \<Rightarrow>
          (let (v, h1) = into (un (load h a)) h; (b, h2) = alloc (mk v) h1
           in (Some b, h2)))"

definition ref_refs :: "(('m, 'l) cell \<Rightarrow> 'a) \<Rightarrow> (('m, 'l) heap \<Rightarrow> 'a \<Rightarrow> addr list) \<Rightarrow> ('m, 'l) heap \<Rightarrow> addr option \<Rightarrow> addr list" where
  "ref_refs un refs h p = (case p of None \<Rightarrow> [] | Some a \<Rightarrow> a # refs h (un (load h a)))"

definition ref_view :: "(('m, 'l) cell \<Rightarrow> 'a) \<Rightarrow> (('m, 'l) heap \<Rightarrow> 'a \<Rightarrow> 'b) \<Rightarrow> ('m, 'l) heap \<Rightarrow> addr option \<Rightarrow> 'b option" where
  "ref_view un view h p = (case p of None \<Rightarrow> None | Some a \<Rightarrow> Some (view h (un (load h a))))"

lemma grows_alloc: "alloc c h = (a, h') \<Longrightarrow> grows h h' \<and> load h' a = c \<and> a = hp_next h \<and> hp_next h' = Suc (hp_next h)"
  by (auto simp: alloc_def grows_def load_def)

lemma deep_copy_ref:
  fixes into :: "('m, 'l, 'a) copy"
  assumes part: "deep_copy into refs view" and un: "\<And>v. un (mk v) = v"
  shows "deep_copy (copy_ref mk un into) (ref_refs un refs) (ref_view un view)"
proof
  fix h h' :: "('m, 'l) heap" and p
  assume same: "\<forall>a \<in> set (ref_refs un refs h p). hp_cells h' a = hp_cells h a"
  show "ref_refs un refs h' p = ref_refs un refs h p \<and> ref_view un view h' p = ref_view un view h p"
  proof (cases p)
    case (Some a)
    with same have "load h' a = load h a" "\<forall>a \<in> set (refs h (un (load h a))). hp_cells h' a = hp_cells h a"
      by (simp_all add: ref_refs_def load_def)
    with deep_copy.depends [OF part this(2)] Some show ?thesis by (simp add: ref_refs_def ref_view_def)
  qed (simp add: ref_refs_def ref_view_def)
next
  fix h h' :: "('m, 'l) heap" and p q
  assume b: "below (hp_next h) (ref_refs un refs h p)" and c: "copy_ref mk un into p h = (q, h')"
  show "grows h h' \<and> ref_view un view h' q = ref_view un view h p \<and> fresh_in h h' (ref_refs un refs h' q)"
  proof (cases p)
    case None
    with c show ?thesis by (simp add: copy_ref_def ref_view_def ref_refs_def)
  next
    case (Some a)
    obtain v h1 where v: "into (un (load h a)) h = (v, h1)" by force
    with c Some obtain b where al: "alloc (mk v) h1 = (b, h')" "q = Some b" by (auto simp: copy_ref_def split: prod.splits)
    have "below (hp_next h) (refs h (un (load h a)))" using b Some by (simp add: ref_refs_def below_def)
    from deep_copy.copies [OF part this v]
    have g: "grows h h1" "view h1 v = view h (un (load h a))" "fresh_in h h1 (refs h1 v)" by auto
    from grows_alloc [OF al(1)] have g1: "grows h1 h'" "load h' b = mk v" "b = hp_next h1" "hp_next h' = Suc (hp_next h1)" by auto
    have v': "refs h' v = refs h1 v \<and> view h' v = view h1 v"
      by (rule deep_copy.old_part [OF part]) (use g(3) g1(1) fresh_in_below in auto)
    have "fresh_in h h' (refs h1 v)" by (rule fresh_in_wider [OF g(3) grows_refl g1(1)])
    then have "fresh_in h h' (b # refs h' v)" using v' g(1) g1(3,4) by (simp add: fresh_in_def grows_def)
    moreover have "grows h h'" using g(1) g1(1) by (rule grows_trans)
    ultimately show ?thesis using Some al(2) g(2) g1(2) v' un by (simp add: ref_view_def ref_refs_def)
  qed
qed

text \<open>Two parts, one after the other.\<close>

definition copy_pair :: "('m, 'l, 'a) copy \<Rightarrow> ('m, 'l, 'b) copy \<Rightarrow> ('m, 'l, 'a \<times> 'b) copy" where
  "copy_pair f g xy h = (let (x, h1) = f (fst xy) h; (y, h2) = g (snd xy) h1 in ((x, y), h2))"

definition pair_refs :: "(('m, 'l) heap \<Rightarrow> 'a \<Rightarrow> addr list) \<Rightarrow> (('m, 'l) heap \<Rightarrow> 'b \<Rightarrow> addr list) \<Rightarrow> ('m, 'l) heap \<Rightarrow> 'a \<times> 'b \<Rightarrow> addr list" where
  "pair_refs r s h xy = r h (fst xy) @ s h (snd xy)"

definition pair_view :: "(('m, 'l) heap \<Rightarrow> 'a \<Rightarrow> 'c) \<Rightarrow> (('m, 'l) heap \<Rightarrow> 'b \<Rightarrow> 'd) \<Rightarrow> ('m, 'l) heap \<Rightarrow> 'a \<times> 'b \<Rightarrow> 'c \<times> 'd" where
  "pair_view v w h xy = (v h (fst xy), w h (snd xy))"

lemma deep_copy_pair:
  fixes f :: "('m, 'l, 'a) copy"
  assumes f: "deep_copy f r v" and g: "deep_copy g s w"
  shows "deep_copy (copy_pair f g) (pair_refs r s) (pair_view v w)"
proof
  fix h h' :: "('m, 'l) heap" and xy
  assume "\<forall>a \<in> set (pair_refs r s h xy). hp_cells h' a = hp_cells h a"
  then have "\<forall>a \<in> set (r h (fst xy)). hp_cells h' a = hp_cells h a" "\<forall>a \<in> set (s h (snd xy)). hp_cells h' a = hp_cells h a"
    by (auto simp: pair_refs_def)
  with deep_copy.depends [OF f this(1)] deep_copy.depends [OF g this(2)]
  show "pair_refs r s h' xy = pair_refs r s h xy \<and> pair_view v w h' xy = pair_view v w h xy"
    by (simp add: pair_refs_def pair_view_def)
next
  fix h h' :: "('m, 'l) heap" and xy xy'
  assume b: "below (hp_next h) (pair_refs r s h xy)" and c: "copy_pair f g xy h = (xy', h')"
  obtain x h1 where x: "f (fst xy) h = (x, h1)" by force
  with c obtain y where y: "g (snd xy) h1 = (y, h')" "xy' = (x, y)" by (auto simp: copy_pair_def split: prod.splits)
  from b have "below (hp_next h) (r h (fst xy))" "below (hp_next h) (s h (snd xy))" by (simp_all add: pair_refs_def)
  from deep_copy.copies [OF f this(1) x] deep_copy.copies_later [OF g this(2) _ y(1)]
  have 1: "grows h h1" "v h1 x = v h (fst xy)" "fresh_in h h1 (r h1 x)"
    and 2: "grows h1 h'" "w h' y = w h (snd xy)" "fresh_in h1 h' (s h' y)" by auto
  have x': "r h' x = r h1 x \<and> v h' x = v h1 x"
    by (rule deep_copy.old_part [OF f]) (use 1(3) 2(1) fresh_in_below in auto)
  have "fresh_in h h' (r h1 x)" "fresh_in h h' (s h' y)"
    using fresh_in_wider [OF 1(3) grows_refl 2(1)] fresh_in_wider [OF 2(3) 1(1) grows_refl] by auto
  then show "grows h h' \<and> pair_view v w h' xy' = pair_view v w h xy \<and> fresh_in h h' (pair_refs r s h' xy')"
    using grows_trans [OF 1(1) 2(1)] x' 1(2) 2(2) y(2) by (simp add: pair_refs_def pair_view_def)
qed

text \<open>The elements of a slice, in order.\<close>

fun copy_list :: "('m, 'l, 'a) copy \<Rightarrow> ('m, 'l, 'a list) copy" where
  "copy_list f [] h = ([], h)"
| "copy_list f (x # xs) h = (let (y, h1) = f x h; (ys, h2) = copy_list f xs h1 in (y # ys, h2))"

definition list_refs :: "(('m, 'l) heap \<Rightarrow> 'a \<Rightarrow> addr list) \<Rightarrow> ('m, 'l) heap \<Rightarrow> 'a list \<Rightarrow> addr list" where
  "list_refs r h xs = concat (map (r h) xs)"

definition list_view :: "(('m, 'l) heap \<Rightarrow> 'a \<Rightarrow> 'b) \<Rightarrow> ('m, 'l) heap \<Rightarrow> 'a list \<Rightarrow> 'b list" where
  "list_view v h xs = map (v h) xs"

lemma deep_copy_list:
  fixes f :: "('m, 'l, 'a) copy"
  assumes f: "deep_copy f r v"
  shows "deep_copy (copy_list f) (list_refs r) (list_view v)"
proof
  fix h h' :: "('m, 'l) heap" and xs
  assume same: "\<forall>a \<in> set (list_refs r h xs). hp_cells h' a = hp_cells h a"
  have "r h' x = r h x \<and> v h' x = v h x" if "x \<in> set xs" for x
    by (rule deep_copy.depends [OF f]) (use same that in \<open>auto simp: list_refs_def\<close>)
  then show "list_refs r h' xs = list_refs r h xs \<and> list_view v h' xs = list_view v h xs"
    by (auto simp: list_refs_def list_view_def intro!: arg_cong [of _ _ concat] map_cong)
next
  fix h h' :: "('m, 'l) heap" and xs ys
  assume "below (hp_next h) (list_refs r h xs)" "copy_list f xs h = (ys, h')"
  then show "grows h h' \<and> list_view v h' ys = list_view v h xs \<and> fresh_in h h' (list_refs r h' ys)"
  proof (induction xs arbitrary: h ys)
    case Nil
    then show ?case by (simp add: list_refs_def list_view_def)
  next
    case (Cons x xs)
    obtain y h1 where y: "f x h = (y, h1)" by force
    with Cons.prems(2) obtain ys' where ys: "copy_list f xs h1 = (ys', h')" "ys = y # ys'" by (auto split: prod.splits)
    have b: "below (hp_next h) (r h x)" "below (hp_next h) (list_refs r h xs)" using Cons.prems(1) by (simp_all add: list_refs_def)
    from deep_copy.copies [OF f b(1) y] have 1: "grows h h1" "v h1 y = v h x" "fresh_in h h1 (r h1 y)" by auto
    have old: "r h1 z = r h z \<and> v h1 z = v h z" if "z \<in> set xs" for z
      by (rule deep_copy.old_part [OF f _ 1(1)]) (use b(2) that in \<open>auto simp: list_refs_def below_def list_all_iff\<close>)
    then have same: "list_refs r h1 xs = list_refs r h xs" "list_view v h1 xs = list_view v h xs"
      by (auto simp: list_refs_def list_view_def intro!: arg_cong [of _ _ concat] map_cong)
    have "below (hp_next h1) (list_refs r h1 xs)" using below_grows [OF b(2) 1(1)] same(1) by simp
    from Cons.IH [OF this ys(1)]
    have 2: "grows h1 h'" "list_view v h' ys' = list_view v h1 xs" "fresh_in h1 h' (list_refs r h' ys')" by auto
    have y': "r h' y = r h1 y \<and> v h' y = v h1 y"
      by (rule deep_copy.old_part [OF f]) (use 1(3) 2(1) fresh_in_below in auto)
    have "fresh_in h h' (r h1 y)" "fresh_in h h' (list_refs r h' ys')"
      using fresh_in_wider [OF 1(3) grows_refl 2(1)] fresh_in_wider [OF 2(3) 1(1) grows_refl] by auto
    then show ?case
      using grows_trans [OF 1(1) 2(1)] y' 1(2) 2(2) same(2) ys(2) by (simp add: list_refs_def list_view_def)
  qed
qed

text \<open>A structure: \<open>put\<close> writes the copied parts into the value copied with \<^verbatim>\<open>*out = *in\<close>.\<close>

lemma deep_copy_struct:
  fixes into :: "('m, 'l, 'a) copy"
  assumes part: "deep_copy f r v"
    and into: "\<And>x h. into x h = (let (t, h') = f (parts x) h in (put t x, h'))"
    and refs: "\<And>h x. refs h x = r h (parts x)" and view: "\<And>h x. view h x = join' x (v h (parts x))"
    and put: "\<And>t x. parts (put t x) = t" "\<And>t x w. join' (put t x) w = join' x w"
  shows "deep_copy into refs view"
proof
  fix h h' :: "('m, 'l) heap" and x
  assume "\<forall>a \<in> set (refs h x). hp_cells h' a = hp_cells h a"
  then have "\<forall>a \<in> set (r h (parts x)). hp_cells h' a = hp_cells h a" by (simp add: refs)
  from deep_copy.depends [OF part this] show "refs h' x = refs h x \<and> view h' x = view h x" by (simp add: refs view)
next
  fix h h' :: "('m, 'l) heap" and x y
  assume b: "below (hp_next h) (refs h x)" and c: "into x h = (y, h')"
  obtain t where t: "f (parts x) h = (t, h')" "y = put t x" using c by (auto simp: into split: prod.splits)
  have "below (hp_next h) (r h (parts x))" using b by (simp add: refs)
  from deep_copy.copies [OF part this t(1)]
  show "grows h h' \<and> view h' y = view h x \<and> fresh_in h h' (refs h' y)" by (simp add: t(2) refs view put)
qed

end
