(* ===== verification/Api_Deepcopy.thy ===== *)
theory Api_Deepcopy
  imports Api_Heap
begin

text \<open>
  The copies of \<^verbatim>\<open>api/v1alpha1/zz_generated.deepcopy.go\<close>, one definition for each function. Every
  \<^verbatim>\<open>DeepCopyInto\<close> first copies the structure as it is and then gives the copy pointers of its own; for
  every type the contract \<open>deep_copy\<close> holds, with the records of \<open>Monitor_Types\<close> as what is seen of it. In
  these a nil slice or map and an empty one are the same; that a copy is nil when the original is shows in the
  definitions, where \<open>copy_ref\<close> leaves nil alone.
\<close>

section \<open>Texts, maps and numbers behind pointers\<close>

abbreviation "copy_texts \<equiv> copy_ref CTexts the_texts keep"
abbreviation "texts_refs \<equiv> ref_refs the_texts no_refs"
abbreviation "texts_view \<equiv> ref_view the_texts itself_view"

lemma texts_copy: "deep_copy copy_texts texts_refs texts_view"
  by (rule deep_copy_ref [OF flat.deep_copy_axioms]) simp

abbreviation "copy_text_map \<equiv> copy_ref CTextMap the_text_map keep"
abbreviation "text_map_refs \<equiv> ref_refs the_text_map no_refs"
abbreviation "text_map_view \<equiv> ref_view the_text_map itself_view"

lemma text_map_copy: "deep_copy copy_text_map text_map_refs text_map_view"
  by (rule deep_copy_ref [OF flat.deep_copy_axioms]) simp

abbreviation "copy_int \<equiv> copy_ref CInt the_int keep"
abbreviation "int_refs \<equiv> ref_refs the_int no_refs"
abbreviation "int_view \<equiv> ref_view the_int itself_view"

lemma int_copy: "deep_copy copy_int int_refs int_view"
  by (rule deep_copy_ref [OF flat.deep_copy_axioms]) simp

abbreviation "copy_text \<equiv> copy_ref CText the_text keep"
abbreviation "text_refs \<equiv> ref_refs the_text no_refs"
abbreviation "text_view \<equiv> ref_view the_text itself_view"

lemma text_copy: "deep_copy copy_text text_refs text_view"
  by (rule deep_copy_ref [OF flat.deep_copy_axioms]) simp

text \<open>A nil slice or map has no elements.\<close>

definition or_nil :: "'a list option \<Rightarrow> 'a list" where
  "or_nil xs = (case xs of None \<Rightarrow> [] | Some ys \<Rightarrow> ys)"

section \<open>Structures without pointers\<close>

definition SecretRef_DeepCopyInto :: "('m, 'l, string) copy" where
  "SecretRef_DeepCopyInto = keep"

definition SecretRef_DeepCopy :: "('m, 'l, addr option) copy" where
  "SecretRef_DeepCopy = copy_ref CSecretRef the_secret_ref SecretRef_DeepCopyInto"

definition HttpCheck_DeepCopyInto :: "('m, 'l, http_check) copy" where
  "HttpCheck_DeepCopyInto = keep"

definition HttpCheck_DeepCopy :: "('m, 'l, addr option) copy" where
  "HttpCheck_DeepCopy = copy_ref CHttp the_http HttpCheck_DeepCopyInto"

definition SmtpCheck_DeepCopyInto :: "('m, 'l, smtp_check) copy" where
  "SmtpCheck_DeepCopyInto = keep"

definition SmtpCheck_DeepCopy :: "('m, 'l, addr option) copy" where
  "SmtpCheck_DeepCopy = copy_ref CSmtp the_smtp SmtpCheck_DeepCopyInto"

definition RedisCheck_DeepCopyInto :: "('m, 'l, redis_check) copy" where
  "RedisCheck_DeepCopyInto = keep"

definition RedisCheck_DeepCopy :: "('m, 'l, addr option) copy" where
  "RedisCheck_DeepCopy = copy_ref CRedis the_redis RedisCheck_DeepCopyInto"

definition TlsCheck_DeepCopyInto :: "('m, 'l, tls_check) copy" where
  "TlsCheck_DeepCopyInto = keep"

definition TlsCheck_DeepCopy :: "('m, 'l, addr option) copy" where
  "TlsCheck_DeepCopy = copy_ref CTls the_tls TlsCheck_DeepCopyInto"

definition DnsCheck_DeepCopyInto :: "('m, 'l, dns_check) copy" where
  "DnsCheck_DeepCopyInto = keep"

definition DnsCheck_DeepCopy :: "('m, 'l, addr option) copy" where
  "DnsCheck_DeepCopy = copy_ref CDns the_dns DnsCheck_DeepCopyInto"

definition ScylladbCheck_DeepCopyInto :: "('m, 'l, scylladb_check) copy" where
  "ScylladbCheck_DeepCopyInto = keep"

definition ScylladbCheck_DeepCopy :: "('m, 'l, addr option) copy" where
  "ScylladbCheck_DeepCopy = copy_ref CScylladb the_scylladb ScylladbCheck_DeepCopyInto"

section \<open>Checks\<close>

definition HttpJsonCheck_DeepCopyInto :: "('m, 'l, http_json_obj) copy" where
  "HttpJsonCheck_DeepCopyInto x h =
     (let (assertions, h1) = copy_text_map (ho_assertions x) h
      in (x\<lparr>ho_assertions := assertions\<rparr>, h1))"

definition HttpJsonCheck_DeepCopy :: "('m, 'l, addr option) copy" where
  "HttpJsonCheck_DeepCopy = copy_ref CHttpJson the_http_json HttpJsonCheck_DeepCopyInto"

definition http_json_refs :: "('m, 'l) heap \<Rightarrow> http_json_obj \<Rightarrow> addr list" where
  "http_json_refs h x = text_map_refs h (ho_assertions x)"

definition http_json_read :: "http_json_obj \<Rightarrow> (string, string) gomap option \<Rightarrow> http_json_check" where
  "http_json_read x assertions =
     \<lparr>hj_code = ho_code x, hj_assertions = or_nil assertions\<rparr>"

definition http_json_view :: "('m, 'l) heap \<Rightarrow> http_json_obj \<Rightarrow> http_json_check" where
  "http_json_view h x = http_json_read x (text_map_view h (ho_assertions x))"

lemma http_json_copy: "deep_copy HttpJsonCheck_DeepCopyInto http_json_refs http_json_view"
  by (rule deep_copy_struct [OF text_map_copy, where parts = "\<lambda>x. ho_assertions x"
        and put = "\<lambda>assertions x. x\<lparr>ho_assertions := assertions\<rparr>" and join' = "\<lambda>x assertions. http_json_read x assertions"])
    (auto simp: HttpJsonCheck_DeepCopyInto_def http_json_refs_def http_json_view_def http_json_read_def copy_pair_def pair_refs_def pair_view_def Let_def
      split: prod.splits)

definition MysqlCheck_DeepCopyInto :: "('m, 'l, mysql_obj) copy" where
  "MysqlCheck_DeepCopyInto x h =
     (let (behind, h1) = copy_int (yo_behind x) h
      in (x\<lparr>yo_behind := behind\<rparr>, h1))"

definition MysqlCheck_DeepCopy :: "('m, 'l, addr option) copy" where
  "MysqlCheck_DeepCopy = copy_ref CMysql the_mysql MysqlCheck_DeepCopyInto"

definition mysql_refs :: "('m, 'l) heap \<Rightarrow> mysql_obj \<Rightarrow> addr list" where
  "mysql_refs h x = int_refs h (yo_behind x)"

definition mysql_read :: "mysql_obj \<Rightarrow> int option \<Rightarrow> mysql_check" where
  "mysql_read x behind =
     \<lparr>my_secret = yo_secret x, my_behind = behind\<rparr>"

definition mysql_view :: "('m, 'l) heap \<Rightarrow> mysql_obj \<Rightarrow> mysql_check" where
  "mysql_view h x = mysql_read x (int_view h (yo_behind x))"

lemma mysql_copy: "deep_copy MysqlCheck_DeepCopyInto mysql_refs mysql_view"
  by (rule deep_copy_struct [OF int_copy, where parts = "\<lambda>x. yo_behind x"
        and put = "\<lambda>behind x. x\<lparr>yo_behind := behind\<rparr>" and join' = "\<lambda>x behind. mysql_read x behind"])
    (auto simp: MysqlCheck_DeepCopyInto_def mysql_refs_def mysql_view_def mysql_read_def copy_pair_def pair_refs_def pair_view_def Let_def
      split: prod.splits)

definition PostgresCheck_DeepCopyInto :: "('m, 'l, postgres_obj) copy" where
  "PostgresCheck_DeepCopyInto x h =
     (let (behind, h1) = copy_int (po_behind x) h
      in (x\<lparr>po_behind := behind\<rparr>, h1))"

definition PostgresCheck_DeepCopy :: "('m, 'l, addr option) copy" where
  "PostgresCheck_DeepCopy = copy_ref CPostgres the_postgres PostgresCheck_DeepCopyInto"

definition postgres_refs :: "('m, 'l) heap \<Rightarrow> postgres_obj \<Rightarrow> addr list" where
  "postgres_refs h x = int_refs h (po_behind x)"

definition postgres_read :: "postgres_obj \<Rightarrow> int option \<Rightarrow> postgres_check" where
  "postgres_read x behind =
     \<lparr>pg_secret = po_secret x, pg_database = po_database x, pg_behind = behind\<rparr>"

definition postgres_view :: "('m, 'l) heap \<Rightarrow> postgres_obj \<Rightarrow> postgres_check" where
  "postgres_view h x = postgres_read x (int_view h (po_behind x))"

lemma postgres_copy: "deep_copy PostgresCheck_DeepCopyInto postgres_refs postgres_view"
  by (rule deep_copy_struct [OF int_copy, where parts = "\<lambda>x. po_behind x"
        and put = "\<lambda>behind x. x\<lparr>po_behind := behind\<rparr>" and join' = "\<lambda>x behind. postgres_read x behind"])
    (auto simp: PostgresCheck_DeepCopyInto_def postgres_refs_def postgres_view_def postgres_read_def copy_pair_def pair_refs_def pair_view_def Let_def
      split: prod.splits)

definition MongodbCheck_DeepCopyInto :: "('m, 'l, mongodb_obj) copy" where
  "MongodbCheck_DeepCopyInto x h =
     (let (behind, h1) = copy_int (go_behind x) h
      in (x\<lparr>go_behind := behind\<rparr>, h1))"

definition MongodbCheck_DeepCopy :: "('m, 'l, addr option) copy" where
  "MongodbCheck_DeepCopy = copy_ref CMongodb the_mongodb MongodbCheck_DeepCopyInto"

definition mongodb_refs :: "('m, 'l) heap \<Rightarrow> mongodb_obj \<Rightarrow> addr list" where
  "mongodb_refs h x = int_refs h (go_behind x)"

definition mongodb_read :: "mongodb_obj \<Rightarrow> int option \<Rightarrow> mongodb_check" where
  "mongodb_read x behind =
     \<lparr>mg_tls = go_tls x, mg_secret = go_secret x, mg_behind = behind\<rparr>"

definition mongodb_view :: "('m, 'l) heap \<Rightarrow> mongodb_obj \<Rightarrow> mongodb_check" where
  "mongodb_view h x = mongodb_read x (int_view h (go_behind x))"

lemma mongodb_copy: "deep_copy MongodbCheck_DeepCopyInto mongodb_refs mongodb_view"
  by (rule deep_copy_struct [OF int_copy, where parts = "\<lambda>x. go_behind x"
        and put = "\<lambda>behind x. x\<lparr>go_behind := behind\<rparr>" and join' = "\<lambda>x behind. mongodb_read x behind"])
    (auto simp: MongodbCheck_DeepCopyInto_def mongodb_refs_def mongodb_view_def mongodb_read_def copy_pair_def pair_refs_def pair_view_def Let_def
      split: prod.splits)

section \<open>Notifiers\<close>

definition SlackConfig_DeepCopyInto :: "('m, 'l, slack_obj) copy" where
  "SlackConfig_DeepCopyInto x h =
     (let (alertOn, h1) = copy_texts (so_alert_on x) h
      in (x\<lparr>so_alert_on := alertOn\<rparr>, h1))"

definition SlackConfig_DeepCopy :: "('m, 'l, addr option) copy" where
  "SlackConfig_DeepCopy = copy_ref CSlack the_slack SlackConfig_DeepCopyInto"

definition slack_refs :: "('m, 'l) heap \<Rightarrow> slack_obj \<Rightarrow> addr list" where
  "slack_refs h x = texts_refs h (so_alert_on x)"

definition slack_read :: "slack_obj \<Rightarrow> string list option \<Rightarrow> slack_config" where
  "slack_read x alertOn =
     \<lparr>sl_enabled = so_enabled x, sl_url = so_url x, sl_alert_on = or_nil alertOn\<rparr>"

definition slack_view :: "('m, 'l) heap \<Rightarrow> slack_obj \<Rightarrow> slack_config" where
  "slack_view h x = slack_read x (texts_view h (so_alert_on x))"

lemma slack_copy: "deep_copy SlackConfig_DeepCopyInto slack_refs slack_view"
  by (rule deep_copy_struct [OF texts_copy, where parts = "\<lambda>x. so_alert_on x"
        and put = "\<lambda>alertOn x. x\<lparr>so_alert_on := alertOn\<rparr>" and join' = "\<lambda>x alertOn. slack_read x alertOn"])
    (auto simp: SlackConfig_DeepCopyInto_def slack_refs_def slack_view_def slack_read_def copy_pair_def pair_refs_def pair_view_def Let_def
      split: prod.splits)

definition DiscordConfig_DeepCopyInto :: "('m, 'l, discord_obj) copy" where
  "DiscordConfig_DeepCopyInto x h =
     (let (alertOn, h1) = copy_texts (do_alert_on x) h
      in (x\<lparr>do_alert_on := alertOn\<rparr>, h1))"

definition DiscordConfig_DeepCopy :: "('m, 'l, addr option) copy" where
  "DiscordConfig_DeepCopy = copy_ref CDiscord the_discord DiscordConfig_DeepCopyInto"

definition discord_refs :: "('m, 'l) heap \<Rightarrow> discord_obj \<Rightarrow> addr list" where
  "discord_refs h x = texts_refs h (do_alert_on x)"

definition discord_read :: "discord_obj \<Rightarrow> string list option \<Rightarrow> discord_config" where
  "discord_read x alertOn =
     \<lparr>dc_enabled = do_enabled x, dc_url = do_url x, dc_alert_on = or_nil alertOn\<rparr>"

definition discord_view :: "('m, 'l) heap \<Rightarrow> discord_obj \<Rightarrow> discord_config" where
  "discord_view h x = discord_read x (texts_view h (do_alert_on x))"

lemma discord_copy: "deep_copy DiscordConfig_DeepCopyInto discord_refs discord_view"
  by (rule deep_copy_struct [OF texts_copy, where parts = "\<lambda>x. do_alert_on x"
        and put = "\<lambda>alertOn x. x\<lparr>do_alert_on := alertOn\<rparr>" and join' = "\<lambda>x alertOn. discord_read x alertOn"])
    (auto simp: DiscordConfig_DeepCopyInto_def discord_refs_def discord_view_def discord_read_def copy_pair_def pair_refs_def pair_view_def Let_def
      split: prod.splits)

definition WebhookConfig_DeepCopyInto :: "('m, 'l, webhook_obj) copy" where
  "WebhookConfig_DeepCopyInto x h =
     (let (alertOn, h1) = copy_texts (wo_alert_on x) h
      in (x\<lparr>wo_alert_on := alertOn\<rparr>, h1))"

definition WebhookConfig_DeepCopy :: "('m, 'l, addr option) copy" where
  "WebhookConfig_DeepCopy = copy_ref CWebhook the_webhook WebhookConfig_DeepCopyInto"

definition webhook_refs :: "('m, 'l) heap \<Rightarrow> webhook_obj \<Rightarrow> addr list" where
  "webhook_refs h x = texts_refs h (wo_alert_on x)"

definition webhook_read :: "webhook_obj \<Rightarrow> string list option \<Rightarrow> webhook_config" where
  "webhook_read x alertOn =
     \<lparr>wh_enabled = wo_enabled x, wh_url = wo_url x, wh_authorization = wo_authorization x, wh_content_type = wo_content_type x,
       wh_contents = wo_contents x, wh_alert_on = or_nil alertOn\<rparr>"

definition webhook_view :: "('m, 'l) heap \<Rightarrow> webhook_obj \<Rightarrow> webhook_config" where
  "webhook_view h x = webhook_read x (texts_view h (wo_alert_on x))"

lemma webhook_copy: "deep_copy WebhookConfig_DeepCopyInto webhook_refs webhook_view"
  by (rule deep_copy_struct [OF texts_copy, where parts = "\<lambda>x. wo_alert_on x"
        and put = "\<lambda>alertOn x. x\<lparr>wo_alert_on := alertOn\<rparr>" and join' = "\<lambda>x alertOn. webhook_read x alertOn"])
    (auto simp: WebhookConfig_DeepCopyInto_def webhook_refs_def webhook_view_def webhook_read_def copy_pair_def pair_refs_def pair_view_def Let_def
      split: prod.splits)

definition EmailConfig_DeepCopyInto :: "('m, 'l, email_obj) copy" where
  "EmailConfig_DeepCopyInto x h =
     (let (receivers, h1) = copy_texts (eo_to x) h;
          (alertOn, h2) = copy_texts (eo_alert_on x) h1
      in (x\<lparr>eo_to := receivers, eo_alert_on := alertOn\<rparr>, h2))"

definition EmailConfig_DeepCopy :: "('m, 'l, addr option) copy" where
  "EmailConfig_DeepCopy = copy_ref CEmail the_email EmailConfig_DeepCopyInto"

definition email_refs :: "('m, 'l) heap \<Rightarrow> email_obj \<Rightarrow> addr list" where
  "email_refs h x = texts_refs h (eo_to x) @ texts_refs h (eo_alert_on x)"

definition email_read :: "email_obj \<Rightarrow> string list option \<Rightarrow> string list option \<Rightarrow> email_config" where
  "email_read x receivers alertOn =
     \<lparr>em_enabled = eo_enabled x, em_from = eo_from x, em_to = or_nil receivers, em_provider = eo_provider x, em_secret = eo_secret x,
       em_host = eo_host x, em_subject = eo_subject x, em_body = eo_body x, em_alert_on = or_nil alertOn\<rparr>"

definition email_view :: "('m, 'l) heap \<Rightarrow> email_obj \<Rightarrow> email_config" where
  "email_view h x = email_read x (texts_view h (eo_to x)) (texts_view h (eo_alert_on x))"

lemma email_copy: "deep_copy EmailConfig_DeepCopyInto email_refs email_view"
  by (rule deep_copy_struct [OF deep_copy_pair [OF texts_copy texts_copy], where parts = "\<lambda>x. (eo_to x, eo_alert_on x)"
        and put = "\<lambda>(receivers, alertOn) x. x\<lparr>eo_to := receivers, eo_alert_on := alertOn\<rparr>" and join' = "\<lambda>x (receivers, alertOn). email_read x receivers alertOn"])
    (auto simp: EmailConfig_DeepCopyInto_def email_refs_def email_view_def email_read_def copy_pair_def pair_refs_def pair_view_def Let_def
      split: prod.splits)

definition ValkeyConfig_DeepCopyInto :: "('m, 'l, valkey_obj) copy" where
  "ValkeyConfig_DeepCopyInto x h =
     (let (dashboards, h1) = copy_texts (vo_dashboards x) h;
          (retention, h2) = copy_int (vo_retention_days x) h1
      in (x\<lparr>vo_dashboards := dashboards, vo_retention_days := retention\<rparr>, h2))"

definition ValkeyConfig_DeepCopy :: "('m, 'l, addr option) copy" where
  "ValkeyConfig_DeepCopy = copy_ref CValkey the_valkey ValkeyConfig_DeepCopyInto"

definition valkey_refs :: "('m, 'l) heap \<Rightarrow> valkey_obj \<Rightarrow> addr list" where
  "valkey_refs h x = texts_refs h (vo_dashboards x) @ int_refs h (vo_retention_days x)"

definition valkey_read :: "valkey_obj \<Rightarrow> string list option \<Rightarrow> int option \<Rightarrow> valkey_config" where
  "valkey_read x dashboards retention =
     \<lparr>vk_enabled = vo_enabled x, vk_endpoint = vo_endpoint x, vk_tls = vo_tls x, vk_secret = vo_secret x,
       vk_dashboards = or_nil dashboards, vk_name = vo_name x, vk_retention_days = retention, vk_db = vo_db x\<rparr>"

definition valkey_view :: "('m, 'l) heap \<Rightarrow> valkey_obj \<Rightarrow> valkey_config" where
  "valkey_view h x = valkey_read x (texts_view h (vo_dashboards x)) (int_view h (vo_retention_days x))"

lemma valkey_copy: "deep_copy ValkeyConfig_DeepCopyInto valkey_refs valkey_view"
  by (rule deep_copy_struct [OF deep_copy_pair [OF texts_copy int_copy], where parts = "\<lambda>x. (vo_dashboards x, vo_retention_days x)"
        and put = "\<lambda>(dashboards, retention) x. x\<lparr>vo_dashboards := dashboards, vo_retention_days := retention\<rparr>" and join' = "\<lambda>x (dashboards, retention). valkey_read x dashboards retention"])
    (auto simp: ValkeyConfig_DeepCopyInto_def valkey_refs_def valkey_view_def valkey_read_def copy_pair_def pair_refs_def pair_view_def Let_def
      split: prod.splits)

text \<open>Pointers to them.\<close>

lemma slack_ref: "deep_copy (copy_ref CSlack the_slack SlackConfig_DeepCopyInto) (ref_refs the_slack slack_refs) (ref_view the_slack slack_view)"
  by (rule deep_copy_ref [OF slack_copy]) simp

lemma email_ref: "deep_copy (copy_ref CEmail the_email EmailConfig_DeepCopyInto) (ref_refs the_email email_refs) (ref_view the_email email_view)"
  by (rule deep_copy_ref [OF email_copy]) simp

lemma discord_ref: "deep_copy (copy_ref CDiscord the_discord DiscordConfig_DeepCopyInto) (ref_refs the_discord discord_refs) (ref_view the_discord discord_view)"
  by (rule deep_copy_ref [OF discord_copy]) simp

lemma webhook_ref: "deep_copy (copy_ref CWebhook the_webhook WebhookConfig_DeepCopyInto) (ref_refs the_webhook webhook_refs) (ref_view the_webhook webhook_view)"
  by (rule deep_copy_ref [OF webhook_copy]) simp

lemma valkey_ref: "deep_copy (copy_ref CValkey the_valkey ValkeyConfig_DeepCopyInto) (ref_refs the_valkey valkey_refs) (ref_view the_valkey valkey_view)"
  by (rule deep_copy_ref [OF valkey_copy]) simp

lemma http_json_ref: "deep_copy (copy_ref CHttpJson the_http_json HttpJsonCheck_DeepCopyInto) (ref_refs the_http_json http_json_refs) (ref_view the_http_json http_json_view)"
  by (rule deep_copy_ref [OF http_json_copy]) simp

lemma mysql_ref: "deep_copy (copy_ref CMysql the_mysql MysqlCheck_DeepCopyInto) (ref_refs the_mysql mysql_refs) (ref_view the_mysql mysql_view)"
  by (rule deep_copy_ref [OF mysql_copy]) simp

lemma postgres_ref: "deep_copy (copy_ref CPostgres the_postgres PostgresCheck_DeepCopyInto) (ref_refs the_postgres postgres_refs) (ref_view the_postgres postgres_view)"
  by (rule deep_copy_ref [OF postgres_copy]) simp

lemma mongodb_ref: "deep_copy (copy_ref CMongodb the_mongodb MongodbCheck_DeepCopyInto) (ref_refs the_mongodb mongodb_refs) (ref_view the_mongodb mongodb_view)"
  by (rule deep_copy_ref [OF mongodb_copy]) simp

definition NotifyConfig_DeepCopyInto :: "('m, 'l, notify_obj) copy" where
  "NotifyConfig_DeepCopyInto x h =
     (let (slack, h1) = copy_ref CSlack the_slack SlackConfig_DeepCopyInto (no_slack x) h;
          (email, h2) = copy_ref CEmail the_email EmailConfig_DeepCopyInto (no_email x) h1;
          (discord, h3) = copy_ref CDiscord the_discord DiscordConfig_DeepCopyInto (no_discord x) h2;
          (webhook, h4) = copy_ref CWebhook the_webhook WebhookConfig_DeepCopyInto (no_webhook x) h3;
          (valkey, h5) = copy_ref CValkey the_valkey ValkeyConfig_DeepCopyInto (no_valkey x) h4
      in (x\<lparr>no_slack := slack, no_email := email, no_discord := discord, no_webhook := webhook, no_valkey := valkey\<rparr>, h5))"

definition NotifyConfig_DeepCopy :: "('m, 'l, addr option) copy" where
  "NotifyConfig_DeepCopy = copy_ref CNotify the_notify NotifyConfig_DeepCopyInto"

definition notify_refs :: "('m, 'l) heap \<Rightarrow> notify_obj \<Rightarrow> addr list" where
  "notify_refs h x = ref_refs the_slack slack_refs h (no_slack x) @ ref_refs the_email email_refs h (no_email x) @ ref_refs the_discord discord_refs h (no_discord x) @ ref_refs the_webhook webhook_refs h (no_webhook x) @ ref_refs the_valkey valkey_refs h (no_valkey x)"

definition notify_read :: "notify_obj \<Rightarrow> slack_config option \<Rightarrow> email_config option \<Rightarrow> discord_config option \<Rightarrow> webhook_config option \<Rightarrow> valkey_config option \<Rightarrow> notify_config" where
  "notify_read x slack email discord webhook valkey =
     \<lparr>nc_slack = slack, nc_email = email, nc_discord = discord, nc_webhook = webhook, nc_valkey = valkey\<rparr>"

definition notify_view :: "('m, 'l) heap \<Rightarrow> notify_obj \<Rightarrow> notify_config" where
  "notify_view h x = notify_read x (ref_view the_slack slack_view h (no_slack x)) (ref_view the_email email_view h (no_email x)) (ref_view the_discord discord_view h (no_discord x)) (ref_view the_webhook webhook_view h (no_webhook x)) (ref_view the_valkey valkey_view h (no_valkey x))"

lemma notify_copy: "deep_copy NotifyConfig_DeepCopyInto notify_refs notify_view"
  by (rule deep_copy_struct [OF deep_copy_pair [OF slack_ref deep_copy_pair [OF email_ref deep_copy_pair [OF discord_ref deep_copy_pair [OF webhook_ref valkey_ref]]]], where parts = "\<lambda>x. (no_slack x, no_email x, no_discord x, no_webhook x, no_valkey x)"
        and put = "\<lambda>(slack, email, discord, webhook, valkey) x. x\<lparr>no_slack := slack, no_email := email, no_discord := discord, no_webhook := webhook, no_valkey := valkey\<rparr>" and join' = "\<lambda>x (slack, email, discord, webhook, valkey). notify_read x slack email discord webhook valkey"])
    (auto simp: NotifyConfig_DeepCopyInto_def notify_refs_def notify_view_def notify_read_def copy_pair_def pair_refs_def pair_view_def Let_def
      split: prod.splits)

section \<open>Families\<close>

text \<open>The copy of the list alone makes a slice even of a nil list; \<open>DeepCopy\<close> and the copy of a whole monitor do not.\<close>

definition IpFamilies_DeepCopyInto :: "addr option \<Rightarrow> ('m, 'l) heap \<Rightarrow> addr \<times> ('m, 'l) heap" where
  "IpFamilies_DeepCopyInto fs h = alloc (CTexts (or_nil (texts_view h fs))) h"

definition IpFamilies_DeepCopy :: "('m, 'l, addr option) copy" where
  "IpFamilies_DeepCopy fs h =
     (case fs of None \<Rightarrow> (None, h) | Some _ \<Rightarrow> (let (a, h1) = IpFamilies_DeepCopyInto fs h in (Some a, h1)))"

lemma IpFamilies_DeepCopy_texts: "IpFamilies_DeepCopy = copy_texts"
  by (intro ext) (simp add: IpFamilies_DeepCopy_def IpFamilies_DeepCopyInto_def copy_ref_def keep_def ref_view_def itself_view_def
      or_nil_def Let_def split: option.splits prod.splits)

section \<open>Monitors\<close>

abbreviation "copy_http \<equiv> copy_ref CHttp the_http keep"
abbreviation "http_refs \<equiv> ref_refs the_http no_refs"
abbreviation "http_view \<equiv> ref_view the_http itself_view"

lemma http_copy: "deep_copy copy_http http_refs http_view"
  by (rule deep_copy_ref [OF flat.deep_copy_axioms]) simp

abbreviation "copy_smtp \<equiv> copy_ref CSmtp the_smtp keep"
abbreviation "smtp_refs \<equiv> ref_refs the_smtp no_refs"
abbreviation "smtp_view \<equiv> ref_view the_smtp itself_view"

lemma smtp_copy: "deep_copy copy_smtp smtp_refs smtp_view"
  by (rule deep_copy_ref [OF flat.deep_copy_axioms]) simp

abbreviation "copy_redis \<equiv> copy_ref CRedis the_redis keep"
abbreviation "redis_refs \<equiv> ref_refs the_redis no_refs"
abbreviation "redis_view \<equiv> ref_view the_redis itself_view"

lemma redis_copy: "deep_copy copy_redis redis_refs redis_view"
  by (rule deep_copy_ref [OF flat.deep_copy_axioms]) simp

abbreviation "copy_tls \<equiv> copy_ref CTls the_tls keep"
abbreviation "tls_refs \<equiv> ref_refs the_tls no_refs"
abbreviation "tls_view \<equiv> ref_view the_tls itself_view"

lemma tls_copy: "deep_copy copy_tls tls_refs tls_view"
  by (rule deep_copy_ref [OF flat.deep_copy_axioms]) simp

abbreviation "copy_dns \<equiv> copy_ref CDns the_dns keep"
abbreviation "dns_refs \<equiv> ref_refs the_dns no_refs"
abbreviation "dns_view \<equiv> ref_view the_dns itself_view"

lemma dns_copy: "deep_copy copy_dns dns_refs dns_view"
  by (rule deep_copy_ref [OF flat.deep_copy_axioms]) simp

abbreviation "copy_scylladb \<equiv> copy_ref CScylladb the_scylladb keep"
abbreviation "scylladb_refs \<equiv> ref_refs the_scylladb no_refs"
abbreviation "scylladb_view \<equiv> ref_view the_scylladb itself_view"

lemma scylladb_copy: "deep_copy copy_scylladb scylladb_refs scylladb_view"
  by (rule deep_copy_ref [OF flat.deep_copy_axioms]) simp

definition EndpointMonitorSpec_DeepCopyInto :: "('m, 'l, spec_obj) copy" where
  "EndpointMonitorSpec_DeepCopyInto x h =
     (let (notify, h1) = NotifyConfig_DeepCopyInto (xo_notify x) h;
          (http, h2) = copy_http (xo_http x) h1;
          (http_json, h3) = copy_ref CHttpJson the_http_json HttpJsonCheck_DeepCopyInto (xo_http_json x) h2;
          (smtp, h4) = copy_smtp (xo_smtp x) h3;
          (redis, h5) = copy_redis (xo_redis x) h4;
          (tls, h6) = copy_tls (xo_tls x) h5;
          (dns, h7) = copy_dns (xo_dns x) h6;
          (mysql, h8) = copy_ref CMysql the_mysql MysqlCheck_DeepCopyInto (xo_mysql x) h7;
          (postgres, h9) = copy_ref CPostgres the_postgres PostgresCheck_DeepCopyInto (xo_postgres x) h8;
          (mongodb, h10) = copy_ref CMongodb the_mongodb MongodbCheck_DeepCopyInto (xo_mongodb x) h9;
          (scylladb, h11) = copy_scylladb (xo_scylladb x) h10;
          (families, h12) = copy_texts (xo_families x) h11
      in (x\<lparr>xo_notify := notify, xo_http := http, xo_http_json := http_json, xo_smtp := smtp, xo_redis := redis, xo_tls := tls, xo_dns := dns, xo_mysql := mysql, xo_postgres := postgres, xo_mongodb := mongodb, xo_scylladb := scylladb, xo_families := families\<rparr>, h12))"

definition EndpointMonitorSpec_DeepCopy :: "('m, 'l, addr option) copy" where
  "EndpointMonitorSpec_DeepCopy = copy_ref CSpec the_spec EndpointMonitorSpec_DeepCopyInto"

definition spec_refs :: "('m, 'l) heap \<Rightarrow> spec_obj \<Rightarrow> addr list" where
  "spec_refs h x = notify_refs h (xo_notify x) @ http_refs h (xo_http x) @ ref_refs the_http_json http_json_refs h (xo_http_json x) @ smtp_refs h (xo_smtp x) @ redis_refs h (xo_redis x) @ tls_refs h (xo_tls x) @ dns_refs h (xo_dns x) @ ref_refs the_mysql mysql_refs h (xo_mysql x) @ ref_refs the_postgres postgres_refs h (xo_postgres x) @ ref_refs the_mongodb mongodb_refs h (xo_mongodb x) @ scylladb_refs h (xo_scylladb x) @ texts_refs h (xo_families x)"

definition spec_read :: "spec_obj \<Rightarrow> notify_config \<Rightarrow> http_check option \<Rightarrow> http_json_check option \<Rightarrow> smtp_check option \<Rightarrow> redis_check option \<Rightarrow> tls_check option \<Rightarrow> dns_check option \<Rightarrow> mysql_check option \<Rightarrow> postgres_check option \<Rightarrow> mongodb_check option \<Rightarrow> scylladb_check option \<Rightarrow> string list option \<Rightarrow> monitor_spec" where
  "spec_read x notify http http_json smtp redis tls dns mysql postgres mongodb scylladb families =
     \<lparr>sp_driver = xo_driver x, sp_endpoint = xo_endpoint x, sp_interval = xo_interval x, sp_notify = notify, sp_http = http,
       sp_http_json = http_json, sp_smtp = smtp, sp_redis = redis, sp_tls = tls, sp_dns = dns, sp_mysql = mysql, sp_postgres = postgres,
       sp_mongodb = mongodb, sp_scylladb = scylladb, sp_families = or_nil families\<rparr>"

definition spec_view :: "('m, 'l) heap \<Rightarrow> spec_obj \<Rightarrow> monitor_spec" where
  "spec_view h x = spec_read x (notify_view h (xo_notify x)) (http_view h (xo_http x)) (ref_view the_http_json http_json_view h (xo_http_json x)) (smtp_view h (xo_smtp x)) (redis_view h (xo_redis x)) (tls_view h (xo_tls x)) (dns_view h (xo_dns x)) (ref_view the_mysql mysql_view h (xo_mysql x)) (ref_view the_postgres postgres_view h (xo_postgres x)) (ref_view the_mongodb mongodb_view h (xo_mongodb x)) (scylladb_view h (xo_scylladb x)) (texts_view h (xo_families x))"

lemma spec_copy: "deep_copy EndpointMonitorSpec_DeepCopyInto spec_refs spec_view"
  by (rule deep_copy_struct [OF deep_copy_pair [OF notify_copy deep_copy_pair [OF http_copy deep_copy_pair [OF http_json_ref deep_copy_pair [OF smtp_copy deep_copy_pair [OF redis_copy deep_copy_pair [OF tls_copy deep_copy_pair [OF dns_copy deep_copy_pair [OF mysql_ref deep_copy_pair [OF postgres_ref deep_copy_pair [OF mongodb_ref deep_copy_pair [OF scylladb_copy texts_copy]]]]]]]]]]], where parts = "\<lambda>x. (xo_notify x, xo_http x, xo_http_json x, xo_smtp x, xo_redis x, xo_tls x, xo_dns x, xo_mysql x, xo_postgres x, xo_mongodb x, xo_scylladb x, xo_families x)"
        and put = "\<lambda>(notify, http, http_json, smtp, redis, tls, dns, mysql, postgres, mongodb, scylladb, families) x. x\<lparr>xo_notify := notify, xo_http := http, xo_http_json := http_json, xo_smtp := smtp, xo_redis := redis, xo_tls := tls, xo_dns := dns, xo_mysql := mysql, xo_postgres := postgres, xo_mongodb := mongodb, xo_scylladb := scylladb, xo_families := families\<rparr>" and join' = "\<lambda>x (notify, http, http_json, smtp, redis, tls, dns, mysql, postgres, mongodb, scylladb, families). spec_read x notify http http_json smtp redis tls dns mysql postgres mongodb scylladb families"])
    (auto simp: EndpointMonitorSpec_DeepCopyInto_def spec_refs_def spec_view_def spec_read_def copy_pair_def pair_refs_def pair_view_def Let_def
      split: prod.splits)

text \<open>Times are values, which the copy of the structure copies.\<close>

definition EndpointMonitorStatus_DeepCopyInto :: "('m, 'l, status_obj) copy" where
  "EndpointMonitorStatus_DeepCopyInto x h =
     (let (notified, h1) = copy_text (to_notified x) h
      in (x\<lparr>to_notified := notified\<rparr>, h1))"

definition EndpointMonitorStatus_DeepCopy :: "('m, 'l, addr option) copy" where
  "EndpointMonitorStatus_DeepCopy = copy_ref CStatus the_status EndpointMonitorStatus_DeepCopyInto"

definition status_refs :: "('m, 'l) heap \<Rightarrow> status_obj \<Rightarrow> addr list" where
  "status_refs h x = text_refs h (to_notified x)"

definition status_read :: "status_obj \<Rightarrow> string option \<Rightarrow> monitor_status" where
  "status_read x notified =
     \<lparr>ms_checked = to_checked x, ms_status = to_status x, ms_since = to_since x, ms_notified = notified,
       ms_notified_since = to_notified_since x, ms_generation = to_generation x\<rparr>"

definition status_view :: "('m, 'l) heap \<Rightarrow> status_obj \<Rightarrow> monitor_status" where
  "status_view h x = status_read x (text_view h (to_notified x))"

lemma status_copy: "deep_copy EndpointMonitorStatus_DeepCopyInto status_refs status_view"
  by (rule deep_copy_struct [OF text_copy, where parts = "\<lambda>x. to_notified x"
        and put = "\<lambda>notified x. x\<lparr>to_notified := notified\<rparr>" and join' = "\<lambda>x notified. status_read x notified"])
    (auto simp: EndpointMonitorStatus_DeepCopyInto_def status_refs_def status_view_def status_read_def copy_pair_def pair_refs_def pair_view_def Let_def
      split: prod.splits)

text \<open>A monitor; the copy of its metadata is that of \<^verbatim>\<open>apimachinery\<close>.\<close>

definition EndpointMonitor_DeepCopyInto :: "('m, 'l, 'm) copy \<Rightarrow> ('m, 'l, 'm monitor_obj) copy" where
  "EndpointMonitor_DeepCopyInto copy_meta x h =
     (let (meta, h1) = copy_meta (mb_meta x) h;
          (spec, h2) = EndpointMonitorSpec_DeepCopyInto (mb_spec x) h1;
          (status, h3) = EndpointMonitorStatus_DeepCopyInto (mb_status x) h2
      in (x\<lparr>mb_meta := meta, mb_spec := spec, mb_status := status\<rparr>, h3))"

definition EndpointMonitor_DeepCopy :: "('m, 'l, 'm) copy \<Rightarrow> ('m, 'l, addr option) copy" where
  "EndpointMonitor_DeepCopy copy_meta = copy_ref CMonitor the_monitor (EndpointMonitor_DeepCopyInto copy_meta)"

definition EndpointMonitor_DeepCopyObject :: "('m, 'l, 'm) copy \<Rightarrow> ('m, 'l, addr option) copy" where
  "EndpointMonitor_DeepCopyObject copy_meta p h =
     (case EndpointMonitor_DeepCopy copy_meta p h of (Some c, h1) \<Rightarrow> (Some c, h1) | (None, h1) \<Rightarrow> (None, h1))"

definition monitor_refs :: "(('m, 'l) heap \<Rightarrow> 'm \<Rightarrow> addr list) \<Rightarrow> ('m, 'l) heap \<Rightarrow> 'm monitor_obj \<Rightarrow> addr list" where
  "monitor_refs meta_refs h x = meta_refs h (mb_meta x) @ spec_refs h (mb_spec x) @ status_refs h (mb_status x)"

definition monitor_view :: "(('m, 'l) heap \<Rightarrow> 'm \<Rightarrow> 'n) \<Rightarrow> ('m, 'l) heap \<Rightarrow> 'm monitor_obj
    \<Rightarrow> (string \<times> string) \<times> 'n \<times> monitor_spec \<times> monitor_status" where
  "monitor_view meta_view h x = (mb_type x, meta_view h (mb_meta x), spec_view h (mb_spec x), status_view h (mb_status x))"

lemma monitor_copy:
  assumes "deep_copy copy_meta meta_refs meta_view"
  shows "deep_copy (EndpointMonitor_DeepCopyInto copy_meta) (monitor_refs meta_refs) (monitor_view meta_view)"
  by (rule deep_copy_struct [OF deep_copy_pair [OF assms deep_copy_pair [OF spec_copy status_copy]],
        where parts = "\<lambda>x. (mb_meta x, mb_spec x, mb_status x)"
        and put = "\<lambda>(meta, spec, status) x. x\<lparr>mb_meta := meta, mb_spec := spec, mb_status := status\<rparr>"
        and join' = "\<lambda>x (meta, spec, status). (mb_type x, meta, spec, status)"])
    (auto simp: EndpointMonitor_DeepCopyInto_def monitor_refs_def monitor_view_def copy_pair_def pair_refs_def pair_view_def Let_def
      split: prod.splits)

lemma monitor_ref:
  assumes "deep_copy copy_meta meta_refs meta_view"
  shows "deep_copy (EndpointMonitor_DeepCopy copy_meta) (ref_refs the_monitor (monitor_refs meta_refs))
    (ref_view the_monitor (monitor_view meta_view))"
  unfolding EndpointMonitor_DeepCopy_def by (rule deep_copy_ref [OF monitor_copy [OF assms]]) simp

text \<open>A list of monitors.\<close>

definition EndpointMonitorList_DeepCopyInto :: "('m, 'l, 'm) copy \<Rightarrow> ('m, 'l, 'l) copy \<Rightarrow> ('m, 'l, 'l list_obj) copy" where
  "EndpointMonitorList_DeepCopyInto copy_meta copy_list_meta x h =
     (let (meta, h1) = copy_list_meta (lb_meta x) h;
          (items, h2) = copy_ref CMonitors the_monitors (copy_list (EndpointMonitor_DeepCopyInto copy_meta)) (lb_items x) h1
      in (x\<lparr>lb_meta := meta, lb_items := items\<rparr>, h2))"

definition EndpointMonitorList_DeepCopy :: "('m, 'l, 'm) copy \<Rightarrow> ('m, 'l, 'l) copy \<Rightarrow> ('m, 'l, addr option) copy" where
  "EndpointMonitorList_DeepCopy copy_meta copy_list_meta =
     copy_ref CList the_list (EndpointMonitorList_DeepCopyInto copy_meta copy_list_meta)"

definition EndpointMonitorList_DeepCopyObject :: "('m, 'l, 'm) copy \<Rightarrow> ('m, 'l, 'l) copy \<Rightarrow> ('m, 'l, addr option) copy" where
  "EndpointMonitorList_DeepCopyObject copy_meta copy_list_meta p h =
     (case EndpointMonitorList_DeepCopy copy_meta copy_list_meta p h of (Some c, h1) \<Rightarrow> (Some c, h1) | (None, h1) \<Rightarrow> (None, h1))"

definition list_obj_refs :: "(('m, 'l) heap \<Rightarrow> 'm \<Rightarrow> addr list) \<Rightarrow> (('m, 'l) heap \<Rightarrow> 'l \<Rightarrow> addr list) \<Rightarrow> ('m, 'l) heap
    \<Rightarrow> 'l list_obj \<Rightarrow> addr list" where
  "list_obj_refs meta_refs list_meta_refs h x =
     list_meta_refs h (lb_meta x) @ ref_refs the_monitors (list_refs (monitor_refs meta_refs)) h (lb_items x)"

definition list_obj_view :: "(('m, 'l) heap \<Rightarrow> 'm \<Rightarrow> 'n) \<Rightarrow> (('m, 'l) heap \<Rightarrow> 'l \<Rightarrow> 'k) \<Rightarrow> ('m, 'l) heap \<Rightarrow> 'l list_obj
    \<Rightarrow> (string \<times> string) \<times> 'k \<times> ((string \<times> string) \<times> 'n \<times> monitor_spec \<times> monitor_status) list option" where
  "list_obj_view meta_view list_meta_view h x =
     (lb_type x, list_meta_view h (lb_meta x), ref_view the_monitors (list_view (monitor_view meta_view)) h (lb_items x))"

lemma monitors_ref:
  assumes "deep_copy copy_meta meta_refs meta_view"
  shows "deep_copy (copy_ref CMonitors the_monitors (copy_list (EndpointMonitor_DeepCopyInto copy_meta)))
    (ref_refs the_monitors (list_refs (monitor_refs meta_refs))) (ref_view the_monitors (list_view (monitor_view meta_view)))"
  by (rule deep_copy_ref [OF deep_copy_list [OF monitor_copy [OF assms]]]) simp

lemma list_obj_copy:
  assumes "deep_copy copy_meta meta_refs meta_view" "deep_copy copy_list_meta list_meta_refs list_meta_view"
  shows "deep_copy (EndpointMonitorList_DeepCopyInto copy_meta copy_list_meta) (list_obj_refs meta_refs list_meta_refs)
    (list_obj_view meta_view list_meta_view)"
  by (rule deep_copy_struct [OF deep_copy_pair [OF assms(2) monitors_ref [OF assms(1)]],
        where parts = "\<lambda>x. (lb_meta x, lb_items x)" and put = "\<lambda>(meta, items) x. x\<lparr>lb_meta := meta, lb_items := items\<rparr>"
        and join' = "\<lambda>x (meta, items). (lb_type x, meta, items)"])
    (auto simp: EndpointMonitorList_DeepCopyInto_def list_obj_refs_def list_obj_view_def copy_pair_def pair_refs_def pair_view_def Let_def
      split: prod.splits)

theorem list_copy_is_separate:
  assumes "deep_copy copy_meta meta_refs meta_view" "deep_copy copy_list_meta list_meta_refs list_meta_view"
  shows "deep_copy (EndpointMonitorList_DeepCopy copy_meta copy_list_meta)
    (ref_refs the_list (list_obj_refs meta_refs list_meta_refs)) (ref_view the_list (list_obj_view meta_view list_meta_view))"
  unfolding EndpointMonitorList_DeepCopy_def by (rule deep_copy_ref [OF list_obj_copy [OF assms]]) simp

section \<open>A copy of its own\<close>

text \<open>
  C40: the copy of a monitor says what the monitor says and shares no memory with it: whatever is written
  later to memory that was there before the copy, the copy still reads as the monitor did, and whatever is
  written to the memory of the copy, the monitor does. A retry of an alert therefore keeps the monitor it
  was started for while \<^verbatim>\<open>Reconcile\<close> goes on changing its own.
\<close>

theorem deep_copy_is_separate:
  assumes "deep_copy copy_meta meta_refs meta_view"
    and "below (hp_next h) (ref_refs the_monitor (monitor_refs meta_refs) h p)"
    and "EndpointMonitor_DeepCopy copy_meta p h = (q, h')"
  shows "(\<forall>h''. (\<forall>a. hp_next h \<le> a \<longrightarrow> hp_cells h'' a = hp_cells h' a)
        \<longrightarrow> ref_view the_monitor (monitor_view meta_view) h'' q = ref_view the_monitor (monitor_view meta_view) h p)
    \<and> (\<forall>h''. (\<forall>a < hp_next h. hp_cells h'' a = hp_cells h' a)
        \<longrightarrow> ref_view the_monitor (monitor_view meta_view) h'' p = ref_view the_monitor (monitor_view meta_view) h p)"
  using deep_copy.copy_survives [OF monitor_ref [OF assms(1)] assms(2,3)]
    deep_copy.original_survives [OF monitor_ref [OF assms(1)] assms(2,3)] by blast

definition demo_monitor :: "string monitor_obj" where
  "demo_monitor =
     \<lparr>mb_type = (''EndpointMonitor'', ''v1alpha1''), mb_meta = ''db'',
      mb_spec = \<lparr>xo_driver = ''tcp'', xo_endpoint = ''db:5432'', xo_interval = 60,
        xo_notify = \<lparr>no_slack = Some 1, no_email = None, no_discord = None, no_webhook = None, no_valkey = None\<rparr>,
        xo_http = None, xo_http_json = None, xo_smtp = None, xo_redis = None, xo_tls = None, xo_dns = None, xo_mysql = None,
        xo_postgres = None, xo_mongodb = None, xo_scylladb = None, xo_families = None\<rparr>,
      mb_status = \<lparr>to_checked = 7, to_status = ''failure'', to_since = 7, to_notified = Some 2, to_notified_since = 3,
        to_generation = 1\<rparr>\<rparr>"

definition demo_heap :: "(string, string) heap" where
  "demo_heap =
     \<lparr>hp_next = 4, hp_cells = [0 \<mapsto> CTexts [''change''], 1 \<mapsto> CSlack \<lparr>so_enabled = True, so_url = ''https://slack/x'', so_alert_on = Some 0\<rparr>,
        2 \<mapsto> CText ''success'', 3 \<mapsto> CMonitor demo_monitor]\<rparr>"

theorem deep_copy_is_separate_witness:
  "case EndpointMonitor_DeepCopy keep (Some 3) demo_heap of
     (q, h') \<Rightarrow> ref_view the_monitor (monitor_view itself_view)
         (h'\<lparr>hp_cells := (hp_cells h')(0 \<mapsto> CTexts [], 2 \<mapsto> CText ''failure'')\<rparr>) q
       = ref_view the_monitor (monitor_view itself_view) demo_heap (Some 3)"
proof -
  obtain q h' where c: "EndpointMonitor_DeepCopy keep (Some 3) demo_heap = (q, h')" by force
  have "below (hp_next demo_heap) (ref_refs the_monitor (monitor_refs no_refs) demo_heap (Some 3))" by code_simp
  moreover have "hp_next demo_heap = 4" by (simp add: demo_heap_def)
  ultimately show ?thesis
    using deep_copy_is_separate [OF flat.deep_copy_axioms _ c] by (simp add: c)
qed

end
