(* ===== verification/Alert_Retries.thy ===== *)
theory Alert_Retries
  imports Monitor_Types
begin

text \<open>
  \<^verbatim>\<open>CompositeNotifier\<close> of \<^verbatim>\<open>pkg/factory/factory.go\<close> and \<^verbatim>\<open>internal/controller/retry.go\<close>: alerts
  go to every notifier, and those whose notifier failed in a way a later try may not repeat are sent
  again in the background. A goroutine that retries an alert is a record of its variables under its
  monitor; one iteration of its loop is one step of the operator. What a step does to the cluster and the
  notifiers' services is a function on the world \<open>'w\<close>.
\<close>

section \<open>All notifiers of a monitor\<close>

type_synonym 'w named_notifier = "string \<times> 'w notifier"

text \<open>An entry of the three parallel slices of \<^verbatim>\<open>SendError\<close>; an error rewritten by \<^verbatim>\<open>queueRetries\<close> has no notifiers.\<close>

record 'w alert_failure =
  af_name :: string
  af_error :: alert_error
  af_notifier :: "'w notifier option"

type_synonym 'w send_error = "'w alert_failure list"

fun send_each :: "'w named_notifier list \<Rightarrow> string \<Rightarrow> notice_values \<Rightarrow> 'w \<Rightarrow> 'w send_error \<times> 'w" where
  "send_each [] status values w = ([], w)"
| "send_each ((name, n) # ns) status values w =
     (case n status values w of
        (None, w1) \<Rightarrow> send_each ns status values w1
      | (Some e, w1) \<Rightarrow>
          (case send_each ns status values w1 of
             (failed, w2) \<Rightarrow> (\<lparr>af_name = name, af_error = e, af_notifier = Some n\<rparr> # failed, w2)))"

definition composite_send :: "'w named_notifier list \<Rightarrow> string \<Rightarrow> notice_values \<Rightarrow> 'w \<Rightarrow> 'w send_error option \<times> 'w" where
  "composite_send ns status values w =
     (case send_each ns status values w of (failed, w') \<Rightarrow> (if failed \<noteq> [] then Some failed else None, w'))"

section \<open>The cluster\<close>

datatype get_error = NotFound | GetFailed string

datatype update_error = Conflict | UpdateFailed string

text \<open>
  The client of the API server: a read through the cache, one past it, the update of a status, which gives
  back the object as stored, events, the clock and waiting.
\<close>

record 'w kube =
  kb_get :: "name \<Rightarrow> 'w \<Rightarrow> get_error + monitor"
  kb_api_reader :: "(name \<Rightarrow> 'w \<Rightarrow> get_error + monitor) option"
  kb_update :: "monitor \<Rightarrow> 'w \<Rightarrow> update_error option \<times> monitor \<times> 'w"
  kb_event :: "monitor \<Rightarrow> string \<Rightarrow> string \<Rightarrow> 'w \<Rightarrow> 'w"
  kb_now :: "'w \<Rightarrow> time"
  kb_wait :: "duration \<Rightarrow> 'w \<Rightarrow> 'w"

record 'w reconciler =
  rc_kube :: "'w kube"
  rc_retries :: "(int \<times> duration) option"
  rc_new_driver :: "monitor \<Rightarrow> 'w \<Rightarrow> 'w driver result"
  rc_new_notifier :: "notify_config \<Rightarrow> 'w named_notifier list result"
  rc_display :: "string \<Rightarrow> string"
  rc_time_text :: "time \<Rightarrow> string"
  rc_duration_text :: "duration \<Rightarrow> string"

definition NewAlertRetries :: "int \<times> duration" where
  "NewAlertRetries = (5, 30 * second)"

definition reader :: "'w reconciler \<Rightarrow> name \<Rightarrow> 'w \<Rightarrow> get_error + monitor" where
  "reader r = (case kb_api_reader (rc_kube r) of Some get \<Rightarrow> get | None \<Rightarrow> kb_get (rc_kube r))"

section \<open>Pending retries\<close>

record announced =
  an_status :: string
  an_since :: time

text \<open>A retry: its identity, and the variables of \<^verbatim>\<open>retryAlert\<close> at the head of its loop.\<close>

record 'w alert_run =
  ar_id :: nat
  ar_key :: name
  ar_monitor :: monitor
  ar_name :: string
  ar_notifier :: "'w notifier"
  ar_alert :: string
  ar_values :: notice_values
  ar_change :: "announced option"
  ar_error :: alert_error
  ar_try :: int

record 'w operator =
  op_world :: 'w
  op_pending :: "(name, 'w alert_run list) gomap"
  op_wrote :: "(name, bool) gomap"
  op_next :: nat

abbreviation pending_of :: "'w operator \<Rightarrow> name \<Rightarrow> 'w alert_run list" where
  "pending_of s nn \<equiv> get_or [] (op_pending s) nn"

definition noteWrite :: "name \<Rightarrow> 'w operator \<Rightarrow> 'w operator" where
  "noteWrite nn s = s\<lparr>op_wrote := map_put nn True (op_wrote s)\<rparr>"

definition add_run :: "name \<Rightarrow> 'w alert_run \<Rightarrow> 'w operator \<Rightarrow> 'w operator" where
  "add_run nn run s =
     s\<lparr>op_pending := map_put nn (pending_of s nn @ [run\<lparr>ar_id := op_next s\<rparr>]) (op_pending s), op_next := Suc (op_next s)\<rparr>"

definition remove_run :: "name \<Rightarrow> nat \<Rightarrow> 'w operator \<Rightarrow> 'w operator" where
  "remove_run nn i s =
     (let runs = filter (\<lambda>run. ar_id run \<noteq> i) (pending_of s nn)
      in s\<lparr>op_pending := (if runs = [] then map_del nn (op_pending s) else map_put nn runs (op_pending s))\<rparr>)"

text \<open>The variables of a goroutine that goes on.\<close>

definition keep_run :: "'w alert_run \<Rightarrow> 'w operator \<Rightarrow> 'w operator" where
  "keep_run run s =
     s\<lparr>op_pending := map_put (ar_key run) (map (\<lambda>x. if ar_id x = ar_id run then run else x) (pending_of s (ar_key run)))
       (op_pending s)\<rparr>"

section \<open>Reporting\<close>

definition alertFailed :: "'w reconciler \<Rightarrow> monitor \<Rightarrow> string \<Rightarrow> 'w send_error \<Rightarrow> 'w \<Rightarrow> 'w" where
  "alertFailed r m alert failed w =
     kb_event (rc_kube r) m ''AlertFailed''
       (alert @ '' alert was not sent by '' @ join '', '' (map af_name failed) @ ''; the operator log has the error'') w"

text \<open>\<^verbatim>\<open>retry.RetryOnConflict\<close> with \<^verbatim>\<open>DefaultRetry\<close>: five attempts, the last error is returned.\<close>

fun retry_on_conflict :: "nat \<Rightarrow> ('w \<Rightarrow> update_error option \<times> 'w) \<Rightarrow> 'w \<Rightarrow> update_error option \<times> 'w" where
  "retry_on_conflict 0 f w = (Some Conflict, w)"
| "retry_on_conflict (Suc n) f w =
     (case f w of
        (Some Conflict, w') \<Rightarrow> if n = 0 then (Some Conflict, w') else retry_on_conflict n f w'
      | (err, w') \<Rightarrow> (err, w'))"

definition mark_status :: "announced \<Rightarrow> monitor \<Rightarrow> monitor" where
  "mark_status change m =
     m\<lparr>mo_status := (mo_status m)\<lparr>ms_notified := Some (an_status change),
        ms_notified_since := ms_since (mo_status m)\<rparr>\<rparr>"

definition still_current :: "announced \<Rightarrow> monitor \<Rightarrow> bool" where
  "still_current change m \<longleftrightarrow> ms_status (mo_status m) = an_status change \<and> ms_since (mo_status m) = an_since change"

definition markAnnounced :: "'w reconciler \<Rightarrow> name \<Rightarrow> announced \<Rightarrow> 'w \<Rightarrow> update_error option \<times> 'w" where
  "markAnnounced r nn change =
     retry_on_conflict 5 (\<lambda>w. case reader r nn w of
         Inl NotFound \<Rightarrow> (None, w)
       | Inl (GetFailed e) \<Rightarrow> (Some (UpdateFailed e), w)
       | Inr m \<Rightarrow>
           (if \<not> still_current change m then (None, w)
            else case kb_update (rc_kube r) (mark_status change m) w of (err, _, w') \<Rightarrow> (err, w')))"

section \<open>One retry\<close>

text \<open>How a goroutine ends: its alert was sent, its monitor is gone, or the failure was reported.\<close>

datatype 'w run_end = Going "'w alert_run" | Sent | Gone | Reported

definition report :: "'w reconciler \<Rightarrow> 'w alert_run \<Rightarrow> 'w \<Rightarrow> 'w" where
  "report r run w =
     alertFailed r (ar_monitor run) (ar_alert run)
       [\<lparr>af_name = ar_name run, af_error = ar_error run, af_notifier = None\<rparr>] w"

definition refreshed :: "'w alert_run \<Rightarrow> get_error + monitor \<Rightarrow> 'w alert_run" where
  "refreshed run got = (case got of Inr m \<Rightarrow> run\<lparr>ar_monitor := m\<rparr> | Inl _ \<Rightarrow> run)"

text \<open>The branch of the loop that sees the retry stopped.\<close>

definition stopped_run :: "'w reconciler \<Rightarrow> 'w alert_run \<Rightarrow> 'w operator \<Rightarrow> 'w run_end \<times> 'w operator" where
  "stopped_run r run s =
     (case reader r (ar_key run) (op_world s) of
        Inl NotFound \<Rightarrow> (Gone, s)
      | got \<Rightarrow> (Reported, s\<lparr>op_world := report r (refreshed run got) (op_world s)\<rparr>))"

text \<open>A try that succeeded: the change it announced is recorded.\<close>

definition delivered :: "'w reconciler \<Rightarrow> 'w alert_run \<Rightarrow> 'w operator \<Rightarrow> 'w operator" where
  "delivered r run s =
     (case ar_change run of
        None \<Rightarrow> s
      | Some change \<Rightarrow>
          (case markAnnounced r (ar_key run) change (op_world s) of
             (None, w) \<Rightarrow> noteWrite (ar_key run) (s\<lparr>op_world := w\<rparr>)
           | (Some _, w) \<Rightarrow> s\<lparr>op_world := w\<rparr>))"

text \<open>The branch of the loop that has waited. Without retries configured none is ever queued, so no loop runs.\<close>

definition try_again :: "'w reconciler \<Rightarrow> 'w alert_run \<Rightarrow> 'w operator \<Rightarrow> 'w run_end \<times> 'w operator" where
  "try_again r run s =
     (case rc_retries r of
        None \<Rightarrow> (Reported, s)
      | Some (tries, delay) \<Rightarrow>
          (let w = kb_wait (rc_kube r) delay (op_world s) in
           case reader r (ar_key run) w of
             Inl NotFound \<Rightarrow> (Gone, s\<lparr>op_world := w\<rparr>)
           | got \<Rightarrow>
               (let run1 = refreshed run got in
                case ar_notifier run1 (ar_alert run1) (ar_values run1) w of
                  (None, w1) \<Rightarrow> (Sent, delivered r run1 (s\<lparr>op_world := w1\<rparr>))
                | (Some e, w1) \<Rightarrow>
                    (let run2 = run1\<lparr>ar_error := e\<rparr>
                     in if \<not> retryable e \<or> tries \<le> ar_try run2
                        then (Reported, s\<lparr>op_world := report r run2 w1\<rparr>)
                        else (Going (run2\<lparr>ar_try := ar_try run2 + 1\<rparr>), s\<lparr>op_world := w1\<rparr>)))))"

text \<open>One step of the goroutine, and the deferred removal at its end.\<close>

definition settle :: "'w alert_run \<Rightarrow> 'w run_end \<times> 'w operator \<Rightarrow> 'w operator" where
  "settle run x =
     (case x of (Going run', s) \<Rightarrow> keep_run run' s | (_, s) \<Rightarrow> remove_run (ar_key run) (ar_id run) s)"

definition retry_step :: "'w reconciler \<Rightarrow> 'w alert_run \<Rightarrow> 'w operator \<Rightarrow> 'w operator" where
  "retry_step r run s = settle run (try_again r run s)"

text \<open>
  A goroutine whose channel was closed after \<open>late\<close> further tries: a try in flight ends first, and a
  select with both channels ready may still choose the timer.
\<close>

fun finish_run :: "'w reconciler \<Rightarrow> nat \<Rightarrow> 'w alert_run \<Rightarrow> 'w operator \<Rightarrow> 'w run_end \<times> 'w operator" where
  "finish_run r 0 run s = stopped_run r run s"
| "finish_run r (Suc late) run s =
     (case try_again r run s of
        (Going run', s') \<Rightarrow> finish_run r late run' s'
      | done' \<Rightarrow> done')"

text \<open>The whole goroutine, stopped after \<open>late\<close> tries if it is still running then.\<close>

definition retryAlert :: "'w reconciler \<Rightarrow> nat \<Rightarrow> 'w alert_run \<Rightarrow> 'w operator \<Rightarrow> 'w operator" where
  "retryAlert r late run s = settle run (finish_run r late run s)"

definition Stop :: "'w reconciler \<Rightarrow> (nat \<Rightarrow> nat) \<Rightarrow> name \<Rightarrow> 'w operator \<Rightarrow> bool \<times> 'w operator" where
  "Stop r late nn s =
     (if rc_retries r = None then (False, s)
      else let runs = pending_of s nn;
               wrote = get_or False (op_wrote s) nn;
               s1 = s\<lparr>op_pending := map_del nn (op_pending s)\<rparr>;
               s2 = fold (\<lambda>run. retryAlert r (late (ar_id run)) run) runs s1
        in (runs \<noteq> [] \<or> wrote, s2\<lparr>op_wrote := map_del nn (op_wrote s2)\<rparr>))"

section \<open>Queueing\<close>

definition retried :: "'w send_error \<Rightarrow> 'w send_error" where
  "retried failed = filter (\<lambda>f. retryable (af_error f) \<and> af_notifier f \<noteq> None) failed"

definition given_up :: "'w send_error \<Rightarrow> 'w send_error" where
  "given_up failed =
     map (\<lambda>f. f\<lparr>af_notifier := None\<rparr>) (filter (\<lambda>f. \<not> (retryable (af_error f) \<and> af_notifier f \<noteq> None)) failed)"

definition new_run :: "monitor \<Rightarrow> string \<Rightarrow> notice_values \<Rightarrow> announced option \<Rightarrow> 'w alert_failure \<Rightarrow> 'w alert_run" where
  "new_run m alert values change f =
     \<lparr>ar_id = 0, ar_key = mo_key m, ar_monitor = m, ar_name = af_name f, ar_notifier = the (af_notifier f),
      ar_alert = alert, ar_values = values, ar_change = change, ar_error = af_error f, ar_try = 2\<rparr>"

definition queueRetries :: "'w reconciler \<Rightarrow> monitor \<Rightarrow> string \<Rightarrow> notice_values \<Rightarrow> 'w send_error \<Rightarrow> announced option
    \<Rightarrow> 'w operator \<Rightarrow> 'w send_error option \<times> 'w operator" where
  "queueRetries r m alert values failed change s =
     (case rc_retries r of
        None \<Rightarrow> (Some failed, s)
      | Some (tries, _) \<Rightarrow>
          (if tries < 2 then (Some failed, s)
           else let rest = given_up failed;
                    change' = (if rest \<noteq> [] \<or> 1 < length (retried failed) then None else change);
                    s' = fold (\<lambda>f. add_run (mo_key m) (new_run m alert values change' f)) (retried failed) s
             in (if rest = [] then None else Some rest, s')))"

end
