(* ===== verification/Operator_Main.thy ===== *)
theory Operator_Main
  imports Alert_Retries Go_Path
begin

text \<open>
  \<^verbatim>\<open>cmd/main.go\<close>: the start of the operator. From its flags it builds the TLS options of two servers and the
  options of the manager, and makes a series of calls to \<^verbatim>\<open>controller-runtime\<close>; the first that fails ends
  the process. The texts of the flags, logging and the signal handler are left out.
\<close>

section \<open>Flags\<close>

record flags =
  fl_metrics_addr :: string
  fl_probe_addr :: string
  fl_leader_elect :: bool
  fl_secure_metrics :: bool
  fl_webhook_cert_path :: string
  fl_webhook_cert_name :: string
  fl_webhook_cert_key :: string
  fl_metrics_cert_path :: string
  fl_metrics_cert_name :: string
  fl_metrics_cert_key :: string
  fl_enable_http2 :: bool
  fl_concurrent :: int

definition default_flags :: flags where
  "default_flags =
     \<lparr>fl_metrics_addr = ''0'', fl_probe_addr = '':8081'', fl_leader_elect = False, fl_secure_metrics = True,
      fl_webhook_cert_path = [], fl_webhook_cert_name = ''tls.crt'', fl_webhook_cert_key = ''tls.key'',
      fl_metrics_cert_path = [], fl_metrics_cert_name = ''tls.crt'', fl_metrics_cert_key = ''tls.key'',
      fl_enable_http2 = False, fl_concurrent = 10\<rparr>"

section \<open>TLS\<close>

text \<open>A watcher of a certificate is named by its two files.\<close>

type_synonym watcher = "string \<times> string"

record tls_config =
  tc_protos :: "string list"
  tc_certificate :: "watcher option"

type_synonym tls_option = "tls_config \<Rightarrow> tls_config"

definition disableHTTP2 :: tls_option where
  "disableHTTP2 c = c\<lparr>tc_protos := [''http/1.1'']\<rparr>"

definition serve_watched :: "watcher \<Rightarrow> tls_option" where
  "serve_watched w c = c\<lparr>tc_certificate := Some w\<rparr>"

definition tls_opts :: "flags \<Rightarrow> tls_option list" where
  "tls_opts f = (if fl_enable_http2 f then [] else [disableHTTP2])"

definition webhook_watcher :: "flags \<Rightarrow> watcher option" where
  "webhook_watcher f =
     (if fl_webhook_cert_path f = [] then None
      else Some (join_path (fl_webhook_cert_path f) (fl_webhook_cert_name f), join_path (fl_webhook_cert_path f) (fl_webhook_cert_key f)))"

definition metrics_watcher :: "flags \<Rightarrow> watcher option" where
  "metrics_watcher f =
     (if fl_metrics_cert_path f = [] then None
      else Some (join_path (fl_metrics_cert_path f) (fl_metrics_cert_name f), join_path (fl_metrics_cert_path f) (fl_metrics_cert_key f)))"

definition served_by :: "watcher option \<Rightarrow> tls_option list" where
  "served_by w = (case w of None \<Rightarrow> [] | Some w \<Rightarrow> [serve_watched w])"

definition webhook_opts :: "flags \<Rightarrow> tls_option list" where
  "webhook_opts f = tls_opts f @ served_by (webhook_watcher f)"

section \<open>The manager\<close>

record metrics_options =
  mx_addr :: string
  mx_secure :: bool
  mx_filter :: bool
  mx_opts :: "tls_option list"

definition metrics_server_options :: "flags \<Rightarrow> metrics_options" where
  "metrics_server_options f =
     \<lparr>mx_addr = fl_metrics_addr f, mx_secure = fl_secure_metrics f, mx_filter = fl_secure_metrics f,
      mx_opts = tls_opts f @ served_by (metrics_watcher f)\<rparr>"

text \<open>\<open>mn_uncached\<close> are the kinds of objects that the client reads past its cache.\<close>

record manager_options =
  mn_uncached :: "string list"
  mn_metrics :: metrics_options
  mn_webhook :: "tls_option list"
  mn_probe :: string
  mn_leader :: bool
  mn_leader_id :: string

definition ClientOptions :: "string list" where
  "ClientOptions = [''Secret'']"

definition manager_of :: "flags \<Rightarrow> manager_options" where
  "manager_of f =
     \<lparr>mn_uncached = ClientOptions, mn_metrics = metrics_server_options f, mn_webhook = webhook_opts f,
      mn_probe = fl_probe_addr f, mn_leader = fl_leader_elect f, mn_leader_id = ''0ef8453e.licious.app''\<rparr>"

section \<open>The calls\<close>

text \<open>\<open>SetupController\<close> has the tries and delay of retries, and how many monitors are checked at once.\<close>

datatype call =
    NewWatcher watcher
  | NewManager manager_options
  | SetupController "int \<times> duration" int
  | AddWatcher watcher
  | AddHealthz string
  | AddReadyz string
  | StartManager

definition for_watcher :: "(watcher \<Rightarrow> call) \<Rightarrow> watcher option \<Rightarrow> call list" where
  "for_watcher c w = (case w of None \<Rightarrow> [] | Some w \<Rightarrow> [c w])"

definition operator_calls :: "flags \<Rightarrow> call list" where
  "operator_calls f =
     for_watcher NewWatcher (webhook_watcher f) @ for_watcher NewWatcher (metrics_watcher f)
     @ [NewManager (manager_of f), SetupController NewAlertRetries (fl_concurrent f)]
     @ for_watcher AddWatcher (metrics_watcher f) @ for_watcher AddWatcher (webhook_watcher f)
     @ [AddHealthz ''healthz'', AddReadyz ''readyz'', StartManager]"

text \<open>A call returns an error or none; after an error the process exits with status 1.\<close>

fun run_calls :: "(call \<Rightarrow> 'w \<Rightarrow> string option \<times> 'w) \<Rightarrow> call list \<Rightarrow> 'w \<Rightarrow> (call \<times> string) option \<times> 'w" where
  "run_calls do_call [] w = (None, w)"
| "run_calls do_call (c # cs) w =
     (case do_call c w of (Some e, w') \<Rightarrow> (Some (c, e), w') | (None, w') \<Rightarrow> run_calls do_call cs w')"

definition operator_main :: "(call \<Rightarrow> 'w \<Rightarrow> string option \<times> 'w) \<Rightarrow> flags \<Rightarrow> 'w \<Rightarrow> (call \<times> string) option \<times> 'w" where
  "operator_main do_call f = run_calls do_call (operator_calls f)"

section \<open>What is started\<close>

text \<open>The TLS configuration of a server, its options applied in order.\<close>

definition tls_of :: "tls_option list \<Rightarrow> tls_config" where
  "tls_of opts = fold (\<lambda>opt c. opt c) opts \<lparr>tc_protos = [], tc_certificate = None\<rparr>"

text \<open>
  Both servers offer HTTP/2 only if the flag asks for it, each serves its own certificate where it has one,
  and metrics that are served securely are protected.
\<close>

theorem servers_configured:
  "tc_protos (tls_of (mn_webhook (manager_of f))) = (if fl_enable_http2 f then [] else [''http/1.1''])
    \<and> tc_protos (tls_of (mx_opts (mn_metrics (manager_of f)))) = (if fl_enable_http2 f then [] else [''http/1.1''])
    \<and> tc_certificate (tls_of (mn_webhook (manager_of f))) = webhook_watcher f
    \<and> tc_certificate (tls_of (mx_opts (mn_metrics (manager_of f)))) = metrics_watcher f
    \<and> (mx_secure (mn_metrics (manager_of f)) \<longrightarrow> mx_filter (mn_metrics (manager_of f)))"
  by (simp add: tls_of_def manager_of_def webhook_opts_def metrics_server_options_def tls_opts_def served_by_def
      disableHTTP2_def serve_watched_def split: option.split)

lemma run_calls_append:
  "run_calls do_call (as @ bs) w =
    (case run_calls do_call as w of (Some e, w') \<Rightarrow> (Some e, w') | (None, w') \<Rightarrow> run_calls do_call bs w')"
  by (induction as arbitrary: w) (auto split: prod.splits option.splits)

text \<open>Every watcher that is created is added to the manager before the manager starts, and nothing follows the start.\<close>

theorem start_comes_last:
  obtains before where "operator_calls f = before @ [StartManager]" "StartManager \<notin> set before"
    and "\<And>w. NewWatcher w \<in> set before \<longleftrightarrow> AddWatcher w \<in> set before"
proof
  let ?before = "for_watcher NewWatcher (webhook_watcher f) @ for_watcher NewWatcher (metrics_watcher f)
     @ [NewManager (manager_of f), SetupController NewAlertRetries (fl_concurrent f)]
     @ for_watcher AddWatcher (metrics_watcher f) @ for_watcher AddWatcher (webhook_watcher f)
     @ [AddHealthz ''healthz'', AddReadyz ''readyz'']"
  show "operator_calls f = ?before @ [StartManager]" by (simp add: operator_calls_def)
  show "StartManager \<notin> set ?before" by (auto simp: for_watcher_def split: option.splits)
  show "NewWatcher w \<in> set ?before \<longleftrightarrow> AddWatcher w \<in> set ?before" for w
    by (auto simp: for_watcher_def split: option.splits)
qed

end
