(* ===== verification/E2e_Utils.thy ===== *)
theory E2e_Utils
  imports Go_Strings
begin

text \<open>
  \<^verbatim>\<open>test/utils/utils.go\<close>: the commands the end-to-end tests run. \<open>Run\<close> starts nothing until \<open>UseTestKubeconfig\<close>
  has found the kubeconfig of the throwaway cluster, and gives every command that kubeconfig. What the
  tests print is left out.
\<close>

section \<open>The host\<close>

text \<open>
  A world \<open>'w\<close> and what is done with it: the environment, files, the YAML parser (the current context of a
  kubeconfig), the working directory and processes. \<open>oh_exec\<close> gives the combined output and an error, if any.
\<close>

record shell_command =
  sc_args :: "string list"
  sc_dir :: string
  sc_env :: "string list"

record 'w e2e_host =
  oh_getenv :: "string \<Rightarrow> 'w \<Rightarrow> string"
  oh_environ :: "'w \<Rightarrow> string list"
  oh_abs :: "string \<Rightarrow> 'w \<Rightarrow> string result"
  oh_read :: "string \<Rightarrow> 'w \<Rightarrow> string result"
  oh_write :: "string \<Rightarrow> string \<Rightarrow> 'w \<Rightarrow> string option \<times> 'w"
  oh_current_context :: "string \<Rightarrow> string result"
  oh_getwd :: "'w \<Rightarrow> string result"
  oh_chdir :: "string \<Rightarrow> 'w \<Rightarrow> string option \<times> 'w"
  oh_quote :: "string \<Rightarrow> string"
  oh_exec :: "shell_command \<Rightarrow> 'w \<Rightarrow> string \<times> string option \<times> 'w"

text \<open>The package variable \<^verbatim>\<open>testKubeconfig\<close>, empty at the start, and the world.\<close>

record 'w e2e =
  testKubeconfig :: string
  e2e_world :: 'w

section \<open>Choosing the cluster\<close>

definition TestProfile :: string where
  "TestProfile = ''endpoint-monitoring-operator-e2e''"

definition UseTestKubeconfig :: "'w e2e_host \<Rightarrow> 'w e2e \<Rightarrow> string option \<times> 'w e2e" where
  "UseTestKubeconfig os s =
     (let w = e2e_world s; env = oh_getenv os ''E2E_KUBECONFIG'' w
      in if env = []
         then (Some (''E2E_KUBECONFIG is not set; run the e2e tests with make test-e2e, ''
                 @ ''which creates a throwaway minikube cluster for them''), s)
         else
     (case oh_abs os env w of
        Inl e \<Rightarrow> (Some (''resolving the e2e kubeconfig path: '' @ e), s)
      | Inr path \<Rightarrow>
     (case oh_read os path w of
        Inl e \<Rightarrow> (Some (''reading the e2e kubeconfig: '' @ e), s)
      | Inr data \<Rightarrow>
     (case oh_current_context os data of
        Inl e \<Rightarrow> (Some (''parsing the e2e kubeconfig '' @ path @ '': '' @ e), s)
      | Inr context \<Rightarrow>
          if context \<noteq> TestProfile
          then (Some (''the e2e kubeconfig '' @ path @ '' has current-context '' @ oh_quote os context
                  @ '', not the minikube profile '' @ oh_quote os TestProfile), s)
          else (None, s\<lparr>testKubeconfig := path\<rparr>)))))"

section \<open>Running commands\<close>

text \<open>\<^verbatim>\<open>strings.Replace(s, old, "", -1)\<close> for a text \<open>old\<close> that is not empty.\<close>

lemma cut_parts: "cut s sep = Some (a, b) \<Longrightarrow> s = a @ sep @ b"
proof (induction s arbitrary: a)
  case (Cons c cs)
  have "take (length sep) (c # cs) = sep \<Longrightarrow> c # cs = sep @ drop (length sep) (c # cs)"
    by (metis append_take_drop_id)
  with Cons show ?case by (auto simp: has_prefix_def split: if_splits)
qed (simp split: if_splits)

function remove_all :: "string \<Rightarrow> string \<Rightarrow> string" where
  "remove_all old s =
     (if old = [] then s
      else (case cut s old of None \<Rightarrow> s | Some (before, rest) \<Rightarrow> before @ remove_all old rest))"
  by auto

termination by (relation "measure (\<lambda>(old, s). length s)") (auto dest!: cut_parts)

definition GetProjectDir :: "'w e2e_host \<Rightarrow> 'w \<Rightarrow> string result" where
  "GetProjectDir os w = map_sum id (remove_all ''/test/e2e'') (oh_getwd os w)"

text \<open>The environment of a command: in a list with several values of a variable the last one counts.\<close>

definition e2e_env :: "string \<Rightarrow> string list \<Rightarrow> string list" where
  "e2e_env kubeconfig environ =
     environ @ [''GO111MODULE=on'', ''KUBECONFIG='' @ kubeconfig, ''KUBECTL=kubectl'', ''MAKEFLAGS='', ''MFLAGS='',
       ''GNUMAKEFLAGS='', ''MAKEFILES='']"

definition Run :: "'w e2e_host \<Rightarrow> string list \<Rightarrow> 'w e2e \<Rightarrow> (string \<times> string option) \<times> 'w e2e" where
  "Run os args s =
     (let command = join '' '' args
      in if testKubeconfig s = []
         then (([], Some (''refusing to run '' @ command @ '': the e2e test kubeconfig is not set'')), s)
         else
           let dir = (case GetProjectDir os (e2e_world s) of Inl _ \<Rightarrow> [] | Inr d \<Rightarrow> d);
               (_, w1) = oh_chdir os dir (e2e_world s);
               env = e2e_env (testKubeconfig s) (oh_environ os w1);
               (out, err, w2) = oh_exec os \<lparr>sc_args = args, sc_dir = dir, sc_env = env\<rparr> w1
           in ((out, map_option (\<lambda>e. command @ '' failed with error: ('' @ e @ '') '' @ out) err),
               s\<lparr>e2e_world := w2\<rparr>))"

section \<open>What the tests install\<close>

definition prometheus_bundle :: string where
  "prometheus_bundle =
     ''https://github.com/prometheus-operator/prometheus-operator/releases/download/v0.77.1/bundle.yaml''"

definition certmanager_bundle :: string where
  "certmanager_bundle = ''https://github.com/cert-manager/cert-manager/releases/download/v1.16.3/cert-manager.yaml''"

definition run_error :: "'w e2e_host \<Rightarrow> string list \<Rightarrow> 'w e2e \<Rightarrow> string option \<times> 'w e2e" where
  "run_error os args s = (let ((_, err), s1) = Run os args s in (err, s1))"

definition InstallPrometheusOperator :: "'w e2e_host \<Rightarrow> 'w e2e \<Rightarrow> string option \<times> 'w e2e" where
  "InstallPrometheusOperator os = run_error os [''kubectl'', ''create'', ''-f'', prometheus_bundle]"

text \<open>The error of an uninstallation is printed.\<close>

definition UninstallPrometheusOperator :: "'w e2e_host \<Rightarrow> 'w e2e \<Rightarrow> 'w e2e" where
  "UninstallPrometheusOperator os s = snd (Run os [''kubectl'', ''delete'', ''-f'', prometheus_bundle] s)"

definition UninstallCertManager :: "'w e2e_host \<Rightarrow> 'w e2e \<Rightarrow> 'w e2e" where
  "UninstallCertManager os s = snd (Run os [''kubectl'', ''delete'', ''-f'', certmanager_bundle] s)"

definition InstallCertManager :: "'w e2e_host \<Rightarrow> 'w e2e \<Rightarrow> string option \<times> 'w e2e" where
  "InstallCertManager os s =
     (case run_error os [''kubectl'', ''apply'', ''-f'', certmanager_bundle] s of
        (Some e, s1) \<Rightarrow> (Some e, s1)
      | (None, s1) \<Rightarrow>
          run_error os [''kubectl'', ''wait'', ''deployment.apps/cert-manager-webhook'', ''--for'', ''condition=Available'',
            ''--namespace'', ''cert-manager'', ''--timeout'', ''5m''] s1)"

definition GetNonEmptyLines :: "string \<Rightarrow> string list" where
  "GetNonEmptyLines output = filter (\<lambda>l. l \<noteq> []) (split_byte (CHR 0x0A) output)"

definition lists_any :: "string list \<Rightarrow> string \<Rightarrow> bool" where
  "lists_any crds output = list_ex (\<lambda>crd. list_ex (\<lambda>line. contains line crd) (GetNonEmptyLines output)) crds"

definition crds_installed :: "'w e2e_host \<Rightarrow> string list \<Rightarrow> string list \<Rightarrow> 'w e2e \<Rightarrow> bool \<times> 'w e2e" where
  "crds_installed os args crds s =
     (let ((output, err), s1) = Run os args s in (err = None \<and> lists_any crds output, s1))"

definition IsPrometheusCRDsInstalled :: "'w e2e_host \<Rightarrow> 'w e2e \<Rightarrow> bool \<times> 'w e2e" where
  "IsPrometheusCRDsInstalled os =
     crds_installed os [''kubectl'', ''get'', ''crds'', ''-o'', ''custom-columns=NAME:.metadata.name'']
       [''prometheuses.monitoring.coreos.com'', ''prometheusrules.monitoring.coreos.com'', ''prometheusagents.monitoring.coreos.com'']"

definition IsCertManagerCRDsInstalled :: "'w e2e_host \<Rightarrow> 'w e2e \<Rightarrow> bool \<times> 'w e2e" where
  "IsCertManagerCRDsInstalled os =
     crds_installed os [''kubectl'', ''get'', ''crds'']
       [''certificates.cert-manager.io'', ''issuers.cert-manager.io'', ''clusterissuers.cert-manager.io'',
        ''certificaterequests.cert-manager.io'', ''orders.acme.cert-manager.io'', ''challenges.acme.cert-manager.io'']"

definition LoadImageToMinikube :: "'w e2e_host \<Rightarrow> string \<Rightarrow> 'w e2e \<Rightarrow> string option \<times> 'w e2e" where
  "LoadImageToMinikube os name = run_error os [''minikube'', ''-p'', TestProfile, ''image'', ''load'', name]"

section \<open>Uncommenting\<close>

text \<open>
  \<^verbatim>\<open>bufio.Scanner\<close> over lines: without their line break, and a carriage return before it; the empty text after the
  last break is no line. A line that fills the buffer of 64 KiB ends the scan, with an error nobody asks for.
\<close>

definition drop_cr :: "string \<Rightarrow> string" where
  "drop_cr l = trim_suffix l [CHR 0x0D]"

definition scan_lines :: "string \<Rightarrow> string list" where
  "scan_lines text =
     (let ls = split_byte (CHR 0x0A) text; ls = (if last ls = [] then butlast ls else ls)
      in map drop_cr (takeWhile (\<lambda>l. length l < 65536) ls))"

definition UncommentCode :: "'w e2e_host \<Rightarrow> string \<Rightarrow> string \<Rightarrow> string \<Rightarrow> 'w \<Rightarrow> string option \<times> 'w" where
  "UncommentCode os filename target pre w =
     (case oh_read os filename w of
        Inl e \<Rightarrow> (Some e, w)
      | Inr content \<Rightarrow>
     (case cut content target of
        None \<Rightarrow> (Some (''unable to find the code '' @ target @ '' to be uncomment''), w)
      | Some (before, rest) \<Rightarrow>
          let ls = scan_lines target
          in if ls = [] then (None, w)
             else oh_write os filename (before @ join [CHR 0x0A] (map (\<lambda>l. trim_prefix l pre) ls) @ rest) w))"

section \<open>Nothing runs but on the test cluster\<close>

text \<open>The functions of the package that can start a command, as the tests call them in any order.\<close>

datatype e2e_call =
    Use_Test_Kubeconfig
  | Run_Command "string list"
  | Install_Prometheus | Uninstall_Prometheus | Look_For_Prometheus
  | Install_Cert_Manager | Uninstall_Cert_Manager | Look_For_Cert_Manager
  | Load_Image string

fun call_e2e :: "'w e2e_host \<Rightarrow> e2e_call \<Rightarrow> 'w e2e \<Rightarrow> 'w e2e" where
  "call_e2e os Use_Test_Kubeconfig s = snd (UseTestKubeconfig os s)"
| "call_e2e os (Run_Command args) s = snd (Run os args s)"
| "call_e2e os Install_Prometheus s = snd (InstallPrometheusOperator os s)"
| "call_e2e os Uninstall_Prometheus s = UninstallPrometheusOperator os s"
| "call_e2e os Look_For_Prometheus s = snd (IsPrometheusCRDsInstalled os s)"
| "call_e2e os Install_Cert_Manager s = snd (InstallCertManager os s)"
| "call_e2e os Uninstall_Cert_Manager s = UninstallCertManager os s"
| "call_e2e os Look_For_Cert_Manager s = snd (IsCertManagerCRDsInstalled os s)"
| "call_e2e os (Load_Image name) s = snd (LoadImageToMinikube os name s)"

text \<open>The value a process sees for a variable: that of its last entry.\<close>

definition env_value :: "string \<Rightarrow> string list \<Rightarrow> string option" where
  "env_value name env =
     map_option (\<lambda>e. drop (Suc (length name)) e) (List.find (\<lambda>e. has_prefix e (name @ ''='')) (rev env))"

text \<open>A host that writes every process it starts into a log beside the world.\<close>

definition logging :: "'w e2e_host \<Rightarrow> ('w \<times> shell_command list) e2e_host" where
  "logging os =
     \<lparr>oh_getenv = (\<lambda>n w. oh_getenv os n (fst w)), oh_environ = (\<lambda>w. oh_environ os (fst w)),
      oh_abs = (\<lambda>p w. oh_abs os p (fst w)), oh_read = (\<lambda>p w. oh_read os p (fst w)),
      oh_write = (\<lambda>p c w. let (e, w1) = oh_write os p c (fst w) in (e, (w1, snd w))),
      oh_current_context = oh_current_context os, oh_getwd = (\<lambda>w. oh_getwd os (fst w)),
      oh_chdir = (\<lambda>d w. let (e, w1) = oh_chdir os d (fst w) in (e, (w1, snd w))), oh_quote = oh_quote os,
      oh_exec = (\<lambda>c w. let (out, e, w1) = oh_exec os c (fst w) in (out, e, (w1, snd w @ [c])))\<rparr>"

text \<open>A path at which a kubeconfig of the test cluster was read.\<close>

definition test_cluster :: "'w e2e_host \<Rightarrow> string \<Rightarrow> bool" where
  "test_cluster os path \<longleftrightarrow>
     (\<exists>w data. oh_read os path w = Inr data \<and> oh_current_context os data = Inr TestProfile)"

definition guarded :: "'w e2e_host \<Rightarrow> ('w \<times> shell_command list) e2e \<Rightarrow> bool" where
  "guarded os s \<longleftrightarrow>
     (testKubeconfig s = [] \<or> test_cluster os (testKubeconfig s))
     \<and> (\<forall>c \<in> set (snd (e2e_world s)). \<exists>k. k \<noteq> [] \<and> env_value ''KUBECONFIG'' (sc_env c) = Some k \<and> test_cluster os k)"

lemma env_kubeconfig: "env_value ''KUBECONFIG'' (e2e_env k environ) = Some k"
  by (simp add: env_value_def e2e_env_def has_prefix_def)

lemma guarded_use: "guarded os s \<Longrightarrow> guarded os (snd (UseTestKubeconfig (logging os) s))"
  by (auto simp: guarded_def UseTestKubeconfig_def Let_def logging_def test_cluster_def split: sum.split)

lemma guarded_run: "guarded os s \<Longrightarrow> guarded os (snd (Run (logging os) args s))"
  by (auto simp: guarded_def Run_def Let_def logging_def env_kubeconfig split: prod.split)

lemma guarded_run_error: "guarded os s \<Longrightarrow> guarded os (snd (run_error (logging os) args s))"
  using guarded_run [of os s args] by (auto simp: run_error_def split: prod.split)

lemma guarded_crds: "guarded os s \<Longrightarrow> guarded os (snd (crds_installed (logging os) args crds s))"
  using guarded_run [of os s args] by (auto simp: crds_installed_def split: prod.split)

lemma guarded_cert_manager: "guarded os s \<Longrightarrow> guarded os (snd (InstallCertManager (logging os) s))"
proof -
  assume g: "guarded os s"
  let ?r = "run_error (logging os) [''kubectl'', ''apply'', ''-f'', certmanager_bundle] s"
  obtain e s1 where r: "?r = (e, s1)" by force
  have "guarded os s1" using guarded_run_error [OF g, of "[''kubectl'', ''apply'', ''-f'', certmanager_bundle]"] r by simp
  with r show ?thesis by (simp add: InstallCertManager_def guarded_run_error split: option.split)
qed

lemma guarded_call: "guarded os s \<Longrightarrow> guarded os (call_e2e (logging os) c s)"
  by (cases c) (simp_all add: guarded_use guarded_run guarded_run_error guarded_crds guarded_cert_manager
      InstallPrometheusOperator_def UninstallPrometheusOperator_def IsPrometheusCRDsInstalled_def
      UninstallCertManager_def IsCertManagerCRDsInstalled_def LoadImageToMinikube_def)

text \<open>
  From the start of the tests and whatever they call, every process they start sees as its kubeconfig a
  file in which the throwaway cluster was found to be the current one.
\<close>

theorem commands_stay_on_test_cluster:
  assumes "c \<in> set (snd (e2e_world (fold (call_e2e (logging os)) calls \<lparr>testKubeconfig = [], e2e_world = (w, [])\<rparr>)))"
  shows "\<exists>k. k \<noteq> [] \<and> env_value ''KUBECONFIG'' (sc_env c) = Some k \<and> test_cluster os k"
proof -
  have "guarded os s \<Longrightarrow> guarded os (fold (call_e2e (logging os)) calls s)" for s
    by (induction calls arbitrary: s) (simp_all add: guarded_call)
  from this [of "\<lparr>testKubeconfig = [], e2e_world = (w, [])\<rparr>"] assms show ?thesis by (auto simp: guarded_def)
qed

section \<open>What uncommenting does\<close>

definition plain_line :: "string \<Rightarrow> string \<Rightarrow> bool" where
  "plain_line pre l \<longleftrightarrow> CHR 0x0A \<notin> set l \<and> \<not> has_suffix (pre @ l) [CHR 0x0D] \<and> length (pre @ l) < 65536"

lemma scan_lines_join:
  assumes "ls \<noteq> []" "last ls \<noteq> []" "\<forall>l \<in> set ls. CHR 0x0A \<notin> set l \<and> \<not> has_suffix l [CHR 0x0D] \<and> length l < 65536"
  shows "scan_lines (join nl ls) = ls"
proof -
  have "split_byte (CHR 0x0A) (join nl ls) = ls" using assms(1,3) by (intro split_byte_join) auto
  moreover have "takeWhile (\<lambda>l. length l < 65536) ls = ls" using assms(3) by (simp add: takeWhile_eq_all_conv)
  moreover have "map drop_cr ls = ls" using assms(3) by (intro map_idI) (simp add: drop_cr_def trim_suffix_def)
  ultimately show ?thesis using assms(2) unfolding scan_lines_def Let_def by metis
qed

text \<open>Lines that are commented out in one block, as a file has them, come back without the comments, and nothing else changes.\<close>

theorem UncommentCode_uncomments:
  assumes "ls \<noteq> []" "pre \<noteq> []" "CHR 0x0A \<notin> set pre" "\<forall>l \<in> set ls. plain_line pre l"
    and "oh_read os filename w = Inr content" "cut content (join nl (map ((@) pre) ls)) = Some (before, rest)"
  shows "content = before @ join nl (map ((@) pre) ls) @ rest"
    and "UncommentCode os filename (join nl (map ((@) pre) ls)) pre w = oh_write os filename (before @ join nl ls @ rest) w"
proof -
  show "content = before @ join nl (map ((@) pre) ls) @ rest" using assms(6) by (rule cut_parts)
  have "scan_lines (join nl (map ((@) pre) ls)) = map ((@) pre) ls"
    using assms(1-4) by (intro scan_lines_join) (auto simp: plain_line_def last_map)
  moreover have "map (\<lambda>l. trim_prefix l pre) (map ((@) pre) ls) = ls"
    by (simp add: o_def trim_prefix_def has_prefix_def)
  ultimately show "UncommentCode os filename (join nl (map ((@) pre) ls)) pre w = oh_write os filename (before @ join nl ls @ rest) w"
    using assms(1,5,6) by (simp add: UncommentCode_def Let_def)
qed

text \<open>A line break at the end of the target is lost.\<close>

lemma last_break_is_lost: "scan_lines (''#a'' @ nl) = [''#a'']"
  by (simp add: scan_lines_def drop_cr_def trim_suffix_def has_suffix_def has_prefix_def)

end
