(* ===== verification/Monitor_Reconcile.thy ===== *)
theory Monitor_Reconcile
  imports Alert_Retries
begin

text \<open>
  \<^verbatim>\<open>internal/controller/endpointmonitor_controller.go\<close>: one call of \<^verbatim>\<open>Reconcile\<close> for a monitor, from the
  cached read to the time of the next check. A retry queued by the call is stepped after it.
\<close>

definition setupRetry :: duration where
  "setupRetry = 30 * second"

definition cannotCheck :: "'w reconciler \<Rightarrow> monitor \<Rightarrow> string \<Rightarrow> 'w operator \<Rightarrow> 'w operator" where
  "cannotCheck r m err s = s\<lparr>op_world := kb_event (rc_kube r) m ''CannotCheck'' err (op_world s)\<rparr>"

definition setStatusPeriod :: "'w reconciler \<Rightarrow> notice_values \<Rightarrow> time \<Rightarrow> time \<Rightarrow> notice_values" where
  "setStatusPeriod r values since until =
     (if is_zero since \<or> is_zero until \<or> until < since
      then values\<lparr>nv_last_change := [], nv_status_time := []\<rparr>
      else values\<lparr>nv_last_change := rc_time_text r since,
                   nv_status_time := rc_duration_text r (dur_round (time_sub until since) second)\<rparr>)"

section \<open>Whether a check is due\<close>

definition check_interval :: "monitor \<Rightarrow> duration" where
  "check_interval m = wrap64 (sp_interval (mo_spec m) * second)"

definition next_check :: "monitor \<Rightarrow> time" where
  "next_check m = ms_checked (mo_status m) + check_interval m"

definition spec_changed :: "monitor \<Rightarrow> bool" where
  "spec_changed m \<longleftrightarrow> ms_generation (mo_status m) \<noteq> 0 \<and> ms_generation (mo_status m) \<noteq> mo_generation m"

definition is_due :: "monitor \<Rightarrow> time \<Rightarrow> bool" where
  "is_due m now \<longleftrightarrow> is_zero (ms_checked (mo_status m)) \<or> \<not> now < next_check m \<or> spec_changed m"

section \<open>What a check writes and says\<close>

text \<open>The status last announced and when it began.\<close>

definition announced_of :: "monitor_status \<Rightarrow> string \<times> time" where
  "announced_of st =
     (case ms_notified st of
        Some status \<Rightarrow> (status, ms_notified_since st)
      | None \<Rightarrow> (ms_status st, ms_since st))"

definition status_text :: "check_result \<Rightarrow> string" where
  "status_text res = (if cr_success res then ''success'' else ''failure'')"

definition check_values :: "'w reconciler \<Rightarrow> monitor \<Rightarrow> 'w driver \<Rightarrow> check_result \<Rightarrow> time \<Rightarrow> notice_values" where
  "check_values r m d res now =
     (setStatusPeriod r
       \<lparr>nv_status = ''failure'', nv_endpoint = rc_display r (dv_endpoint d), nv_driver = dv_type d,
        nv_healthy = ''unhealthy'', nv_name = snd (mo_key m), nv_response = rc_duration_text r (cr_time res),
        nv_response_ms = go_div (cr_time res) 1000000, nv_last_status = ms_status (mo_status m),
        nv_last_checked = [], nv_last_change = [], nv_current_time = rc_time_text r now, nv_status_time = [],
        nv_message = cr_message res, nv_namespace = fst (mo_key m), nv_alert_message = []\<rparr>
       (ms_since (mo_status m)) now)
       \<lparr>nv_status := status_text res, nv_healthy := (if cr_success res then ''healthy'' else ''unhealthy'')\<rparr>"

definition check_status :: "monitor \<Rightarrow> string \<Rightarrow> time \<Rightarrow> monitor_status" where
  "check_status m status now =
     (let st = mo_status m; (notified, since) = announced_of st
      in st\<lparr>ms_notified := Some notified, ms_notified_since := since,
            ms_status := status,
            ms_since := (if ms_status st \<noteq> status then now else ms_since st),
            ms_checked := now, ms_generation := mo_generation m\<rparr>)"

definition alert_message :: "notice_values \<Rightarrow> string" where
  "alert_message v =
     nv_driver v @ '' monitor for '' @ nv_endpoint v @ '' is '' @ nv_healthy v @ nl @ nv_message v"

definition change_values :: "'w reconciler \<Rightarrow> notice_values \<Rightarrow> string \<Rightarrow> time \<Rightarrow> time \<Rightarrow> notice_values" where
  "change_values r values notified since began = setStatusPeriod r (values\<lparr>nv_last_status := notified\<rparr>) since began"

section \<open>Sending\<close>

text \<open>Sends an alert; its failures are retried or reported. True if every notifier took it.\<close>

definition send_alert :: "'w reconciler \<Rightarrow> 'w named_notifier list \<Rightarrow> monitor \<Rightarrow> string \<Rightarrow> notice_values \<Rightarrow> announced option
    \<Rightarrow> 'w operator \<Rightarrow> bool \<times> 'w operator" where
  "send_alert r ns m alert values change s =
     (case composite_send ns alert values (op_world s) of
        (None, w) \<Rightarrow> (True, s\<lparr>op_world := w\<rparr>)
      | (Some failed, w) \<Rightarrow>
          (case queueRetries r m alert values failed change (s\<lparr>op_world := w\<rparr>) of
             (None, s') \<Rightarrow> (False, s')
           | (Some rest, s') \<Rightarrow> (False, s'\<lparr>op_world := alertFailed r m alert rest (op_world s')\<rparr>)))"

definition update_text :: "update_error \<Rightarrow> string" where
  "update_text e = (case e of Conflict \<Rightarrow> ''conflict'' | UpdateFailed t \<Rightarrow> t)"

text \<open>The change alert, when the status is not the one last announced.\<close>

definition announce_change :: "'w reconciler \<Rightarrow> 'w named_notifier list \<Rightarrow> monitor \<Rightarrow> notice_values \<Rightarrow> string \<Rightarrow> time
    \<Rightarrow> 'w operator \<Rightarrow> update_error option \<times> 'w operator" where
  "announce_change r ns m values notified since s =
     (let status = nv_status values; began = ms_since (mo_status m)
      in if notified = status then (None, s)
         else case send_alert r ns m ''change'' (change_values r values notified since began)
                (Some \<lparr>an_status = status, an_since = began\<rparr>) s of
           (False, s') \<Rightarrow> (None, s')
         | (True, s') \<Rightarrow>
             (case kb_update (rc_kube r) (mark_status \<lparr>an_status = status, an_since = began\<rparr> m) (op_world s') of
                (err, _, w) \<Rightarrow> (err, s'\<lparr>op_world := w\<rparr>)))"

text \<open>The status is saved before anyone is told: the monitor as stored, the values of the notice, and the state after the alert.\<close>

definition save_and_alert :: "'w reconciler \<Rightarrow> monitor \<Rightarrow> 'w named_notifier list \<Rightarrow> notice_values \<Rightarrow> time
    \<Rightarrow> 'w operator \<Rightarrow> (update_error \<times> 'w operator) + (monitor \<times> notice_values \<times> 'w operator)" where
  "save_and_alert r m ns values now s =
     (case kb_update (rc_kube r) (m\<lparr>mo_status := check_status m (nv_status values) now\<rparr>) (op_world s) of
        (Some e, _, w) \<Rightarrow> Inl (e, s\<lparr>op_world := w\<rparr>)
      | (None, m1, w) \<Rightarrow>
          (let values1 = values\<lparr>nv_alert_message := alert_message values\<rparr>
           in Inr (m1, values1, snd (send_alert r ns m1 (nv_status values1) values1 None (s\<lparr>op_world := w\<rparr>)))))"

text \<open>The result of a call: the time until the next one (0: none) or an error, which is tried again.\<close>

definition report_check :: "'w reconciler \<Rightarrow> duration \<Rightarrow> monitor \<Rightarrow> 'w named_notifier list \<Rightarrow> notice_values \<Rightarrow> time
    \<Rightarrow> 'w operator \<Rightarrow> duration result \<times> 'w operator" where
  "report_check r interval m ns values now s =
     (let (notified, since) = announced_of (mo_status m) in
      case save_and_alert r m ns values now s of
        Inl (e, s1) \<Rightarrow> (Inl (update_text e), s1)
      | Inr (m1, values1, s1) \<Rightarrow>
          (case announce_change r ns m1 values1 notified since s1 of
             (Some e, s2) \<Rightarrow> (Inl (update_text e), s2)
           | (None, s2) \<Rightarrow> (Inr interval, s2)))"

definition check_monitor :: "'w reconciler \<Rightarrow> duration \<Rightarrow> monitor \<Rightarrow> time \<Rightarrow> 'w operator \<Rightarrow> duration result \<times> 'w operator" where
  "check_monitor r interval m now s =
     (let retry = min interval setupRetry in
      case rc_new_driver r m (op_world s) of
        Inl e \<Rightarrow> (Inr retry, cannotCheck r m (''cannot create driver: '' @ e) s)
      | Inr d \<Rightarrow>
          (case rc_new_notifier r (sp_notify (mo_spec m)) of
             Inl e \<Rightarrow> (Inr retry, cannotCheck r m e s)
           | Inr ns \<Rightarrow>
               (case dv_check d (op_world s) of
                  (Inl e, w) \<Rightarrow> (Inl e, s\<lparr>op_world := w\<rparr>)
                | (Inr res, w) \<Rightarrow>
                    report_check r interval m ns (check_values r m d res now) now (s\<lparr>op_world := w\<rparr>))))"

section \<open>Reconcile\<close>

definition interval_error :: "int \<Rightarrow> string" where
  "interval_error n = ''checkInterval must be between 1 and '' @ itoa MaxCheckInterval @ '', got '' @ itoa n"

definition Reconcile :: "'w reconciler \<Rightarrow> (nat \<Rightarrow> nat) \<Rightarrow> name \<Rightarrow> 'w operator \<Rightarrow> duration result \<times> 'w operator" where
  "Reconcile r late nn s =
     (case kb_get (rc_kube r) nn (op_world s) of
        Inl NotFound \<Rightarrow> (Inr 0, snd (Stop r late nn s))
      | Inl (GetFailed e) \<Rightarrow> (Inl e, s)
      | Inr m \<Rightarrow>
          (if sp_interval (mo_spec m) < 1 \<or> MaxCheckInterval < sp_interval (mo_spec m)
           then (Inr 0, cannotCheck r m (interval_error (sp_interval (mo_spec m))) s)
           else let now = kb_now (rc_kube r) (op_world s) in
             if \<not> is_due m now then (Inr (time_sub (next_check m) now), s)
             else case Stop r late nn s of
               (False, s1) \<Rightarrow> check_monitor r (check_interval m) m now s1
             | (True, s1) \<Rightarrow>
                 (case reader r nn (op_world s1) of
                    Inl NotFound \<Rightarrow> (Inr 0, s1)
                  | Inl (GetFailed e) \<Rightarrow> (Inl e, s1)
                  | Inr m' \<Rightarrow> check_monitor r (check_interval m) m' now s1)))"

end
