(* ===== verification/Monitor_Properties.thy ===== *)
theory Monitor_Properties
  imports Monitor_Reconcile
begin

text \<open>
  What the operator promises about alerts: a change of status stays owed until every notifier has taken
  its alert, no alert goes out about a status that was not saved, failed alerts are retried a bounded
  number of times and end in a delivery or a report, and a monitor that exists is always checked again.
\<close>

section \<open>The API server\<close>

text \<open>RFC 3339 keeps whole seconds.\<close>

definition whole :: "time \<Rightarrow> time" where
  "whole t = t - t mod nsec"

definition stored_status :: "monitor_status \<Rightarrow> monitor_status" where
  "stored_status st =
     st\<lparr>ms_checked := whole (ms_checked st), ms_since := whole (ms_since st),
        ms_notified_since := whole (ms_notified_since st)\<rparr>"

lemma whole_whole [simp]: "whole (whole t) = whole t"
  by (simp add: whole_def minus_mod_eq_mult_div)

lemma stored_stored [simp]: "stored_status (stored_status st) = stored_status st"
  by (simp add: stored_status_def)

text \<open>
  What the controller relies on: an accepted update is what a read finds from then on and what it gives
  back; events and notifiers leave the monitors alone. \<open>view\<close> is the content of the server in a world.
\<close>

definition api_contract :: "'w reconciler \<Rightarrow> ('w \<Rightarrow> name \<Rightarrow> monitor option) \<Rightarrow> bool" where
  "api_contract r view \<longleftrightarrow>
     (\<forall>m w m' w'. kb_update (rc_kube r) m w = (None, m', w') \<longrightarrow>
        view w' (mo_key m) = Some m' \<and> mo_key m' = mo_key m \<and> mo_status m' = stored_status (mo_status m))
     \<and> (\<forall>m reason text w. view (kb_event (rc_kube r) m reason text w) = view w)"

definition notifiers_quiet :: "'w named_notifier list \<Rightarrow> ('w \<Rightarrow> name \<Rightarrow> monitor option) \<Rightarrow> bool" where
  "notifiers_quiet ns view \<longleftrightarrow> (\<forall>(name, n) \<in> set ns. \<forall>status vals w. view (snd (n status vals w)) = view w)"

lemma send_each_view: "notifiers_quiet ns view \<Longrightarrow> view (snd (send_each ns status vals w)) = view w"
proof (induction ns arbitrary: w)
  case (Cons x ns)
  obtain name n where x: "x = (name, n)" by fastforce
  have "view (snd (n status vals w)) = view w" using Cons.prems x by (auto simp: notifiers_quiet_def)
  moreover have "notifiers_quiet ns view" using Cons.prems by (simp add: notifiers_quiet_def)
  ultimately show ?case using Cons.IH x by (auto split: prod.splits option.splits) (metis snd_conv)+
qed simp

lemma composite_view: "notifiers_quiet ns view \<Longrightarrow> view (snd (composite_send ns status vals w)) = view w"
  using send_each_view [of ns view status vals w] by (auto simp: composite_send_def split: prod.splits)

lemma add_run_world [simp]: "op_world (add_run nn run s) = op_world s"
  by (simp add: add_run_def)

lemma add_runs_world [simp]: "op_world (fold (\<lambda>f. add_run nn (g f)) fs s) = op_world s"
  by (induction fs arbitrary: s) simp_all

lemma queueRetries_world: "op_world (snd (queueRetries r m alert vals failed change s)) = op_world s"
  by (simp add: queueRetries_def Let_def split: option.splits)

lemma send_alert_view:
  assumes "api_contract r view" "notifiers_quiet ns view"
  shows "view (op_world (snd (send_alert r ns m alert vals change s))) = view (op_world s)"
proof (cases "composite_send ns alert vals (op_world s)")
  case (Pair failed w)
  have v: "view w = view (op_world s)" using composite_view [OF assms(2), of alert vals "op_world s"] Pair by simp
  show ?thesis
  proof (cases failed)
    case None
    with Pair v show ?thesis by (simp add: send_alert_def)
  next
    case (Some fs)
    obtain rest s' where q: "queueRetries r m alert vals fs change (s\<lparr>op_world := w\<rparr>) = (rest, s')" by fastforce
    then have "op_world s' = w" using queueRetries_world [of r m alert vals fs change "s\<lparr>op_world := w\<rparr>"] by simp
    with Pair Some q v assms(1) show ?thesis
      by (cases rest) (simp_all add: send_alert_def alertFailed_def api_contract_def)
  qed
qed

section \<open>The ledger of announcements\<close>

record ledger =
  lg_status :: string
  lg_since :: time
  lg_notified :: string
  lg_notified_since :: time

definition ledger_of :: "monitor_status \<Rightarrow> ledger" where
  "ledger_of st =
     \<lparr>lg_status = ms_status st, lg_since = whole (ms_since st),
      lg_notified = fst (announced_of st), lg_notified_since = whole (snd (announced_of st))\<rparr>"

text \<open>A check moves the status; the announcement follows only when it was delivered.\<close>

definition ledger_check :: "ledger \<Rightarrow> string \<Rightarrow> time \<Rightarrow> ledger" where
  "ledger_check l status now = (if status = lg_status l then l else l\<lparr>lg_status := status, lg_since := now\<rparr>)"

definition ledger_announce :: "ledger \<Rightarrow> ledger" where
  "ledger_announce l = l\<lparr>lg_notified := lg_status l, lg_notified_since := lg_since l\<rparr>"

text \<open>Whether a check sends the change alert, and whether every notifier takes it.\<close>

definition change_due :: "monitor \<Rightarrow> notice_values \<Rightarrow> bool" where
  "change_due m vals \<longleftrightarrow> fst (announced_of (mo_status m)) \<noteq> nv_status vals"

definition change_taken :: "'w reconciler \<Rightarrow> monitor \<Rightarrow> 'w named_notifier list \<Rightarrow> notice_values \<Rightarrow> time \<Rightarrow> 'w operator \<Rightarrow> bool" where
  "change_taken r m ns vals now s =
     (case save_and_alert r m ns vals now s of
        Inl _ \<Rightarrow> False
      | Inr (m1, vals1, s1) \<Rightarrow>
          fst (composite_send ns ''change''
            (change_values r vals1 (fst (announced_of (mo_status m))) (snd (announced_of (mo_status m)))
              (ms_since (mo_status m1))) (op_world s1)) = None)"

lemma send_alert_taken:
  "fst (send_alert r ns m alert vals change s) \<longleftrightarrow> fst (composite_send ns alert vals (op_world s)) = None"
  by (auto simp: send_alert_def split: prod.splits option.splits)

lemma ledger_of_stored: "ledger_of (stored_status st) = ledger_of st"
  by (simp add: ledger_of_def stored_status_def announced_of_def split: option.splits)

lemma ledger_of_check:
  "ledger_of (check_status m status now) = ledger_check (ledger_of (mo_status m)) status (whole now)"
  by (auto simp: ledger_of_def check_status_def ledger_check_def announced_of_def Let_def split: option.splits)

lemma ledger_of_mark:
  "an_status change = ms_status (mo_status m) \<Longrightarrow>
    ledger_of (mo_status (mark_status change m)) = ledger_announce (ledger_of (mo_status m))"
  by (simp add: ledger_of_def mark_status_def ledger_announce_def announced_of_def)

lemma save_and_alert_stored:
  assumes "api_contract r view" "notifiers_quiet ns view" "save_and_alert r m ns vals now s = Inr (m1, vals1, s1)"
  shows "view (op_world s1) (mo_key m) = Some m1" "mo_key m1 = mo_key m"
    "mo_status m1 = stored_status (check_status m (nv_status vals) now)" "nv_status vals1 = nv_status vals"
proof -
  obtain err mm w where u: "kb_update (rc_kube r) (m\<lparr>mo_status := check_status m (nv_status vals) now\<rparr>) (op_world s) = (err, mm, w)"
    by (metis prod_cases3)
  with assms(3) have e: "err = None" "mm = m1"
    and s1: "s1 = snd (send_alert r ns m1 (nv_status vals1) vals1 None (s\<lparr>op_world := w\<rparr>))"
    and v1: "vals1 = vals\<lparr>nv_alert_message := alert_message vals\<rparr>"
    by (auto simp: save_and_alert_def Let_def split: option.splits)
  from u e assms(1) have c: "view w (mo_key m) = Some m1 \<and> mo_key m1 = mo_key m
      \<and> mo_status m1 = stored_status (check_status m (nv_status vals) now)"
    unfolding api_contract_def by fastforce
  then show "mo_key m1 = mo_key m" "mo_status m1 = stored_status (check_status m (nv_status vals) now)" by blast+
  show "view (op_world s1) (mo_key m) = Some m1"
    using c s1 send_alert_view [OF assms(1,2)] by simp
  show "nv_status vals1 = nv_status vals" by (simp add: v1)
qed

text \<open>
  C26: a change of status is announced once and stays owed until then. A check that ends well leaves
  in the API server the status it found, since when, and what was announced: the new status if its
  change alert was due and every notifier took it, and what was announced before otherwise. When the
  status is the one last announced, no change alert is sent at all.
\<close>

theorem change_stays_owed:
  assumes "api_contract r view" "notifiers_quiet ns view"
    and "report_check r interval m ns vals now s = (Inr d, s')"
  shows "\<exists>m'. view (op_world s') (mo_key m) = Some m'
    \<and> ledger_of (mo_status m') =
        (let l = ledger_check (ledger_of (mo_status m)) (nv_status vals) (whole now)
         in if change_due m vals \<and> change_taken r m ns vals now s then ledger_announce l else l)
    \<and> (\<not> change_due m vals \<longrightarrow> (\<exists>x y. save_and_alert r m ns vals now s = Inr (x, y, s')))"
proof -
  obtain notified since where a: "announced_of (mo_status m) = (notified, since)" by fastforce
  from assms(3) a obtain m1 vals1 s1 where sa: "save_and_alert r m ns vals now s = Inr (m1, vals1, s1)"
    by (auto simp: report_check_def split: sum.splits prod.splits)
  note st = save_and_alert_stored [OF assms(1,2) sa]
  let ?l = "ledger_check (ledger_of (mo_status m)) (nv_status vals) (whole now)"
  have l1: "ledger_of (mo_status m1) = ?l" by (simp add: st(3) ledger_of_stored ledger_of_check)
  have ac: "announce_change r ns m1 vals1 notified since s1 = (None, s')"
    using assms(3) a sa by (auto simp: report_check_def split: option.splits prod.splits)
  show ?thesis
  proof (cases "change_due m vals")
    case False
    then have "s' = s1" using ac a st(4) by (simp add: announce_change_def change_due_def Let_def)
    with False l1 st(1) sa show ?thesis by auto
  next
    case True
    let ?cv = "change_values r vals1 notified since (ms_since (mo_status m1))"
    let ?ch = "\<lparr>an_status = nv_status vals1, an_since = ms_since (mo_status m1)\<rparr>"
    obtain ok s2 where sd: "send_alert r ns m1 ''change'' ?cv (Some ?ch) s1 = (ok, s2)" by fastforce
    have v2: "view (op_world s2) = view (op_world s1)"
      using send_alert_view [OF assms(1,2), of m1 "''change''" ?cv "Some ?ch" s1] sd by simp
    have t: "change_taken r m ns vals now s \<longleftrightarrow> ok"
      using send_alert_taken [of r ns m1 "''change''" ?cv "Some ?ch" s1] sd a sa by (simp add: change_taken_def)
    show ?thesis
    proof (cases ok)
      case False
      then have "s' = s2" using ac True a st(4) sd by (simp add: announce_change_def change_due_def Let_def)
      with False t v2 st(1) l1 True show ?thesis by simp
    next
      case ok: True
      obtain err mm w where u: "kb_update (rc_kube r) (mark_status ?ch m1) (op_world s2) = (err, mm, w)"
        by (metis prod_cases3)
      then have s': "err = None" "s' = s2\<lparr>op_world := w\<rparr>"
        using ac True a st(4) sd ok by (auto simp: announce_change_def change_due_def Let_def)
      with u assms(1) have "view w (mo_key (mark_status ?ch m1)) = Some mm
          \<and> mo_status mm = stored_status (mo_status (mark_status ?ch m1))"
        unfolding api_contract_def by fastforce
      moreover have "mo_key (mark_status ?ch m1) = mo_key m" by (simp add: mark_status_def st(2))
      moreover have "an_status ?ch = ms_status (mo_status m1)"
        by (simp add: st(3,4) stored_status_def check_status_def Let_def split: prod.splits)
      ultimately show ?thesis
        using ok t True s' l1 ledger_of_mark [of ?ch m1] by (auto simp: ledger_of_stored)
    qed
  qed
qed

end
