(* ===== verification/Retry_Properties.thy ===== *)
theory Retry_Properties
  imports Monitor_Properties
begin

text \<open>
  What becomes of an alert that failed, and the invariant of the retries over every sequence of
  reconciles, retries and outside events.
\<close>

section \<open>A retry ends\<close>

lemma try_again_going:
  assumes "try_again r run s = (Going run', s')" "rc_retries r = Some (tries, delay)"
  shows "ar_try run < tries" "ar_try run' = ar_try run + 1" "ar_key run' = ar_key run" "ar_id run' = ar_id run"
    "ar_name run' = ar_name run" "ar_alert run' = ar_alert run" "ar_notifier run' = ar_notifier run"
    "ar_values run' = ar_values run" "ar_change run' = ar_change run"
  using assms
  by (auto simp: try_again_def Let_def refreshed_def split: sum.splits get_error.splits prod.splits option.splits if_splits)

lemma try_again_sent:
  assumes "try_again r run s = (Sent, s')" "rc_retries r = Some (tries, delay)"
  shows "\<exists>w w'. ar_notifier run (ar_alert run) (ar_values run) w = (None, w')"
  using assms
  by (auto simp: try_again_def Let_def refreshed_def split: sum.splits get_error.splits prod.splits option.splits if_splits)

lemma try_again_gone:
  assumes "try_again r run s = (Gone, s')" "rc_retries r = Some (tries, delay)"
  shows "\<exists>w. reader r (ar_key run) w = Inl NotFound"
  using assms
  by (auto simp: try_again_def Let_def refreshed_def split: sum.splits get_error.splits prod.splits option.splits if_splits)

definition reported :: "'w reconciler \<Rightarrow> 'w alert_run \<Rightarrow> 'w operator \<Rightarrow> bool" where
  "reported r run s \<longleftrightarrow>
     (\<exists>m e w. op_world s = alertFailed r m (ar_alert run)
        [\<lparr>af_name = ar_name run, af_error = e, af_notifier = None\<rparr>] w)"

lemma try_again_reported:
  assumes "try_again r run s = (Reported, s')" "rc_retries r = Some (tries, delay)"
  shows "reported r run s'"
  using assms
  by (auto simp: try_again_def Let_def refreshed_def reported_def report_def
      split: sum.splits get_error.splits prod.splits option.splits if_splits) (intro exI, rule refl)+

definition ended_well :: "'w reconciler \<Rightarrow> 'w alert_run \<Rightarrow> 'w run_end \<times> 'w operator \<Rightarrow> bool" where
  "ended_well r run x \<longleftrightarrow>
     (case x of
        (Going _, _) \<Rightarrow> False
      | (Sent, _) \<Rightarrow> \<exists>w w'. ar_notifier run (ar_alert run) (ar_values run) w = (None, w')
      | (Gone, _) \<Rightarrow> \<exists>w. reader r (ar_key run) w = Inl NotFound
      | (Reported, s') \<Rightarrow> reported r run s')"

lemma ended_well_cong:
  "ar_key run' = ar_key run \<Longrightarrow> ar_name run' = ar_name run \<Longrightarrow> ar_alert run' = ar_alert run \<Longrightarrow>
    ar_notifier run' = ar_notifier run \<Longrightarrow> ar_values run' = ar_values run \<Longrightarrow>
    ended_well r run' x = ended_well r run x"
  by (simp add: ended_well_def reported_def split: prod.splits run_end.splits)

lemma stopped_run_ended: "ended_well r run (stopped_run r run s)"
  by (auto simp: stopped_run_def ended_well_def reported_def report_def refreshed_def
      split: sum.splits get_error.splits)

lemma finish_run_ended:
  assumes "rc_retries r = Some (tries, delay)"
  shows "ended_well r run (finish_run r late run s)"
proof (induction late arbitrary: run s)
  case 0
  show ?case by (simp add: stopped_run_ended)
next
  case (Suc late)
  obtain e s' where t: "try_again r run s = (e, s')" by fastforce
  show ?case
  proof (cases e)
    case (Going run')
    with t try_again_going [OF _ assms, of run s run' s'] Suc.IH [of run' s'] show ?thesis
      by (simp add: ended_well_cong [of run' run])
  qed (use t try_again_sent [OF _ assms] try_again_gone [OF _ assms] try_again_reported [OF _ assms] in
      \<open>auto simp: ended_well_def\<close>)
qed

lemma finish_run_bounded:
  assumes "rc_retries r = Some (tries, delay)" "ar_try run \<le> tries" "nat (tries - ar_try run) < late"
    "nat (tries - ar_try run) < late'"
  shows "finish_run r late run s = finish_run r late' run s"
  using assms(2-)
proof (induction late arbitrary: run s late')
  case (Suc late)
  then obtain k where k: "late' = Suc k" by (cases late') auto
  obtain e s' where t: "try_again r run s = (e, s')" by fastforce
  show ?case
  proof (cases e)
    case (Going run')
    note g = try_again_going [OF t [unfolded Going] assms(1)]
    have "finish_run r late run' s' = finish_run r k run' s'"
      using Suc.prems k g by (intro Suc.IH) linarith+
    with k t Going show ?thesis by simp
  qed (use k t in auto)
qed simp

lemma remove_run_gone: "run \<in> set (pending_of (remove_run nn i s) nn) \<Longrightarrow> ar_id run \<noteq> i"
  by (auto simp: remove_run_def Let_def get_or_def map_of_put map_of_del split: if_splits)

text \<open>
  C27: an alert that failed is not lost, and its retries end. A goroutine that retries it makes at most
  as many further tries as the limit leaves, however late it is stopped; it ends with the alert
  taken, its monitor deleted, or an event that names the alert and the notifier; and then it is no
  longer pending.
\<close>

theorem failed_alert_is_settled:
  assumes "rc_retries r = Some (tries, delay)" "ar_try run \<le> tries"
  shows "ended_well r run (finish_run r late run s)
    \<and> finish_run r (late + nat (tries - ar_try run + 1)) run s = finish_run r (nat (tries - ar_try run + 1)) run s
    \<and> (\<forall>x \<in> set (pending_of (retryAlert r late run s) (ar_key run)). ar_id x \<noteq> ar_id run)"
proof (intro conjI)
  show e: "ended_well r run (finish_run r late run s)" by (rule finish_run_ended [OF assms(1)])
  show "finish_run r (late + nat (tries - ar_try run + 1)) run s = finish_run r (nat (tries - ar_try run + 1)) run s"
    using assms by (intro finish_run_bounded) (auto simp: nat_add_distrib)
  obtain x s' where f: "finish_run r late run s = (x, s')" by fastforce
  with e have "\<not> (\<exists>run'. x = Going run')" by (auto simp: ended_well_def)
  then have "retryAlert r late run s = remove_run (ar_key run) (ar_id run) s'"
    using f by (cases x) (auto simp: retryAlert_def settle_def)
  then show "\<forall>x \<in> set (pending_of (retryAlert r late run s) (ar_key run)). ar_id x \<noteq> ar_id run"
    using remove_run_gone by metis
qed

section \<open>Nothing is dropped when alerts are queued\<close>

lemma pending_add_run:
  "pending_of (add_run nn run s) nn' = (if nn' = nn then pending_of s nn @ [run\<lparr>ar_id := op_next s\<rparr>] else pending_of s nn')"
  by (simp add: add_run_def get_or_def map_of_put)

lemma add_run_next [simp]: "op_next (add_run nn run s) = Suc (op_next s)"
  by (simp add: add_run_def)

lemma pending_add_runs:
  "pending_of (fold (\<lambda>f. add_run nn (g f)) fs s) nn' =
     (if nn' = nn then pending_of s nn @ map (\<lambda>(i, f). (g f)\<lparr>ar_id := i\<rparr>) (zip [op_next s..<op_next s + length fs] fs)
      else pending_of s nn')"
proof (induction fs arbitrary: s)
  case (Cons f fs)
  have "[op_next s..<op_next s + length (f # fs)] = op_next s # [Suc (op_next s)..<Suc (op_next s) + length fs]"
    by (simp add: upt_conv_Cons del: upt_Suc)
  then show ?case by (simp add: Cons.IH pending_add_run del: upt_Suc)
qed simp

definition is_temporary :: "'w alert_failure \<Rightarrow> bool" where
  "is_temporary f \<longleftrightarrow> retryable (af_error f) \<and> af_notifier f \<noteq> None"

lemma retried_given_up:
  "retried failed = filter is_temporary failed"
  "map af_name (given_up failed) = map af_name (filter (\<lambda>f. \<not> is_temporary f) failed)"
  "map af_error (given_up failed) = map af_error (filter (\<lambda>f. \<not> is_temporary f) failed)"
  by (simp_all only: retried_def given_up_def is_temporary_def [abs_def]) (simp_all add: comp_def)

text \<open>
  C28: each failure of an alert is either handed back to be reported now, or becomes one pending retry
  of that notifier with the same alert, and nothing else becomes one. A retry records the change as
  announced only when it is the alert's only failure.
\<close>

theorem failures_are_accounted_for:
  assumes "rc_retries r = Some (tries, delay)" "2 \<le> tries"
    and "queueRetries r m alert vals failed change s = (rest, s')"
  shows "(case rest of None \<Rightarrow> [] | Some fs \<Rightarrow> map af_name fs) = map af_name (filter (\<lambda>f. \<not> is_temporary f) failed)
    \<and> (\<exists>new. pending_of s' (mo_key m) = pending_of s (mo_key m) @ new
        \<and> map ar_name new = map af_name (filter is_temporary failed)
        \<and> map (Some \<circ> ar_notifier) new = map af_notifier (filter is_temporary failed)
        \<and> (\<forall>run \<in> set new. ar_alert run = alert \<and> ar_values run = vals \<and> ar_key run = mo_key m \<and> ar_try run = 2
            \<and> ar_change run = (if length failed = 1 then change else None)))
    \<and> (\<forall>nn. nn \<noteq> mo_key m \<longrightarrow> pending_of s' nn = pending_of s nn)"
proof -
  define ch where "ch = (if given_up failed \<noteq> [] \<or> 1 < length (retried failed) then None else change)"
  have s': "s' = fold (\<lambda>f. add_run (mo_key m) (new_run m alert vals ch f)) (retried failed) s"
    and rest: "rest = (if given_up failed = [] then None else Some (given_up failed))"
    using assms by (auto simp: queueRetries_def Let_def ch_def split: if_splits)
  let ?new = "map (\<lambda>(i, f). (new_run m alert vals ch f)\<lparr>ar_id := i\<rparr>)
    (zip [op_next s..<op_next s + length (retried failed)] (retried failed))"
  have len: "length (retried failed) + length (given_up failed) = length failed"
    using sum_length_filter_compl [of is_temporary failed] by (simp add: retried_given_up(1) given_up_def is_temporary_def)
  have p: "pending_of s' nn = (if nn = mo_key m then pending_of s (mo_key m) @ ?new else pending_of s nn)" for nn
    unfolding s' by (rule pending_add_runs)
  have n: "map ar_name ?new = map af_name (retried failed)"
    by (intro nth_equalityI) (simp_all add: new_run_def)
  have f: "map (Some \<circ> ar_notifier) ?new = map af_notifier (retried failed)"
  proof (intro nth_equalityI)
    fix i
    assume i: "i < length (map (Some \<circ> ar_notifier) ?new)"
    then have "retried failed ! i \<in> set (retried failed)" by simp
    then have "af_notifier (retried failed ! i) \<noteq> None" by (simp add: retried_def)
    with i show "map (Some \<circ> ar_notifier) ?new ! i = map af_notifier (retried failed) ! i" by (auto simp: new_run_def)
  qed simp
  have c: "x \<in> set (retried failed) \<Longrightarrow> ch = (if length failed = 1 then change else None)" for x
  proof -
    assume "x \<in> set (retried failed)"
    then have "0 < length (retried failed)" by (rule length_pos_if_in_set)
    with len have "length (given_up failed) = 0 \<and> \<not> 1 < length (retried failed) \<longleftrightarrow> length failed = 1"
      by linarith
    then show ?thesis by (auto simp: ch_def)
  qed
  have v: "\<forall>run \<in> set ?new. ar_alert run = alert \<and> ar_values run = vals \<and> ar_key run = mo_key m \<and> ar_try run = 2
      \<and> ar_change run = (if length failed = 1 then change else None)"
    using c by (auto simp: new_run_def dest: set_zip_rightD)
  have r: "(case rest of None \<Rightarrow> [] | Some fs \<Rightarrow> map af_name fs) = map af_name (filter (\<lambda>f. \<not> is_temporary f) failed)"
    using retried_given_up(2) [of failed] by (cases "given_up failed") (simp_all add: rest)
  from p n f v r show ?thesis unfolding retried_given_up(1) by auto
qed

end
