(* ===== verification/Retry_Invariant.thy ===== *)
theory Retry_Invariant
  imports Retry_Properties
begin

text \<open>Names are pairs; they stay whole in the proofs.\<close>

declare split_paired_All [simp del] split_paired_Ex [simp del] split_paired_all [simp del]

section \<open>What the steps leave alone\<close>

text \<open>The table of pending retries and the next identity.\<close>

definition table :: "'w operator \<Rightarrow> (name, 'w alert_run list) gomap \<times> nat" where
  "table s = (op_pending s, op_next s)"

lemma table_world [simp]: "table (s\<lparr>op_world := w\<rparr>) = table s" "table (s\<lparr>op_wrote := m\<rparr>) = table s"
  by (simp_all add: table_def)

lemma table_pending: "table s = table s' \<Longrightarrow> pending_of s nn = pending_of s' nn"
  by (simp add: table_def)

lemma table_delivered: "table (delivered r run s) = table s"
  by (simp add: delivered_def noteWrite_def split: option.splits prod.splits)

lemma table_try_again: "table (snd (try_again r run s)) = table s"
  by (simp add: try_again_def Let_def table_delivered split: option.splits sum.splits prod.splits get_error.splits)

lemma table_finish_run: "table (snd (finish_run r late run s)) = table s"
proof (induction late arbitrary: run s)
  case 0
  show ?case by (simp add: stopped_run_def split: sum.splits get_error.splits)
next
  case (Suc late)
  obtain e s' where t: "try_again r run s = (e, s')" by fastforce
  then have "table s' = table s" using table_try_again [of r run s] by simp
  with t Suc.IH show ?case by (cases e) simp_all
qed

lemma next_remove [simp]: "op_next (remove_run nn i s) = op_next s" "op_next (keep_run run s) = op_next s"
  by (simp_all add: remove_run_def keep_run_def Let_def)

lemma pending_remove:
  "pending_of (remove_run nn i s) nn' =
     (if nn' = nn then filter (\<lambda>run. ar_id run \<noteq> i) (pending_of s nn) else pending_of s nn')"
  by (simp add: remove_run_def Let_def get_or_def map_of_put map_of_del)

lemma pending_keep:
  "pending_of (keep_run run s) nn =
     (if nn = ar_key run then map (\<lambda>x. if ar_id x = ar_id run then run else x) (pending_of s nn) else pending_of s nn)"
  by (simp add: keep_run_def get_or_def map_of_put)

lemma retryAlert_removes:
  assumes "rc_retries r = Some p"
  shows "pending_of (retryAlert r late run s) nn =
      (if nn = ar_key run then filter (\<lambda>x. ar_id x \<noteq> ar_id run) (pending_of s nn) else pending_of s nn)"
    and "op_next (retryAlert r late run s) = op_next s"
proof -
  obtain tries delay where p: "p = (tries, delay)" by fastforce
  obtain e s' where f: "finish_run r late run s = (e, s')" by fastforce
  with finish_run_ended [of r tries delay run late s] assms p have "\<not> (\<exists>run'. e = Going run')"
    by (auto simp: ended_well_def)
  then have x: "retryAlert r late run s = remove_run (ar_key run) (ar_id run) s'"
    using f by (cases e) (auto simp: retryAlert_def settle_def)
  have t: "table s' = table s" using table_finish_run [of r late run s] f by simp
  show "pending_of (retryAlert r late run s) nn =
      (if nn = ar_key run then filter (\<lambda>x. ar_id x \<noteq> ar_id run) (pending_of s nn) else pending_of s nn)"
    using table_pending [OF t] by (simp add: x pending_remove)
  show "op_next (retryAlert r late run s) = op_next s" using t by (simp add: x table_def)
qed

lemma retryAlerts_clear:
  assumes "rc_retries r = Some p" "\<forall>run \<in> set runs. ar_key run = nn"
  shows "pending_of s nn = [] \<Longrightarrow> pending_of (fold (\<lambda>run. retryAlert r (late (ar_id run)) run) runs s) nn = []"
    and "nn' \<noteq> nn \<Longrightarrow> pending_of (fold (\<lambda>run. retryAlert r (late (ar_id run)) run) runs s) nn' = pending_of s nn'"
    and "op_next (fold (\<lambda>run. retryAlert r (late (ar_id run)) run) runs s) = op_next s"
  using assms(2) by (induction runs arbitrary: s) (simp_all add: retryAlert_removes [OF assms(1)])

section \<open>The invariant\<close>

definition retry_ok :: "int \<Rightarrow> name \<Rightarrow> nat \<Rightarrow> 'w alert_run \<Rightarrow> bool" where
  "retry_ok tries nn n run \<longleftrightarrow>
     ar_key run = nn \<and> ar_id run < n \<and> 2 \<le> ar_try run \<and> ar_try run \<le> tries
     \<and> (ar_change run \<noteq> None \<longrightarrow> ar_alert run = ''change'')"

definition retries_ok :: "int \<Rightarrow> name \<Rightarrow> nat \<Rightarrow> 'w alert_run list \<Rightarrow> bool" where
  "retries_ok tries nn n runs \<longleftrightarrow>
     list_all (retry_ok tries nn n) runs \<and> distinct (map ar_id runs)
     \<and> length (filter (\<lambda>run. ar_change run \<noteq> None) runs) \<le> 1"

definition operator_ok :: "int \<Rightarrow> 'w operator \<Rightarrow> bool" where
  "operator_ok tries s \<longleftrightarrow> (\<forall>nn. retries_ok tries nn (op_next s) (pending_of s nn))"

lemma operator_okD: "operator_ok tries s \<Longrightarrow> retries_ok tries nn (op_next s) (pending_of s nn)"
  unfolding operator_ok_def by blast

lemma retries_ok_nil [simp]: "retries_ok tries nn n []"
  by (simp add: retries_ok_def)

lemma retries_ok_filter: "retries_ok tries nn n runs \<Longrightarrow> retries_ok tries nn n (filter P runs)"
proof -
  assume r: "retries_ok tries nn n runs"
  have "length (filter (\<lambda>run. ar_change run \<noteq> None) (filter P runs)) \<le> length (filter (\<lambda>run. ar_change run \<noteq> None) runs)"
    by (induction runs) simp_all
  with r show ?thesis by (auto simp: retries_ok_def list_all_iff distinct_map inj_on_def)
qed

lemma operator_ok_table: "table s' = table s \<Longrightarrow> operator_ok tries s \<Longrightarrow> operator_ok tries s'"
  by (simp add: operator_ok_def table_def)

lemma operator_ok_Stop:
  assumes "rc_retries r = Some p" "operator_ok tries s"
  shows "operator_ok tries (snd (Stop r late nn s))" "pending_of (snd (Stop r late nn s)) nn = []"
    "nn' \<noteq> nn \<Longrightarrow> pending_of (snd (Stop r late nn s)) nn' = pending_of s nn'"
proof -
  let ?s1 = "s\<lparr>op_pending := map_del nn (op_pending s)\<rparr>"
  have k: "\<forall>run \<in> set (pending_of s nn). ar_key run = nn"
    using operator_okD [OF assms(2), of nn] by (auto simp: retries_ok_def retry_ok_def list_all_iff)
  note c = retryAlerts_clear [OF assms(1) k, where s = ?s1 and late = late]
  have st: "snd (Stop r late nn s) = (fold (\<lambda>run. retryAlert r (late (ar_id run)) run) (pending_of s nn) ?s1)
      \<lparr>op_wrote := map_del nn (op_wrote (fold (\<lambda>run. retryAlert r (late (ar_id run)) run) (pending_of s nn) ?s1))\<rparr>"
    using assms(1) by (simp add: Stop_def Let_def)
  have p1: "pending_of ?s1 x = (if x = nn then [] else pending_of s x)" for x
    by (simp add: get_or_def map_of_del)
  have p: "pending_of (snd (Stop r late nn s)) x = (if x = nn then [] else pending_of s x)" for x
    unfolding st using c(1) c(2) [where nn' = x] p1 by (simp add: get_or_def map_of_del)
  have n: "op_next (snd (Stop r late nn s)) = op_next s" unfolding st using c(3) by simp
  show "operator_ok tries (snd (Stop r late nn s))"
    unfolding operator_ok_def n p using assms(2) by (simp add: operator_ok_def)
  show "pending_of (snd (Stop r late nn s)) nn = []"
    and "nn' \<noteq> nn \<Longrightarrow> pending_of (snd (Stop r late nn s)) nn' = pending_of s nn'" by (simp_all add: p)
qed

text \<open>Queueing: at most one retry carries a change, and only where none did.\<close>

definition unchanged :: "'w operator \<Rightarrow> name \<Rightarrow> bool" where
  "unchanged s nn \<longleftrightarrow> list_all (\<lambda>run. ar_change run = None) (pending_of s nn)"

lemma retries_ok_later: "retries_ok tries nn n runs \<Longrightarrow> n \<le> n' \<Longrightarrow> retries_ok tries nn n' runs"
  by (auto simp: retries_ok_def retry_ok_def list_all_iff)

lemma retries_ok_snoc:
  assumes "retries_ok tries nn n runs" "retry_ok tries nn (Suc n) run" "ar_id run = n"
    "ar_change run = None \<or> list_all (\<lambda>x. ar_change x = None) runs"
  shows "retries_ok tries nn (Suc n) (runs @ [run])"
proof -
  have "ar_id run \<notin> set (map ar_id runs)" using assms(1,3) by (auto simp: retries_ok_def retry_ok_def list_all_iff)
  moreover have "filter (\<lambda>x. ar_change x \<noteq> None) runs = []" if "list_all (\<lambda>x. ar_change x = None) runs"
    using that by (auto simp: list_all_iff filter_empty_conv)
  ultimately show ?thesis
    using assms retries_ok_later [OF assms(1), of "Suc n"] by (auto simp: retries_ok_def)
qed

lemma operator_ok_add:
  assumes "operator_ok tries s" "retry_ok tries nn (Suc (op_next s)) (run\<lparr>ar_id := op_next s\<rparr>)"
    "ar_change run = None \<or> unchanged s nn"
  shows "operator_ok tries (add_run nn run s)"
    "ar_change run = None \<Longrightarrow> unchanged s nn' \<Longrightarrow> unchanged (add_run nn run s) nn'"
proof -
  have "retries_ok tries nn (Suc (op_next s)) (pending_of s nn @ [run\<lparr>ar_id := op_next s\<rparr>])"
    using assms(2,3) by (intro retries_ok_snoc operator_okD [OF assms(1)]) (auto simp: unchanged_def)
  moreover have "retries_ok tries nn' (Suc (op_next s)) (pending_of s nn')" for nn'
    by (rule retries_ok_later [OF operator_okD [OF assms(1)]]) simp
  ultimately show "operator_ok tries (add_run nn run s)"
    by (simp add: operator_ok_def pending_add_run)
  show "ar_change run = None \<Longrightarrow> unchanged s nn' \<Longrightarrow> unchanged (add_run nn run s) nn'"
    by (cases "nn' = nn") (simp_all add: unchanged_def pending_add_run)
qed

lemma retry_ok_new:
  "2 \<le> tries \<Longrightarrow> change = None \<or> alert = ''change'' \<Longrightarrow>
    retry_ok tries (mo_key m) (Suc i) ((new_run m alert vals change f)\<lparr>ar_id := i\<rparr>)"
  by (auto simp: retry_ok_def new_run_def)

lemma operator_ok_adds_plain:
  assumes "2 \<le> tries"
  shows "operator_ok tries s \<Longrightarrow> operator_ok tries (fold (\<lambda>f. add_run (mo_key m) (new_run m alert vals None f)) fs s)
    \<and> (unchanged s nn \<longrightarrow> unchanged (fold (\<lambda>f. add_run (mo_key m) (new_run m alert vals None f)) fs s) nn)"
proof (induction fs arbitrary: s)
  case (Cons f fs)
  have c: "ar_change (new_run m alert vals None f) = None" by (simp add: new_run_def)
  note a = operator_ok_add [OF Cons.prems retry_ok_new [OF assms, of None alert m "op_next s" vals f], simplified c]
  from Cons.IH [OF a(1)] a(2) [of nn] show ?case by simp
qed simp

lemma operator_ok_queue:
  assumes "rc_retries r = Some (tries, delay)" "operator_ok tries s"
    "change = None \<or> alert = ''change'' \<and> unchanged s (mo_key m)"
  shows "operator_ok tries (snd (queueRetries r m alert vals failed change s))"
    and "change = None \<Longrightarrow> unchanged s nn \<Longrightarrow> unchanged (snd (queueRetries r m alert vals failed change s)) nn"
proof -
  define ch where "ch = (if given_up failed \<noteq> [] \<or> 1 < length (retried failed) then None else change)"
  let ?s' = "fold (\<lambda>f. add_run (mo_key m) (new_run m alert vals ch f)) (retried failed) s"
  have q: "snd (queueRetries r m alert vals failed change s) = (if tries < 2 then s else ?s')"
    using assms(1) by (simp add: queueRetries_def Let_def ch_def)
  have "operator_ok tries ?s' \<and> (change = None \<longrightarrow> unchanged s nn \<longrightarrow> unchanged ?s' nn)" if t: "2 \<le> tries"
  proof (cases "ch = None")
    case True
    with operator_ok_adds_plain [OF t assms(2), of m alert vals "retried failed" nn] show ?thesis by simp
  next
    case False
    then have c: "ch = change" "change \<noteq> None" "length (retried failed) \<le> 1" by (auto simp: ch_def split: if_splits)
    then show ?thesis
    proof (cases "retried failed")
      case (Cons f fs)
      with c have "fs = []" by simp
      with Cons c assms(2,3) t show ?thesis
        using operator_ok_add(1) [OF assms(2) retry_ok_new [OF t, of change alert m "op_next s" vals f]] by auto
    qed (use assms(2) in simp)
  qed
  with q assms(2) show "operator_ok tries (snd (queueRetries r m alert vals failed change s))"
    and "change = None \<Longrightarrow> unchanged s nn \<Longrightarrow> unchanged (snd (queueRetries r m alert vals failed change s)) nn" by auto
qed

lemma operator_ok_send:
  assumes "rc_retries r = Some (tries, delay)" "operator_ok tries s"
    "change = None \<or> alert = ''change'' \<and> unchanged s (mo_key m)"
  shows "operator_ok tries (snd (send_alert r ns m alert vals change s))"
    and "change = None \<Longrightarrow> unchanged s nn \<Longrightarrow> unchanged (snd (send_alert r ns m alert vals change s)) nn"
proof -
  obtain failed w where c: "composite_send ns alert vals (op_world s) = (failed, w)" by fastforce
  let ?s = "s\<lparr>op_world := w\<rparr>"
  have s: "operator_ok tries ?s" "unchanged ?s x = unchanged s x" for x
    using assms(2) by (simp_all add: operator_ok_def unchanged_def)
  have "operator_ok tries (snd (send_alert r ns m alert vals change s))
    \<and> (change = None \<longrightarrow> unchanged s nn \<longrightarrow> unchanged (snd (send_alert r ns m alert vals change s)) nn)"
  proof (cases failed)
    case None
    with c s show ?thesis by (simp add: send_alert_def)
  next
    case (Some fs)
    obtain rest s' where q: "queueRetries r m alert vals fs change ?s = (rest, s')" by fastforce
    have "operator_ok tries s' \<and> (change = None \<longrightarrow> unchanged s nn \<longrightarrow> unchanged s' nn)"
      using operator_ok_queue(1) [OF assms(1) s(1), where change = change and alert = alert and m = m and vals = vals
          and failed = fs]
        operator_ok_queue(2) [OF assms(1) s(1), where change = change and alert = alert and m = m and vals = vals
          and failed = fs and nn = nn] assms(3) s(2) q by auto
    with c Some q show ?thesis by (cases rest) (auto simp: send_alert_def operator_ok_def unchanged_def)
  qed
  then show "operator_ok tries (snd (send_alert r ns m alert vals change s))"
    and "change = None \<Longrightarrow> unchanged s nn \<Longrightarrow> unchanged (snd (send_alert r ns m alert vals change s)) nn" by blast+
qed

end
