(* ===== verification/Operator_Run.thy ===== *)
theory Operator_Run
  imports Retry_Invariant
begin


text \<open>
  The operator as a transition system: calls of \<^verbatim>\<open>Reconcile\<close>, tries of pending retries and changes of the
  cluster interleave in any order. The invariant of the retries holds in every reachable state.
\<close>
section \<open>The operator at work\<close>

text \<open>
  A step of the operator: a call of \<^verbatim>\<open>Reconcile\<close>, one try of a pending retry, or anything that
  happens in the cluster meanwhile.
\<close>

inductive op_step :: "'w reconciler \<Rightarrow> 'w operator \<Rightarrow> 'w operator \<Rightarrow> bool" for r where
  reconcile: "op_step r s (snd (Reconcile r late nn s))"
| retry: "run \<in> set (pending_of s nn) \<Longrightarrow> op_step r s (retry_step r run s)"
| outside: "op_step r s (s\<lparr>op_world := w\<rparr>)"

inductive op_reachable :: "'w reconciler \<Rightarrow> 'w operator \<Rightarrow> bool" for r where
  start: "op_reachable r \<lparr>op_world = w, op_pending = [], op_wrote = [], op_next = 0\<rparr>"
| step: "op_reachable r s \<Longrightarrow> op_step r s s' \<Longrightarrow> op_reachable r s'"

inductive_cases op_step_cases: "op_step r s s'"

text \<open>The API server answers under the name it was asked for.\<close>

definition api_names :: "'w reconciler \<Rightarrow> bool" where
  "api_names r \<longleftrightarrow>
     (\<forall>nn w m. kb_get (rc_kube r) nn w = Inr m \<longrightarrow> mo_key m = nn)
     \<and> (\<forall>nn w m. reader r nn w = Inr m \<longrightarrow> mo_key m = nn)
     \<and> (\<forall>m w m' w'. kb_update (rc_kube r) m w = (None, m', w') \<longrightarrow> mo_key m' = mo_key m)"

lemma save_and_alert_key:
  assumes "api_names r" "save_and_alert r m ns vals now s = Inr (m1, vals1, s1)"
  shows "mo_key m1 = mo_key m"
    and "\<exists>w. s1 = snd (send_alert r ns m1 (nv_status vals1) vals1 None (s\<lparr>op_world := w\<rparr>))"
proof -
  let ?m = "m\<lparr>mo_status := check_status m (nv_status vals) now\<rparr>"
  obtain err mm w where u: "kb_update (rc_kube r) ?m (op_world s) = (err, mm, w)" by (metis prod_cases3)
  with assms(2) have e: "err = None" "mm = m1" "s1 = snd (send_alert r ns m1 (nv_status vals1) vals1 None (s\<lparr>op_world := w\<rparr>))"
    by (auto simp: save_and_alert_def Let_def split: option.splits)
  from u e have "kb_update (rc_kube r) ?m (op_world s) = (None, m1, w)" by simp
  with assms(1) have "mo_key m1 = mo_key ?m" unfolding api_names_def by blast
  then show "mo_key m1 = mo_key m" by simp
  show "\<exists>w. s1 = snd (send_alert r ns m1 (nv_status vals1) vals1 None (s\<lparr>op_world := w\<rparr>))" using e by blast
qed

lemma operator_ok_world [simp]: "operator_ok tries (s\<lparr>op_world := w\<rparr>) = operator_ok tries s"
  "unchanged (s\<lparr>op_world := w\<rparr>) nn = unchanged s nn"
  by (simp_all add: operator_ok_def unchanged_def)

lemma operator_ok_announce:
  assumes "rc_retries r = Some (tries, delay)" "operator_ok tries s" "unchanged s (mo_key m)"
  shows "operator_ok tries (snd (announce_change r ns m vals notified since s))"
proof (cases "notified = nv_status vals")
  case True
  with assms show ?thesis by (simp add: announce_change_def)
next
  case False
  let ?ch = "Some \<lparr>an_status = nv_status vals, an_since = ms_since (mo_status m)\<rparr>"
  let ?cv = "change_values r vals notified since (ms_since (mo_status m))"
  obtain ok s' where s: "send_alert r ns m ''change'' ?cv ?ch s = (ok, s')" by fastforce
  have "operator_ok tries s'"
    using operator_ok_send(1) [OF assms(1,2), of ?ch "''change''" m ns ?cv] assms(3) s by simp
  with False s show ?thesis by (cases ok) (auto simp: announce_change_def Let_def split: prod.splits)
qed

lemma operator_ok_report:
  assumes "rc_retries r = Some (tries, delay)" "api_names r" "operator_ok tries s" "unchanged s (mo_key m)"
  shows "operator_ok tries (snd (report_check r interval m ns vals now s))"
proof -
  obtain notified since where a: "announced_of (mo_status m) = (notified, since)" by fastforce
  show ?thesis
  proof (cases "save_and_alert r m ns vals now s")
    case (Inl x)
    then have "\<exists>w. snd x = s\<lparr>op_world := w\<rparr>" by (auto simp: save_and_alert_def Let_def split: prod.splits option.splits)
    with Inl assms(3) a show ?thesis by (cases x) (auto simp: report_check_def)
  next
    case (Inr x)
    obtain m1 vals1 s1 where x: "x = (m1, vals1, s1)" by (metis prod_cases3)
    note k = save_and_alert_key [OF assms(2) Inr [unfolded x]]
    obtain w where s1: "s1 = snd (send_alert r ns m1 (nv_status vals1) vals1 None (s\<lparr>op_world := w\<rparr>))" using k(2) by blast
    have ok: "operator_ok tries s1" "unchanged s1 (mo_key m1)"
      unfolding s1 using assms(3,4) k(1)
      by (auto intro!: operator_ok_send(1) [OF assms(1)] operator_ok_send(2) [OF assms(1)])
    from operator_ok_announce [OF assms(1) ok, of ns vals1 notified since] show ?thesis
      using Inr x a by (auto simp: report_check_def split: prod.splits option.splits)
  qed
qed

lemma operator_ok_check:
  assumes "rc_retries r = Some (tries, delay)" "api_names r" "operator_ok tries s" "unchanged s (mo_key m)"
  shows "operator_ok tries (snd (check_monitor r interval m now s))"
  using assms operator_ok_report [OF assms(1,2), of "s\<lparr>op_world := w\<rparr>" m for w]
  by (auto simp: check_monitor_def Let_def cannotCheck_def split: sum.splits prod.splits)

lemma operator_ok_Reconcile:
  assumes "rc_retries r = Some (tries, delay)" "api_names r" "operator_ok tries s"
  shows "operator_ok tries (snd (Reconcile r late nn s))"
proof (cases "kb_get (rc_kube r) nn (op_world s)")
  case (Inl e)
  with assms operator_ok_Stop(1) [OF assms(1,3)] show ?thesis
    by (cases e) (auto simp: Reconcile_def)
next
  case (Inr m)
  obtain b s1 where st: "Stop r late nn s = (b, s1)" by fastforce
  with operator_ok_Stop(1,2) [OF assms(1,3), where nn = nn and late = late] have s1: "operator_ok tries s1" "unchanged s1 nn"
    by (simp_all add: unchanged_def)
  have m: "mo_key m = nn" using Inr assms(2) by (auto simp: api_names_def)
  have "reader r nn (op_world s1) = Inr m' \<Longrightarrow> mo_key m' = nn" for m'
    using assms(2) unfolding api_names_def by blast
  then show ?thesis
    using Inr st s1 m assms(3) operator_ok_check [OF assms(1,2) s1(1)]
    by (auto simp: Reconcile_def Let_def cannotCheck_def split: sum.splits get_error.splits bool.splits)
qed

lemma try_again_keeps:
  assumes "rc_retries r = Some (tries, delay)" "operator_ok tries s" "run \<in> set (pending_of s nn)"
  shows "operator_ok tries (retry_step r run s)"
proof -
  obtain e s' where t: "try_again r run s = (e, s')" by fastforce
  have tab: "table s' = table s" using table_try_again [of r run s] t by simp
  have ok: "operator_ok tries s'" using operator_ok_table [OF tab assms(2)] .
  have run: "run \<in> set (pending_of s' nn)" using assms(3) table_pending [OF tab] by simp
  have key: "ar_key run = nn" and r: "retry_ok tries nn (op_next s') run"
    using operator_okD [OF ok, of nn] run by (auto simp: retries_ok_def retry_ok_def list_all_iff)
  show ?thesis
  proof (cases "\<exists>run'. e = Going run'")
    case True
    then obtain run' where e: "e = Going run'" by blast
    note g = try_again_going [OF t [unfolded e] assms(1)]
    have d: "distinct (map ar_id (pending_of s' nn))" using operator_okD [OF ok, of nn] by (simp add: retries_ok_def)
    let ?f = "\<lambda>x. if ar_id x = ar_id run then run' else x"
    have same: "ar_change (?f x) = ar_change x" "ar_id (?f x) = ar_id x" if "x \<in> set (pending_of s' nn)" for x
      using that run d g by (auto simp: distinct_map inj_on_def)
    have "retries_ok tries nn (op_next s') (map ?f (pending_of s' nn))"
    proof -
      have "map ar_id (map ?f (pending_of s' nn)) = map ar_id (pending_of s' nn)" using same by simp
      with d have dd: "distinct (map ar_id (map ?f (pending_of s' nn)))" by metis
      have "filter (\<lambda>x. ar_change x \<noteq> None) (map ?f (pending_of s' nn))
          = map ?f (filter (\<lambda>x. ar_change x \<noteq> None) (pending_of s' nn))"
        using same by (simp add: filter_map comp_def cong: filter_cong)
      then have ll: "length (filter (\<lambda>x. ar_change x \<noteq> None) (map ?f (pending_of s' nn))) \<le> 1"
        using operator_okD [OF ok, of nn] by (simp only: retries_ok_def length_map)
      have "retry_ok tries nn (op_next s') run'" using r g by (auto simp: retry_ok_def)
      then have "list_all (retry_ok tries nn (op_next s')) (map ?f (pending_of s' nn))"
        using operator_okD [OF ok, of nn] by (auto simp: retries_ok_def list_all_iff)
      with dd ll show ?thesis unfolding retries_ok_def by blast
    qed
    then show ?thesis
      using t e ok g key by (simp add: retry_step_def settle_def operator_ok_def pending_keep)
  next
    case False
    then have "retry_step r run s = remove_run (ar_key run) (ar_id run) s'"
      using t by (cases e) (auto simp: retry_step_def settle_def)
    with ok show ?thesis
      by (simp add: operator_ok_def pending_remove retries_ok_filter)
  qed
qed

lemma operator_ok_reachable:
  assumes "op_reachable r s" "rc_retries r = Some (tries, delay)" "api_names r"
  shows "operator_ok tries s"
  using assms(1)
proof induction
  case (start w)
  show ?case by (simp add: operator_ok_def get_or_def)
next
  case (step s s')
  from step.hyps(2) show ?case
  proof cases
    case (reconcile late nn)
    then show ?thesis using operator_ok_Reconcile [OF assms(2,3) step.IH] by simp
  next
    case (retry run nn)
    then show ?thesis using try_again_keeps [OF assms(2) step.IH] by simp
  qed (use step.IH in simp)
qed

text \<open>
  C29: whatever the order of reconciles, retries and outside events, every pending retry is filed under
  its own monitor and has been tried fewer times than the limit allows, and a monitor never has two
  retries in flight that may record a change as announced.
\<close>

theorem retries_stay_bounded:
  assumes "op_reachable r s" "rc_retries r = Some (tries, delay)" "api_names r"
  shows "list_all (\<lambda>run. ar_key run = nn \<and> 2 \<le> ar_try run \<and> ar_try run \<le> tries) (pending_of s nn)
    \<and> distinct (map ar_id (pending_of s nn))
    \<and> length (filter (\<lambda>run. ar_change run \<noteq> None) (pending_of s nn)) \<le> 1"
  using operator_okD [OF operator_ok_reachable [OF assms], of nn]
  by (auto simp: retries_ok_def retry_ok_def list_all_iff)

section \<open>No alert without a saved status\<close>

lemma kube_notifiers: "rc_kube (r\<lparr>rc_new_notifier := f\<rparr>) = rc_kube r" "rc_retries (r\<lparr>rc_new_notifier := f\<rparr>) = rc_retries r"
  by simp_all

lemma with_notifiers [simp]:
  "reader (r\<lparr>rc_new_notifier := f\<rparr>) = reader r" "markAnnounced (r\<lparr>rc_new_notifier := f\<rparr>) = markAnnounced r"
  "report (r\<lparr>rc_new_notifier := f\<rparr>) = report r" "stopped_run (r\<lparr>rc_new_notifier := f\<rparr>) = stopped_run r"
  "delivered (r\<lparr>rc_new_notifier := f\<rparr>) = delivered r" "try_again (r\<lparr>rc_new_notifier := f\<rparr>) = try_again r"
proof -
  show a: "reader (r\<lparr>rc_new_notifier := f\<rparr>) = reader r" unfolding reader_def kube_notifiers ..
  show b: "markAnnounced (r\<lparr>rc_new_notifier := f\<rparr>) = markAnnounced r" unfolding markAnnounced_def [abs_def] a kube_notifiers ..
  show c: "report (r\<lparr>rc_new_notifier := f\<rparr>) = report r"
    unfolding report_def [abs_def] alertFailed_def [abs_def] kube_notifiers ..
  show "stopped_run (r\<lparr>rc_new_notifier := f\<rparr>) = stopped_run r" unfolding stopped_run_def [abs_def] a c ..
  show d: "delivered (r\<lparr>rc_new_notifier := f\<rparr>) = delivered r" unfolding delivered_def [abs_def] b ..
  show "try_again (r\<lparr>rc_new_notifier := f\<rparr>) = try_again r"
    unfolding try_again_def [abs_def] a c d kube_notifiers ..
qed

lemma finish_run_notifiers: "finish_run (r\<lparr>rc_new_notifier := f\<rparr>) late run s = finish_run r late run s"
  by (induction late arbitrary: run s) (simp_all split: prod.splits run_end.splits)

lemma Stop_notifiers: "Stop (r\<lparr>rc_new_notifier := f\<rparr>) late nn s = Stop r late nn s"
  unfolding Stop_def retryAlert_def finish_run_notifiers kube_notifiers ..

lemma report_check_unsaved:
  assumes "\<And>m w. fst (kb_update (rc_kube r) m w) \<noteq> None"
  shows "report_check r interval m ns vals now s =
    (case kb_update (rc_kube r) (m\<lparr>mo_status := check_status m (nv_status vals) now\<rparr>) (op_world s) of
       (e, _, w) \<Rightarrow> (Inl (update_text (the e)), s\<lparr>op_world := w\<rparr>))"
  using assms [of "m\<lparr>mo_status := check_status m (nv_status vals) now\<rparr>" "op_world s"]
  by (auto simp: report_check_def save_and_alert_def split: prod.splits option.splits)

lemma check_values_notifiers: "check_values (r\<lparr>rc_new_notifier := f\<rparr>) = check_values r"
  by (simp add: check_values_def setStatusPeriod_def fun_eq_iff)

lemma check_monitor_unsaved:
  assumes "\<And>m w. fst (kb_update (rc_kube r) m w) \<noteq> None"
    and "(case rc_new_notifier r (sp_notify (mo_spec m)) of Inl e \<Rightarrow> f (sp_notify (mo_spec m)) = Inl e
          | Inr _ \<Rightarrow> \<exists>ns. f (sp_notify (mo_spec m)) = Inr ns)"
  shows "check_monitor (r\<lparr>rc_new_notifier := f\<rparr>) interval m now s = check_monitor r interval m now s"
proof -
  have u: "fst (kb_update (rc_kube (r\<lparr>rc_new_notifier := f\<rparr>)) m w) \<noteq> None" for m w using assms(1) by simp
  show ?thesis
    using assms(2)
    by (auto simp: check_monitor_def Let_def cannotCheck_def check_values_notifiers report_check_unsaved [OF assms(1)]
        report_check_unsaved [OF u] split: sum.splits prod.splits)
qed

lemma check_monitor_refused:
  assumes "\<And>m w. fst (kb_update (rc_kube r) m w) \<noteq> None" "rc_new_driver r m (op_world s) = Inr d"
    and "rc_new_notifier r (sp_notify (mo_spec m)) = Inr ns" "dv_check d (op_world s) = (Inr res, w)"
    and "kb_update (rc_kube r) (m\<lparr>mo_status := check_status m (status_text res) now\<rparr>) w = (Some e, m1, w1)"
  shows "check_monitor r interval m now s = (Inl (update_text e), s\<lparr>op_world := w1\<rparr>)"
proof -
  have "nv_status (check_values r m d res now) = status_text res" by (simp add: check_values_def)
  with assms(2-5) show ?thesis by (simp add: check_monitor_def Let_def report_check_unsaved [OF assms(1)])
qed

text \<open>
  C32: nobody is told about a status that was not saved. While the API server refuses every update, a
  call of Reconcile does the same whatever its notifiers would do with an alert: it calls none of them.
  And once it has checked the monitor, as read again if it had retries to stop, it returns the error of the
  refused update, which has it called again, and leaves the retries, the marks of its writes and their
  numbers as they were before the check.
\<close>

theorem unsaved_status_tells_nobody:
  assumes "\<And>m w. fst (kb_update (rc_kube r) m w) \<noteq> None"
    and "\<And>cfg. (case rc_new_notifier r cfg of Inl e \<Rightarrow> f cfg = Inl e | Inr _ \<Rightarrow> \<exists>ns. f cfg = Inr ns)"
  shows "Reconcile (r\<lparr>rc_new_notifier := f\<rparr>) late nn s = Reconcile r late nn s
    \<and> (\<forall>m0 m b s1 d ns res w e m1 w1. kb_get (rc_kube r) nn (op_world s) = Inr m0
        \<and> 1 \<le> sp_interval (mo_spec m0) \<and> sp_interval (mo_spec m0) \<le> MaxCheckInterval
        \<and> is_due m0 (kb_now (rc_kube r) (op_world s))
        \<and> Stop r late nn s = (b, s1) \<and> (if b then reader r nn (op_world s1) = Inr m else m = m0)
        \<and> rc_new_driver r m (op_world s1) = Inr d \<and> rc_new_notifier r (sp_notify (mo_spec m)) = Inr ns
        \<and> dv_check d (op_world s1) = (Inr res, w)
        \<and> kb_update (rc_kube r) (m\<lparr>mo_status := check_status m (if cr_success res then ''success'' else ''failure'')
            (kb_now (rc_kube r) (op_world s))\<rparr>) w = (Some e, m1, w1)
        \<longrightarrow> Reconcile r late nn s = (Inl (update_text e), s1\<lparr>op_world := w1\<rparr>))"
proof (intro conjI allI impI)
  have "check_monitor (r\<lparr>rc_new_notifier := f\<rparr>) = check_monitor r"
    by (intro ext, rule check_monitor_unsaved, rule assms(1), rule assms(2))
  then show "Reconcile (r\<lparr>rc_new_notifier := f\<rparr>) late nn s = Reconcile r late nn s"
    unfolding Reconcile_def Stop_notifiers with_notifiers cannotCheck_def kube_notifiers by (simp only:)
next
  fix m0 m b s1 d ns res w e m1 w1
  let ?now = "kb_now (rc_kube r) (op_world s)"
  assume a: "kb_get (rc_kube r) nn (op_world s) = Inr m0
        \<and> 1 \<le> sp_interval (mo_spec m0) \<and> sp_interval (mo_spec m0) \<le> MaxCheckInterval
        \<and> is_due m0 (kb_now (rc_kube r) (op_world s))
        \<and> Stop r late nn s = (b, s1) \<and> (if b then reader r nn (op_world s1) = Inr m else m = m0)
        \<and> rc_new_driver r m (op_world s1) = Inr d \<and> rc_new_notifier r (sp_notify (mo_spec m)) = Inr ns
        \<and> dv_check d (op_world s1) = (Inr res, w)
        \<and> kb_update (rc_kube r) (m\<lparr>mo_status := check_status m (if cr_success res then ''success'' else ''failure'')
            (kb_now (rc_kube r) (op_world s))\<rparr>) w = (Some e, m1, w1)"
  then have "check_monitor r (check_interval m0) m ?now s1 = (Inl (update_text e), s1\<lparr>op_world := w1\<rparr>)"
    by (intro check_monitor_refused [OF assms(1), where d = d and ns = ns and res = res and w = w])
      (simp_all add: status_text_def)
  with a show "Reconcile r late nn s = (Inl (update_text e), s1\<lparr>op_world := w1\<rparr>)"
    by (cases b) (simp_all add: Reconcile_def Let_def)
qed

end
