(* ===== verification/Operator_Schedule.thy ===== *)
theory Operator_Schedule
  imports Operator_Run
begin


text \<open>
  The order of checks and retries: a call of \<^verbatim>\<open>Reconcile\<close> that checks ends the retries of older alerts first,
  and every call asks for the next one.
\<close>
section \<open>A newer check replaces older retries\<close>

lemma queue_pending:
  "\<exists>new. pending_of (snd (queueRetries r m alert vals failed change s)) nn = pending_of s nn @ new
    \<and> (\<forall>x \<in> set new. op_next s \<le> ar_id x)
    \<and> op_next s \<le> op_next (snd (queueRetries r m alert vals failed change s))
    \<and> (nn \<noteq> mo_key m \<longrightarrow> new = [])"
proof -
  have n: "op_next (fold (\<lambda>f. add_run (mo_key m) (g f)) fs s) = op_next s + length fs" for g :: "'a alert_failure \<Rightarrow> 'a alert_run" and fs
    by (induction fs arbitrary: s) simp_all
  show ?thesis
    by (auto simp: queueRetries_def Let_def pending_add_runs n split: option.splits dest!: set_zip_leftD)
qed

text \<open>The retries of a state that were queued from an identity on, the others being those of an older state.\<close>

definition only_newer :: "'w operator \<Rightarrow> nat \<Rightarrow> name \<Rightarrow> bool" where
  "only_newer s n nn \<longleftrightarrow> list_all (\<lambda>run. n \<le> ar_id run) (pending_of s nn) \<and> n \<le> op_next s"

lemma only_newer_world [simp]: "only_newer (s\<lparr>op_world := w\<rparr>) n nn = only_newer s n nn"
  by (simp add: only_newer_def)

lemma only_newer_send:
  assumes "only_newer s n nn"
  shows "only_newer (snd (send_alert r ns m alert vals change s)) n nn"
proof -
  obtain failed w where c: "composite_send ns alert vals (op_world s) = (failed, w)" by fastforce
  show ?thesis
  proof (cases failed)
    case None
    with c assms show ?thesis by (simp add: send_alert_def)
  next
    case (Some fs)
    obtain rest s' where q: "queueRetries r m alert vals fs change (s\<lparr>op_world := w\<rparr>) = (rest, s')" by fastforce
    with queue_pending [of r m alert vals fs change "s\<lparr>op_world := w\<rparr>" nn]
    obtain new where "pending_of s' nn = pending_of s nn @ new" "\<forall>x \<in> set new. op_next s \<le> ar_id x" "op_next s \<le> op_next s'"
      by auto
    with assms have "only_newer s' n nn" by (auto simp: only_newer_def list_all_iff)
    with c Some q show ?thesis by (cases rest) (auto simp: send_alert_def)
  qed
qed

lemma only_newer_report:
  assumes "only_newer s n nn"
  shows "only_newer (snd (report_check r interval m ns vals now s)) n nn"
proof -
  obtain notified since where a: "announced_of (mo_status m) = (notified, since)" by fastforce
  have ann: "only_newer (snd (announce_change r ns m1 v notified since s1)) n nn" if o: "only_newer s1 n nn" for m1 v s1
  proof (cases "notified = nv_status v")
    case True
    with o show ?thesis by (simp add: announce_change_def)
  next
    case False
    let ?ch = "Some \<lparr>an_status = nv_status v, an_since = ms_since (mo_status m1)\<rparr>"
    let ?cv = "change_values r v notified since (ms_since (mo_status m1))"
    obtain ok s2 where s: "send_alert r ns m1 ''change'' ?cv ?ch s1 = (ok, s2)" by fastforce
    with only_newer_send [OF o, of r ns m1 "''change''" ?cv ?ch] have "only_newer s2 n nn" by simp
    with False s show ?thesis by (cases ok) (auto simp: announce_change_def Let_def split: prod.splits)
  qed
  show ?thesis
  proof (cases "save_and_alert r m ns vals now s")
    case (Inl x)
    then have "\<exists>w. snd x = s\<lparr>op_world := w\<rparr>" by (auto simp: save_and_alert_def Let_def split: prod.splits option.splits)
    with Inl assms a show ?thesis by (cases x) (auto simp: report_check_def)
  next
    case (Inr x)
    obtain m1 vals1 s1 where x: "x = (m1, vals1, s1)" by (metis prod_cases3)
    have "only_newer s1 n nn"
      using Inr x assms by (auto simp: save_and_alert_def Let_def intro!: only_newer_send split: prod.splits option.splits)
    with Inr x a ann [of s1 m1 vals1] show ?thesis
      by (auto simp: report_check_def split: prod.splits option.splits)
  qed
qed

lemma only_newer_check: "only_newer s n nn \<Longrightarrow> only_newer (snd (check_monitor r interval m now s)) n nn"
  by (auto simp: check_monitor_def Let_def cannotCheck_def intro!: only_newer_report split: sum.splits prod.splits)

lemma Stop_next:
  assumes "rc_retries r = Some p" "operator_ok tries s"
  shows "op_next (snd (Stop r late nn s)) = op_next s"
proof -
  have "\<forall>run \<in> set (pending_of s nn). ar_key run = nn"
    using operator_okD [OF assms(2), of nn] by (auto simp: retries_ok_def retry_ok_def list_all_iff)
  from retryAlerts_clear(3) [OF assms(1) this, where late = late and s = "s\<lparr>op_pending := map_del nn (op_pending s)\<rparr>"]
  show ?thesis using assms(1) by (auto simp: Stop_def Let_def)
qed

text \<open>
  C30: a newer check stops the retries of its monitor. When a call of Reconcile finds a check due, or
  its monitor gone, every retry that was pending before it has ended when it returns: what is pending
  then was queued by this very call.
\<close>

theorem newer_check_ends_older_retries:
  assumes "op_reachable r s" "rc_retries r = Some (tries, delay)" "api_names r"
    and "case kb_get (rc_kube r) nn (op_world s) of
           Inl e \<Rightarrow> e = NotFound
         | Inr m \<Rightarrow> 1 \<le> sp_interval (mo_spec m) \<and> sp_interval (mo_spec m) \<le> MaxCheckInterval
             \<and> is_due m (kb_now (rc_kube r) (op_world s))"
  shows "list_all (\<lambda>run. op_next s \<le> ar_id run) (pending_of (snd (Reconcile r late nn s)) nn)"
proof -
  note ok = operator_ok_reachable [OF assms(1-3)]
  obtain b s1 where st: "Stop r late nn s = (b, s1)" by fastforce
  have "only_newer s1 (op_next s) nn"
    using operator_ok_Stop(2) [OF assms(2) ok, where nn = nn and late = late] Stop_next [OF assms(2) ok, of late nn] st
    by (simp add: only_newer_def)
  then have chk: "only_newer (snd (check_monitor r interval m now s1)) (op_next s) nn" for interval m now
    by (rule only_newer_check)
  with \<open>only_newer s1 (op_next s) nn\<close> have "only_newer (snd (Reconcile r late nn s)) (op_next s) nn"
    using assms(4) st by (auto simp: Reconcile_def Let_def split: sum.splits get_error.splits bool.splits)
  then show ?thesis by (simp add: only_newer_def)
qed

section \<open>A monitor is always checked again\<close>

lemma check_interval_bounds:
  assumes "1 \<le> sp_interval (mo_spec m)" "sp_interval (mo_spec m) \<le> MaxCheckInterval"
  shows "check_interval m = sp_interval (mo_spec m) * second" "0 < check_interval m" "check_interval m \<le> MaxCheckInterval * second"
proof -
  have b: "1000000000 \<le> sp_interval (mo_spec m) * 1000000000" "sp_interval (mo_spec m) * 1000000000 \<le> 31536000 * 1000000000"
    using assms by (simp_all add: MaxCheckInterval_def)
  then have "in_int64 (sp_interval (mo_spec m) * second)"
    by (simp add: in_int64_def min_int64_def max_int64_def second_def)
  then show e: "check_interval m = sp_interval (mo_spec m) * second" by (simp add: check_interval_def)
  show "0 < check_interval m" "check_interval m \<le> MaxCheckInterval * second"
    using b by (simp_all add: e second_def MaxCheckInterval_def)
qed

lemma report_check_result: "fst (report_check r interval m ns vals now s) = Inr d \<Longrightarrow> d = interval"
  by (auto simp: report_check_def split: prod.splits sum.splits option.splits)

lemma check_monitor_result:
  "fst (check_monitor r interval m now s) = Inr d \<Longrightarrow> d = interval \<or> d = min interval setupRetry"
  using report_check_result by (fastforce simp: check_monitor_def Let_def split: sum.splits prod.splits)

text \<open>
  C31: no monitor is forgotten. For a monitor with a valid interval, a call of Reconcile ends in an
  error, which has it called again, or asks to be called again after a positive time: at most the monitor's
  interval after this call, or, where the recorded check lies ahead of the clock, at most the interval after
  that check. It stops asking only if it found a check due, had a retry to stop or a write of its own to
  wait for, and the API server, read after that, says that the monitor is gone.
\<close>

theorem monitor_is_checked_again:
  assumes "kb_get (rc_kube r) nn (op_world s) = Inr m"
    and "1 \<le> sp_interval (mo_spec m)" "sp_interval (mo_spec m) \<le> MaxCheckInterval"
    and "fst (Reconcile r late nn s) = Inr d" "now = kb_now (rc_kube r) (op_world s)"
  shows "0 < d \<and> d \<le> max 0 (ms_checked (mo_status m) - now) + sp_interval (mo_spec m) * second
    \<or> d = 0 \<and> is_due m now \<and> fst (Stop r late nn s) \<and> reader r nn (op_world (snd (Stop r late nn s))) = Inl NotFound"
proof -
  note i = check_interval_bounds [OF assms(2,3)]
  have min: "0 < min (check_interval m) setupRetry \<and> min (check_interval m) setupRetry \<le> check_interval m"
    using i(2) by (auto simp: setupRetry_def second_def)
  have later: "0 < time_sub (next_check m) now \<and> time_sub (next_check m) now \<le> next_check m - now" if "now < next_check m"
    using that by (auto simp: time_sub_def min_int64_def max_int64_def)
  have chk: "fst (check_monitor r (check_interval m) m' t s1) = Inr d \<Longrightarrow> 0 < d \<and> d \<le> check_interval m" for m' t s1
    using check_monitor_result [of r "check_interval m" m' t s1 d] i(2) min by auto
  obtain b s1 where st: "Stop r late nn s = (b, s1)" by fastforce
  show ?thesis
  proof (cases "is_due m now")
    case False
    then have "d = time_sub (next_check m) now" "now < next_check m"
      using assms by (auto simp: Reconcile_def is_due_def)
    with later i show ?thesis by (auto simp: next_check_def)
  next
    case True
    then have "0 < d \<and> d \<le> check_interval m \<or> d = 0 \<and> b \<and> reader r nn (op_world s1) = Inl NotFound"
      using assms st by (auto simp: Reconcile_def Let_def dest!: chk split: bool.splits sum.splits get_error.splits)
    with True st i(1) show ?thesis by auto
  qed
qed

end
