(* ===== verification/Operator_Examples.thy ===== *)
theory Operator_Examples
  imports Operator_Schedule
begin


text \<open>
  Concrete runs of the operator: a small cluster with its monitors, drivers and notifiers, on which the
  properties of the controller and of the retries are applied.
\<close>
section \<open>A small cluster\<close>

text \<open>
  Monitors by name, the time, and a log of alerts and events. The status of a monitor is updated as
  the API server does it: a stale version is a conflict, and times lose their fractions.
\<close>

record demo =
  dm_monitors :: "(name, monitor) gomap"
  dm_now :: time
  dm_log :: "string list"

definition demo_get :: "name \<Rightarrow> demo \<Rightarrow> get_error + monitor" where
  "demo_get nn w = (case map_of (dm_monitors w) nn of None \<Rightarrow> Inl NotFound | Some m \<Rightarrow> Inr (m\<lparr>mo_key := nn\<rparr>))"

definition demo_update :: "monitor \<Rightarrow> demo \<Rightarrow> update_error option \<times> monitor \<times> demo" where
  "demo_update m w =
     (case map_of (dm_monitors w) (mo_key m) of
        None \<Rightarrow> (Some (UpdateFailed ''not found''), m, w)
      | Some old \<Rightarrow>
          (if mo_version old \<noteq> mo_version m then (Some Conflict, m, w)
           else let m' = m\<lparr>mo_version := mo_version m + 1, mo_status := stored_status (mo_status m)\<rparr>
             in (None, m', w\<lparr>dm_monitors := map_put (mo_key m) m' (dm_monitors w)\<rparr>)))"

definition demo_note :: "string \<Rightarrow> demo \<Rightarrow> demo" where
  "demo_note t w = w\<lparr>dm_log := t # dm_log w\<rparr>"

definition demo_kube :: "demo kube" where
  "demo_kube = \<lparr>kb_get = demo_get, kb_api_reader = None, kb_update = demo_update,
     kb_event = (\<lambda>m reason t. demo_note t), kb_now = dm_now, kb_wait = (\<lambda>d w. w\<lparr>dm_now := dm_now w + d\<rparr>)\<rparr>"

definition demo_driver :: "demo driver" where
  "demo_driver = \<lparr>dv_check = (\<lambda>w. (Inr \<lparr>cr_success = False, cr_time = 12000000, cr_error = Some ''refused'',
     cr_message = ''refused''\<rparr>, w)), dv_endpoint = ''db:5432'', dv_type = ''tcp''\<rparr>"

definition demo_hook :: "alert_error option \<Rightarrow> demo notifier" where
  "demo_hook answer status vals w = (answer, demo_note status w)"

definition demo_reconciler :: "alert_error option \<Rightarrow> demo reconciler" where
  "demo_reconciler answer = \<lparr>rc_kube = demo_kube, rc_retries = Some NewAlertRetries,
     rc_new_driver = (\<lambda>m w. Inr demo_driver), rc_new_notifier = (\<lambda>cfg. Inr [(''webhook'', demo_hook answer)]),
     rc_display = id, rc_time_text = (\<lambda>t. itoa (unix t)), rc_duration_text = (\<lambda>d. itoa d)\<rparr>"

definition demo_spec :: monitor_spec where
  "demo_spec = \<lparr>sp_driver = ''tcp'', sp_endpoint = ''db:5432'', sp_interval = 60,
     sp_notify = \<lparr>nc_slack = None, nc_email = None, nc_discord = None, nc_webhook = None, nc_valkey = None\<rparr>,
     sp_http = None, sp_http_json = None, sp_smtp = None, sp_redis = None, sp_tls = None, sp_dns = None,
     sp_mysql = None, sp_postgres = None, sp_mongodb = None, sp_scylladb = None, sp_families = []\<rparr>"

definition demo_key :: name where
  "demo_key = (''ns'', ''db'')"

definition demo_monitor :: monitor where
  "demo_monitor = \<lparr>mo_key = demo_key, mo_generation = 1, mo_version = 7, mo_spec = demo_spec,
     mo_status = \<lparr>ms_checked = 100 * nsec, ms_status = ''success'', ms_since = 40 * nsec,
       ms_notified = Some ''success'', ms_notified_since = 40 * nsec, ms_generation = 1\<rparr>\<rparr>"

definition demo_world :: demo where
  "demo_world = \<lparr>dm_monitors = [(demo_key, demo_monitor)], dm_now = 200 * nsec + 5, dm_log = []\<rparr>"

definition demo_start :: "demo operator" where
  "demo_start = \<lparr>op_world = demo_world, op_pending = [], op_wrote = [], op_next = 0\<rparr>"

definition demo_view :: "demo \<Rightarrow> name \<Rightarrow> monitor option" where
  "demo_view w = map_of (dm_monitors w)"

lemma demo_contract: "api_contract (demo_reconciler answer) demo_view"
  by (auto simp: api_contract_def demo_reconciler_def demo_kube_def demo_update_def demo_view_def demo_note_def Let_def
      map_of_put split: option.splits if_splits)

lemma demo_quiet: "notifiers_quiet [(''webhook'', demo_hook answer)] demo_view"
  by (simp add: notifiers_quiet_def demo_hook_def demo_view_def demo_note_def)

lemma demo_names: "api_names (demo_reconciler answer)"
  by (auto simp: api_names_def demo_reconciler_def demo_kube_def demo_get_def demo_update_def reader_def Let_def
      split: option.splits if_splits)

lemma demo_limit: "rc_retries (demo_reconciler answer) = Some (5, 30 * second)"
  by (simp add: demo_reconciler_def NewAlertRetries_def)

section \<open>Witnesses\<close>

definition demo_values :: notice_values where
  "demo_values = check_values (demo_reconciler None) demo_monitor demo_driver
     \<lparr>cr_success = False, cr_time = 12000000, cr_error = Some ''refused'', cr_message = ''refused''\<rparr> (200 * nsec + 5)"

definition demo_report :: "alert_error option \<Rightarrow> duration result \<times> demo operator" where
  "demo_report answer = report_check (demo_reconciler answer) 60000000000 demo_monitor [(''webhook'', demo_hook answer)]
     demo_values (200 * nsec + 5) demo_start"

text \<open>A change from success to failure whose alert the webhook takes is announced; a refused one stays owed.\<close>

theorem change_stays_owed_witness:
  "\<exists>m1 m2. demo_view (op_world (snd (demo_report None))) demo_key = Some m1
    \<and> lg_notified (ledger_of (mo_status m1)) = ''failure''
    \<and> demo_view (op_world (snd (demo_report (Some (Permanent ''no''))))) demo_key = Some m2
    \<and> lg_notified (ledger_of (mo_status m2)) = ''success'' \<and> lg_status (ledger_of (mo_status m2)) = ''failure''"
proof -
  let ?t = "\<lambda>a. change_taken (demo_reconciler a) demo_monitor [(''webhook'', demo_hook a)] demo_values (200 * nsec + 5) demo_start"
  have d: "fst (demo_report None) = Inr 60000000000" "fst (demo_report (Some (Permanent ''no''))) = Inr 60000000000"
    by code_simp+
  have t: "change_due demo_monitor demo_values" "?t None" "\<not> ?t (Some (Permanent ''no''))" by code_simp+
  have v: "nv_status demo_values = ''failure''" "lg_status (ledger_of (mo_status demo_monitor)) = ''success''"
    "lg_notified (ledger_of (mo_status demo_monitor)) = ''success''" "mo_key demo_monitor = demo_key" by code_simp+
  have r: "report_check (demo_reconciler None) 60000000000 demo_monitor [(''webhook'', demo_hook None)] demo_values
      (200 * nsec + 5) demo_start = (Inr 60000000000, snd (demo_report None))"
    "report_check (demo_reconciler (Some (Permanent ''no''))) 60000000000 demo_monitor
      [(''webhook'', demo_hook (Some (Permanent ''no'')))] demo_values (200 * nsec + 5) demo_start
      = (Inr 60000000000, snd (demo_report (Some (Permanent ''no''))))"
    using d by (simp_all add: demo_report_def [symmetric] prod_eq_iff)
  show ?thesis
    using change_stays_owed [OF demo_contract demo_quiet r(1)] change_stays_owed [OF demo_contract demo_quiet r(2)] t v
    by (auto simp: Let_def ledger_check_def ledger_announce_def)
qed

definition demo_run :: "demo alert_run" where
  "demo_run = \<lparr>ar_id = 3, ar_key = demo_key, ar_monitor = demo_monitor, ar_name = ''webhook'',
     ar_notifier = demo_hook (Some (Retryable ''503'')), ar_alert = ''failure'', ar_values = demo_values,
     ar_change = None, ar_error = Retryable ''503'', ar_try = 2\<rparr>"

text \<open>A webhook that never answers is tried four more times; then an event says so.\<close>

theorem failed_alert_is_settled_witness:
  "ended_well (demo_reconciler None) demo_run (finish_run (demo_reconciler None) 9 demo_run demo_start)
    \<and> finish_run (demo_reconciler None) 9 demo_run demo_start = finish_run (demo_reconciler None) 4 demo_run demo_start
    \<and> length (dm_log (op_world (snd (finish_run (demo_reconciler None) 4 demo_run demo_start)))) = 5"
proof -
  have "length (dm_log (op_world (snd (finish_run (demo_reconciler None) 4 demo_run demo_start)))) = 5" by code_simp
  moreover have "ar_try demo_run = 2" by (simp add: demo_run_def)
  ultimately show ?thesis
    using failed_alert_is_settled [OF demo_limit, of demo_run None 9 demo_start]
      failed_alert_is_settled [OF demo_limit, of demo_run None 5 demo_start] by simp
qed

definition demo_failures :: "demo send_error" where
  "demo_failures =
     [\<lparr>af_name = ''slack'', af_error = Permanent ''410'', af_notifier = Some (demo_hook None)\<rparr>,
      \<lparr>af_name = ''webhook'', af_error = Retryable ''503'', af_notifier = Some (demo_hook None)\<rparr>]"

theorem failures_are_accounted_for_witness:
  "map ar_name (pending_of (snd (queueRetries (demo_reconciler None) demo_monitor ''change'' demo_values demo_failures
      (Some \<lparr>an_status = ''failure'', an_since = 0\<rparr>) demo_start)) demo_key) = [''webhook'']
   \<and> list_all (\<lambda>run. ar_change run = None) (pending_of (snd (queueRetries (demo_reconciler None) demo_monitor ''change''
      demo_values demo_failures (Some \<lparr>an_status = ''failure'', an_since = 0\<rparr>) demo_start)) demo_key)"
proof -
  have s: "pending_of demo_start demo_key = []" "mo_key demo_monitor = demo_key"
    "map af_name (filter is_temporary demo_failures) = [''webhook'']" "length demo_failures = 2" by code_simp+
  obtain rest s' where q: "queueRetries (demo_reconciler None) demo_monitor ''change'' demo_values demo_failures
      (Some \<lparr>an_status = ''failure'', an_since = 0\<rparr>) demo_start = (rest, s')" by fastforce
  show ?thesis
    using failures_are_accounted_for [OF demo_limit _ q] s q by (auto simp: list_all_iff)
qed

text \<open>After one call with a webhook out of order, its two alerts are pending; the second records the change.\<close>

definition demo_broken :: "demo reconciler" where
  "demo_broken = demo_reconciler (Some (Retryable ''503''))"

definition demo_after :: "demo operator" where
  "demo_after = snd (Reconcile demo_broken (\<lambda>_. 0) demo_key demo_start)"

lemma demo_after_reachable: "op_reachable demo_broken demo_after"
  unfolding demo_after_def demo_start_def by (rule op_reachable.step [OF op_reachable.start op_step.reconcile])

lemma demo_after_pending: "length (pending_of demo_after demo_key) = 2"
  by code_simp

theorem retries_stay_bounded_witness:
  "length (pending_of demo_after demo_key) = 2
    \<and> list_all (\<lambda>run. ar_key run = demo_key \<and> 2 \<le> ar_try run \<and> ar_try run \<le> 5) (pending_of demo_after demo_key)"
  using retries_stay_bounded [OF demo_after_reachable [unfolded demo_broken_def] demo_limit demo_names, of demo_key]
    demo_after_pending by simp

text \<open>The monitor is deleted: its two retries end with the next call.\<close>

definition demo_deleted :: "demo operator" where
  "demo_deleted = demo_after\<lparr>op_world := demo_world\<lparr>dm_monitors := []\<rparr>\<rparr>"

theorem newer_check_ends_older_retries_witness:
  "length (pending_of demo_deleted demo_key) = 2
    \<and> list_all (\<lambda>run. 2 \<le> ar_id run) (pending_of (snd (Reconcile demo_broken (\<lambda>_. 0) demo_key demo_deleted)) demo_key)"
proof -
  have r: "op_reachable demo_broken demo_deleted"
    unfolding demo_deleted_def by (rule op_reachable.step [OF demo_after_reachable op_step.outside])
  have g: "kb_get (rc_kube demo_broken) demo_key (op_world demo_deleted) = Inl NotFound"
    by (simp add: demo_deleted_def demo_world_def demo_broken_def demo_reconciler_def demo_kube_def demo_get_def)
  have n: "op_next demo_deleted = 2" "length (pending_of demo_deleted demo_key) = 2" by code_simp+
  show ?thesis
    using newer_check_ends_older_retries [OF r demo_limit [of "Some (Retryable ''503'')", folded demo_broken_def]
        demo_names [of "Some (Retryable ''503'')", folded demo_broken_def], of demo_key "\<lambda>_. 0"] g n
    by simp
qed

text \<open>
  A monitor that is due is checked again within its minute; one that was checked two minutes ahead of the
  clock, a minute after that check.
\<close>

definition demo_ahead :: "demo operator" where
  "demo_ahead = demo_start\<lparr>op_world := demo_world\<lparr>dm_monitors :=
     [(demo_key, demo_monitor\<lparr>mo_status := (mo_status demo_monitor)\<lparr>ms_checked := 320 * nsec + 5\<rparr>\<rparr>)]\<rparr>\<rparr>"

theorem monitor_is_checked_again_witness:
  "(\<exists>d. fst (Reconcile demo_broken (\<lambda>_. 0) demo_key demo_start) = Inr d \<and> 0 < d \<and> d \<le> 60 * second)
   \<and> (\<exists>d. fst (Reconcile demo_broken (\<lambda>_. 0) demo_key demo_ahead) = Inr d \<and> 60 * second < d \<and> d \<le> 180 * second)"
proof -
  have f: "fst (Reconcile demo_broken (\<lambda>_. 0) demo_key demo_start) = Inr 60000000000"
    "fst (Reconcile demo_broken (\<lambda>_. 0) demo_key demo_ahead) = Inr 180000000000" by code_simp+
  have g: "kb_get (rc_kube demo_broken) demo_key (op_world demo_start) = Inr demo_monitor"
    "kb_now (rc_kube demo_broken) (op_world demo_start) = 200 * nsec + 5"
    by (simp_all add: demo_start_def demo_world_def demo_broken_def demo_reconciler_def demo_kube_def demo_get_def demo_monitor_def)
  let ?ahead = "demo_monitor\<lparr>mo_status := (mo_status demo_monitor)\<lparr>ms_checked := 320 * nsec + 5\<rparr>\<rparr>"
  have h: "kb_get (rc_kube demo_broken) demo_key (op_world demo_ahead) = Inr ?ahead"
    "kb_now (rc_kube demo_broken) (op_world demo_ahead) = 200 * nsec + 5"
    by (simp_all add: demo_ahead_def demo_start_def demo_world_def demo_broken_def demo_reconciler_def demo_kube_def demo_get_def demo_monitor_def)
  have m: "sp_interval (mo_spec demo_monitor) = 60" "ms_checked (mo_status demo_monitor) = 100 * nsec"
    by (simp_all add: demo_monitor_def demo_spec_def)
  show ?thesis
    using monitor_is_checked_again [OF g(1) _ _ f(1) refl] monitor_is_checked_again [OF h(1) _ _ f(2) refl] f g(2) h(2) m
    by (auto simp: MaxCheckInterval_def nsec_def second_def)
qed

definition demo_readonly :: "demo reconciler" where
  "demo_readonly = demo_broken\<lparr>rc_kube := demo_kube\<lparr>kb_update := \<lambda>m w. (Some Conflict, m, w)\<rparr>\<rparr>"

theorem unsaved_status_tells_nobody_witness:
  "Reconcile (demo_readonly\<lparr>rc_new_notifier := \<lambda>cfg. Inr []\<rparr>) (\<lambda>_. 0) demo_key demo_start
    = Reconcile demo_readonly (\<lambda>_. 0) demo_key demo_start
   \<and> (\<exists>w. Reconcile demo_readonly (\<lambda>_. 0) demo_key demo_start = (Inl ''conflict'', demo_start\<lparr>op_world := w\<rparr>))"
proof -
  have u: "fst (kb_update (rc_kube demo_readonly) m w) \<noteq> None" for m w by (simp add: demo_readonly_def)
  have n: "case rc_new_notifier demo_readonly cfg of Inl e \<Rightarrow> (\<lambda>cfg. Inr []) cfg = Inl e | Inr _ \<Rightarrow> \<exists>ns. (\<lambda>cfg. Inr []) cfg = Inr ns" for cfg
    by (simp add: demo_readonly_def demo_broken_def demo_reconciler_def)
  note p = unsaved_status_tells_nobody [OF u n, of "\<lambda>_. 0" demo_key demo_start]
  let ?res = "\<lparr>cr_success = False, cr_time = 12000000, cr_error = Some ''refused'', cr_message = ''refused''\<rparr>"
  have k: "kb_get (rc_kube demo_readonly) demo_key demo_world = Inr demo_monitor" "kb_now (rc_kube demo_readonly) demo_world = 200 * nsec + 5"
    by (simp_all add: demo_readonly_def demo_world_def demo_kube_def demo_get_def demo_monitor_def)
  have d: "is_due demo_monitor (200 * nsec + 5)" "1 \<le> sp_interval (mo_spec demo_monitor)"
    "sp_interval (mo_spec demo_monitor) \<le> MaxCheckInterval" by code_simp+
  have st: "Stop demo_readonly (\<lambda>_. 0) demo_key demo_start = (False, demo_start)"
    by (simp add: Stop_def demo_readonly_def demo_broken_def demo_reconciler_def demo_start_def get_or_def)
  have c: "rc_new_driver demo_readonly demo_monitor demo_world = Inr demo_driver"
    "rc_new_notifier demo_readonly (sp_notify (mo_spec demo_monitor)) = Inr [(''webhook'', demo_hook (Some (Retryable ''503'')))]"
    "dv_check demo_driver demo_world = (Inr ?res, demo_world)" "op_world demo_start = demo_world"
    by (simp_all add: demo_readonly_def demo_broken_def demo_reconciler_def demo_driver_def demo_start_def)
  let ?m = "demo_monitor\<lparr>mo_status := check_status demo_monitor ''failure'' (200 * nsec + 5)\<rparr>"
  have up: "kb_update (rc_kube demo_readonly) ?m demo_world = (Some Conflict, ?m, demo_world)" by (simp add: demo_readonly_def)
  note q = conjunct2 [OF p, THEN spec [where x = demo_monitor], THEN spec [where x = demo_monitor], THEN spec [where x = False],
      THEN spec [where x = demo_start], THEN spec [where x = demo_driver],
      THEN spec [where x = "[(''webhook'', demo_hook (Some (Retryable ''503'')))]"], THEN spec [where x = ?res],
      THEN spec [where x = demo_world], THEN spec [where x = Conflict], THEN spec [where x = ?m], THEN spec [where x = demo_world]]
  have "Reconcile demo_readonly (\<lambda>_. 0) demo_key demo_start = (Inl (update_text Conflict), demo_start\<lparr>op_world := demo_world\<rparr>)"
    by (rule q [THEN mp]) (use k d st c up in simp)
  then show ?thesis using conjunct1 [OF p] by (auto simp: update_text_def)
qed

end
