(* ===== verification/Go_Addr.thy ===== *)
theory Go_Addr
  imports Go_Strings
begin

text \<open>
  IP addresses as \<^verbatim>\<open>net/netip\<close> parses them, for \<^verbatim>\<open>internal/driver/family.go\<close> and the DNS driver. An address
  is its fields: four bytes, or eight 16-bit groups and a zone.
\<close>

datatype ip = V4 "int list" | V6 "int list" string

section \<open>Fields\<close>

definition dec_field4 :: "string \<Rightarrow> int option" where
  "dec_field4 s =
     (if s = [] \<or> \<not> list_all is_digit s \<or> 3 < length s \<or> 1 < length s \<and> hd s = CHR ''0'' \<or> 255 < digits_val s
      then None else Some (digits_val s))"

definition parse_ip4_fields :: "string \<Rightarrow> int list option" where
  "parse_ip4_fields s =
     (let parts = split_byte (CHR ''.'') s
      in if length parts \<noteq> 4 then None else those (map dec_field4 parts))"

definition hex_val :: "char \<Rightarrow> int option" where
  "hex_val c =
     (let n = of_char c :: int
      in if 48 \<le> n \<and> n \<le> 57 then Some (n - 48) else if 97 \<le> n \<and> n \<le> 102 then Some (n - 87)
         else if 65 \<le> n \<and> n \<le> 70 then Some (n - 55) else None)"

definition hex_text_val :: "string \<Rightarrow> int" where
  "hex_text_val s = foldl (\<lambda>acc c. 16 * acc + the (hex_val c)) 0 s"

definition is_hex :: "char \<Rightarrow> bool" where
  "is_hex c \<longleftrightarrow> hex_val c \<noteq> None"

section \<open>IPv6\<close>

text \<open>
  The loop of \<^verbatim>\<open>parseIPv6\<close>: the groups read so far, the place of the ellipsis if there was one, and the
  rest of the text. A group takes at most four hexadecimal digits; four bytes may stand for the last
  two groups.
\<close>

fun read_groups :: "nat \<Rightarrow> int list \<Rightarrow> nat option \<Rightarrow> string \<Rightarrow> (int list \<times> nat option) option" where
  "read_groups 0 gs dots s = (if s = [] then Some (gs, dots) else None)"
| "read_groups (Suc left) gs dots s =
     (let digits = takeWhile is_hex s; rest = dropWhile is_hex s in
      if digits = [] \<or> 4 < length digits then None
      else if rest \<noteq> [] \<and> hd rest = CHR ''.'' then
        (if dots = None \<and> length gs \<noteq> 6 \<or> 6 < length gs then None
         else case parse_ip4_fields s of
           Some [a, b, c, d] \<Rightarrow> Some (gs @ [256 * a + b, 256 * c + d], dots)
         | _ \<Rightarrow> None)
      else
        (let gs' = gs @ [hex_text_val digits] in
         case rest of
           [] \<Rightarrow> Some (gs', dots)
         | [c] \<Rightarrow> None
         | c # c2 # rest' \<Rightarrow>
             (if c \<noteq> CHR '':'' then None
              else if c2 = CHR '':'' then
                (if dots \<noteq> None then None
                 else if rest' = [] then Some (gs', Some (length gs'))
                 else read_groups left gs' (Some (length gs')) rest')
              else read_groups left gs' dots (c2 # rest'))))"

definition expand_groups :: "int list \<Rightarrow> nat option \<Rightarrow> int list option" where
  "expand_groups gs dots =
     (case dots of
        None \<Rightarrow> if length gs = 8 then Some gs else None
      | Some k \<Rightarrow> if length gs < 8 then Some (take k gs @ replicate (8 - length gs) 0 @ drop k gs) else None)"

definition parse_ip6 :: "string \<Rightarrow> ip option" where
  "parse_ip6 s =
     (let addr = takeWhile (\<lambda>c. c \<noteq> CHR ''%'') s; zone = drop (Suc (length addr)) s in
      if CHR ''%'' \<in> set s \<and> zone = [] then None
      else case (if take 2 addr = ''::'' then (if length addr = 2 then Some ([], Some 0) else read_groups 8 [] (Some 0) (drop 2 addr))
                 else read_groups 8 [] None addr) of
        None \<Rightarrow> None
      | Some (gs, dots) \<Rightarrow> map_option (\<lambda>groups. V6 groups zone) (expand_groups gs dots))"

text \<open>The first dot, colon or percent sign decides.\<close>

definition ParseAddr :: "string \<Rightarrow> ip option" where
  "ParseAddr s =
     (case List.find (\<lambda>c. c = CHR ''.'' \<or> c = CHR '':'' \<or> c = CHR ''%'') s of
        Some c \<Rightarrow>
          (if c = CHR ''.'' then map_option V4 (parse_ip4_fields s)
           else if c = CHR '':'' then parse_ip6 s else None)
      | None \<Rightarrow> None)"

section \<open>Kinds\<close>

definition is_4in6 :: "ip \<Rightarrow> bool" where
  "is_4in6 a = (case a of V6 gs z \<Rightarrow> take 6 gs = [0, 0, 0, 0, 0, 65535] | V4 _ \<Rightarrow> False)"

definition is_4 :: "ip \<Rightarrow> bool" where
  "is_4 a = (case a of V4 _ \<Rightarrow> True | V6 _ _ \<Rightarrow> False)"

definition unmap :: "ip \<Rightarrow> ip" where
  "unmap a =
     (case a of
        V4 bs \<Rightarrow> V4 bs
      | V6 gs z \<Rightarrow> if is_4in6 a then V4 [gs ! 6 div 256, gs ! 6 mod 256, gs ! 7 div 256, gs ! 7 mod 256] else V6 gs z)"

text \<open>\<^verbatim>\<open>net.ParseIP\<close> refuses zones; \<^verbatim>\<open>net.IP.Equal\<close> takes an IPv4 address and its IPv6 form as one.\<close>

definition ParseIP :: "string \<Rightarrow> ip option" where
  "ParseIP s = (case ParseAddr s of Some (V6 gs z) \<Rightarrow> if z = [] then Some (V6 gs z) else None | r \<Rightarrow> r)"

definition ip_equal :: "ip \<Rightarrow> ip option \<Rightarrow> bool" where
  "ip_equal a b = (case b of None \<Rightarrow> False | Some b \<Rightarrow> unmap a = unmap b)"

lemma parse_examples:
  "ParseAddr ''10.0.0.1'' = Some (V4 [10, 0, 0, 1])" "ParseAddr ''10.0.0.01'' = None"
  "ParseAddr ''fe80::1%eth0'' = Some (V6 [65152, 0, 0, 0, 0, 0, 0, 1] ''eth0'')"
  "map_option unmap (ParseAddr ''::ffff:10.0.0.1'') = Some (V4 [10, 0, 0, 1])"
  "ParseAddr ''1::2::3'' = None" "ParseAddr ''::'' = Some (V6 [0, 0, 0, 0, 0, 0, 0, 0] [])"
  by code_simp+

end
