(* ===== verification/Go_Regexp.thy ===== *)
theory Go_Regexp
  imports Go_Strings
begin

text \<open>
  Regular expressions of Go's \<^verbatim>\<open>regexp\<close> package as the program uses them: matching from the left, the
  first of the alternatives and the longest repetition preferred, one capturing group. The class of a
  character is a predicate on bytes.
\<close>

datatype re = Empty | Class "char \<Rightarrow> bool" | Seq re re | Alt re re | Star re | Group re | Boundary

text \<open>
  The ways an expression matches at a place, the preferred one first: the text it takes and the text of its
  group. The place is the byte before it, if any, and the rest of the text.
\<close>

type_synonym outcomes = "(string \<times> string option) list"

definition is_word :: "char \<Rightarrow> bool" where
  "is_word c \<longleftrightarrow> is_digit c \<or> c = CHR ''_'' \<or> (let n = of_char c :: nat in 65 \<le> n \<and> n \<le> 90 \<or> 97 \<le> n \<and> n \<le> 122)"

definition word_at :: "char option \<Rightarrow> bool" where
  "word_at c = (case c of None \<Rightarrow> False | Some c \<Rightarrow> is_word c)"

definition first_of :: "string \<Rightarrow> char option" where
  "first_of s = (case s of [] \<Rightarrow> None | c # _ \<Rightarrow> Some c)"

definition after :: "char option \<Rightarrow> string \<Rightarrow> char option" where
  "after p t = (if t = [] then p else Some (last t))"

definition followed :: "(char option \<Rightarrow> string \<Rightarrow> outcomes) \<Rightarrow> char option \<Rightarrow> string \<Rightarrow> string \<times> string option \<Rightarrow> outcomes" where
  "followed m p s x =
     map (\<lambda>(u, d). (fst x @ u, if d = None then snd x else d)) (m (after p (fst x)) (drop (length (fst x)) s))"

primrec repeated :: "nat \<Rightarrow> (char option \<Rightarrow> string \<Rightarrow> outcomes) \<Rightarrow> char option \<Rightarrow> string \<Rightarrow> outcomes" where
  "repeated 0 m p s = [([], None)]"
| "repeated (Suc n) m p s =
     concat (map (\<lambda>x. if fst x = [] then [] else followed (repeated n m) p s x) (m p s)) @ [([], None)]"

primrec matches :: "re \<Rightarrow> char option \<Rightarrow> string \<Rightarrow> outcomes" where
  "matches Empty p s = [([], None)]"
| "matches (Class f) p s = (case s of [] \<Rightarrow> [] | c # _ \<Rightarrow> if f c then [([c], None)] else [])"
| "matches (Seq a b) p s = concat (map (followed (matches b) p s) (matches a p s))"
| "matches (Alt a b) p s = matches a p s @ matches b p s"
| "matches (Star a) p s = repeated (length s) (matches a) p s"
| "matches (Group a) p s = map (\<lambda>(t, _). (t, Some t)) (matches a p s)"
| "matches Boundary p s = (if word_at p \<noteq> word_at (first_of s) then [([], None)] else [])"

text \<open>\<^verbatim>\<open>ReplaceAllString\<close>, for expressions that never match the empty text; the replacement depends on the group.\<close>

function replace_all :: "re \<Rightarrow> (string \<Rightarrow> string) \<Rightarrow> char option \<Rightarrow> string \<Rightarrow> string" where
  "replace_all r f p [] = []"
| "replace_all r f p (c # cs) =
     (case matches r p (c # cs) of
        [] \<Rightarrow> c # replace_all r f (Some c) cs
      | (t, g) # _ \<Rightarrow>
          (if t = [] then c # replace_all r f (Some c) cs
           else f (case g of Some s \<Rightarrow> s | None \<Rightarrow> []) @ replace_all r f (after p t) (drop (length t) (c # cs))))"
  by pat_completeness auto
termination by (relation "measure (\<lambda>(r, f, p, s). length s)") (auto simp: length_Cons neq_Nil_conv)

declare replace_all.simps(2) [simp del]

section \<open>Abbreviations of the syntax\<close>

fun lit :: "string \<Rightarrow> re" where
  "lit [] = Empty"
| "lit (c # cs) = Seq (Class (\<lambda>x. x = c)) (lit cs)"

definition seq_of :: "re list \<Rightarrow> re" where
  "seq_of rs = foldr Seq rs Empty"

fun any_of :: "re list \<Rightarrow> re" where
  "any_of [r] = r"
| "any_of (r # rs) = Alt r (any_of rs)"
| "any_of [] = Alt Empty Empty"

definition plus :: "re \<Rightarrow> re" where "plus r = Seq r (Star r)"
definition maybe :: "re \<Rightarrow> re" where "maybe r = Alt r Empty"
definition none_of :: "string \<Rightarrow> char \<Rightarrow> bool" where "none_of s c \<longleftrightarrow> c \<notin> set s"
definition is_alpha :: "char \<Rightarrow> bool" where "is_alpha c \<longleftrightarrow> is_word c \<and> \<not> is_digit c \<and> c \<noteq> CHR ''_''"

definition white :: string where "white = [CHR 0x09, CHR 0x0A, CHR 0x0C, CHR 0x0D, CHR '' '']"

section \<open>Laws\<close>

lemma matches_lit: "matches (lit w) p (w @ s) = [(w, None)]"
  by (induction w arbitrary: p) (simp_all add: followed_def)

lemma matches_lit_none: "take (length w) s \<noteq> w \<Longrightarrow> matches (lit w) p s = []"
proof (induction w arbitrary: p s)
  case (Cons c w)
  then show ?case by (cases s) (auto simp: followed_def)
qed simp

lemma followed_none: "followed (\<lambda>p s. [([], None)]) p s x = [x]"
  by (cases x) (simp add: followed_def)

text \<open>A repeated class takes as much as it can, then one byte less, and so on.\<close>

definition class_prefixes :: "string \<Rightarrow> outcomes" where
  "class_prefixes w = map (\<lambda>k. (take k w, None)) (rev [0..<Suc (length w)])"

lemma class_prefixes_simps:
  "class_prefixes [] = [([], None)]"
  "class_prefixes (c # w) = map (\<lambda>(t, d). (c # t, d)) (class_prefixes w) @ [([], None)]"
proof -
  have "[0..<Suc (Suc k)] = 0 # map Suc [0..<Suc k]" for k
    by (metis map_Suc_upt upt_conv_Cons zero_less_Suc)
  then have "rev [0..<Suc (length (c # w))] = map Suc (rev [0..<Suc (length w)]) @ [0]"
    by (simp only: length_Cons rev.simps(2) rev_map)
  then show "class_prefixes (c # w) = map (\<lambda>(t, d). (c # t, d)) (class_prefixes w) @ [([], None)]"
    unfolding class_prefixes_def by (simp only: map_append map_map comp_def list.map take_Suc_Cons take_0 prod.case)
qed (simp add: class_prefixes_def)

lemma repeated_class:
  assumes m: "\<And>p s. m p s = (case s of [] \<Rightarrow> [] | c # _ \<Rightarrow> if f c then [([c], None)] else [])"
    and "list_all f w" "s = [] \<or> \<not> f (hd s)" "length (w @ s) \<le> n"
  shows "repeated n m p (w @ s) = class_prefixes w"
  using assms(2-)
proof (induction w arbitrary: n p)
  case Nil
  then show ?case by (cases n; cases s) (auto simp: m class_prefixes_simps)
next
  case (Cons c w)
  then obtain k where k: "n = Suc k" "length (w @ s) \<le> k" by (cases n) auto
  with Cons have "repeated k m (Some c) (w @ s) = class_prefixes w" by simp
  moreover have "d = None" if "(t, d) \<in> set (class_prefixes w)" for t d using that by (auto simp: class_prefixes_def)
  moreover have "m p (c # w @ s) = [([c], None)]" using Cons.prems by (simp add: m)
  ultimately show ?case
    by (auto simp: k(1) followed_def after_def class_prefixes_simps intro!: map_cong) metis
qed

lemma matches_star_class:
  assumes "list_all f w" "s = [] \<or> \<not> f (hd s)"
  shows "matches (Star (Class f)) p (w @ s) = class_prefixes w"
proof -
  have "repeated (length (w @ s)) (matches (Class f)) p (w @ s) = class_prefixes w"
    by (rule repeated_class [OF _ assms order_refl]) simp
  then show ?thesis by simp
qed

lemma class_prefixes_snoc: "class_prefixes (w @ [c]) = (w @ [c], None) # class_prefixes w"
  by (simp add: class_prefixes_def)

lemma class_prefixes_first: "\<exists>ms. class_prefixes w = (w, None) # ms"
  by (simp add: class_prefixes_def)

lemma class_prefixes_none: "(t, d) \<in> set (class_prefixes w) \<Longrightarrow> d = None"
  by (auto simp: class_prefixes_def)

text \<open>The preferred match of a sequence.\<close>

lemma matches_Seq_first:
  assumes "matches a p s = (t, g) # xs" "matches b (after p t) u = (v, d) # ms" "s = t @ u"
  shows "\<exists>zs. matches (Seq a b) p s = (t @ v, if d = None then g else d) # zs"
  using assms by (simp add: followed_def)

lemma replace_all_match:
  assumes "matches r p s = (t, Some g) # ms" "t \<noteq> []" "s = t @ u"
  shows "replace_all r f p s = f g @ replace_all r f (Some (last t)) u"
proof -
  obtain c cs where s: "s = c # cs" using assms(2,3) by (metis append_is_Nil_conv neq_Nil_conv)
  have "drop (length t) s = u" using assms(3) by simp
  with assms(1,2) show ?thesis by (simp add: s replace_all.simps(2) after_def)
qed

text \<open>A text in which no match begins is copied.\<close>

lemma replace_all_skip:
  assumes "\<And>q c cs. c \<in> set t \<Longrightarrow> matches r q (c # cs) = []"
  shows "replace_all r f p (t @ u) = t @ replace_all r f (after p t) u"
  using assms
proof (induction t arbitrary: p)
  case (Cons c t)
  then show ?case by (simp add: replace_all.simps(2) after_def)
qed (simp add: after_def)

end
