(* ===== verification/Error_Text.thy ===== *)
theory Error_Text
  imports Go_Regexp
begin

text \<open>
  \<^verbatim>\<open>internal/driver/errtext.go\<close>: the texts of errors without what changes from one check to the next, so
  that one failure gives one message, and without queries and passwords of URLs.
\<close>

section \<open>The expressions\<close>

definition dial_re :: re where
  "dial_re = seq_of [Boundary,
     Group (seq_of [any_of [lit ''dial'', lit ''read'', lit ''write'', lit ''close''], lit '' '',
       any_of [lit ''tcp'', lit ''udp''], maybe (Class (\<lambda>c. c = CHR ''4'' \<or> c = CHR ''6''))]),
     lit '' '', plus (Class (none_of '' '')), lit '': '']"

definition lookup_re :: re where
  "lookup_re = seq_of [Boundary, lit ''lookup '', Group (plus (Class (none_of white))), lit '' on '',
     plus (Class (none_of white)), lit '': '']"

definition stream_re :: re where
  "stream_re = seq_of [lit ''stream ID '', plus (Class is_digit), lit ''; '']"

definition last_stream_re :: re where
  "last_stream_re = seq_of [lit ''LastStreamID='', plus (Class is_digit), lit '', '']"

definition quote_mark :: char where "quote_mark = CHR 0x22"
definition backslash :: char where "backslash = CHR 0x5C"

definition query_re :: re where
  "query_re = seq_of [Boundary,
     Group (seq_of [plus (Class is_alpha), lit ('' '' @ [quote_mark] @ ''http''), maybe (lit ''s''), lit ''://'',
       Star (Class (none_of [quote_mark, CHR ''?'']))]),
     lit ''?'', Star (Alt (Class (none_of [quote_mark, backslash])) (Seq (lit [backslash]) (Class (\<lambda>c. c \<noteq> CHR 0x0A)))),
     lit [quote_mark]]"

definition scheme_char :: "char \<Rightarrow> bool" where
  "scheme_char c \<longleftrightarrow> is_alpha c \<or> is_digit c \<or> c = CHR ''+'' \<or> c = CHR ''.'' \<or> c = CHR ''-''"

definition password_re :: re where
  "password_re = seq_of [Boundary,
     Group (seq_of [Class is_alpha, Star (Class scheme_char), lit ''://'', Star (Class (none_of ('':@/'' @ [quote_mark] @ white)))]),
     lit '':'', Star (Class (none_of (''@/'' @ [quote_mark] @ white))), lit ''@'']"

definition validity_re :: "string \<Rightarrow> re" where
  "validity_re when' = seq_of [lit ''certificate has expired or is not yet valid: current time '',
     plus (Class (none_of white)), lit ('' is '' @ when' @ '' ''), Group (plus (Class (none_of white)))]"

definition connection_re :: re where
  "connection_re = seq_of [Boundary, lit ''connection('', Group (Star (Class (none_of ''()[''))), lit ''[-'',
     plus (Class is_digit), lit ''])'']"

definition stableText :: "(re \<times> (string \<Rightarrow> string)) list" where
  "stableText =
     [(dial_re, \<lambda>g. g @ '': ''),
      (lookup_re, \<lambda>g. ''lookup '' @ g @ '': ''),
      (stream_re, \<lambda>g. []),
      (last_stream_re, \<lambda>g. []),
      (query_re, \<lambda>g. g @ [quote_mark]),
      (password_re, \<lambda>g. g @ '':***@''),
      (validity_re ''after'', \<lambda>g. ''certificate expired at '' @ g),
      (validity_re ''before'', \<lambda>g. ''certificate is not valid before '' @ g),
      (connection_re, \<lambda>g. ''connection('' @ g @ '')'')]"

text \<open>\<open>is_parse\<close> tells whether an error has a \<^verbatim>\<open>url.Error\<close> of the parser in its chain.\<close>

definition stable_text :: "string \<Rightarrow> string" where
  "stable_text msg = fold (\<lambda>(r, f) t. replace_all r f None t) stableText msg"

definition errorText :: "bool \<Rightarrow> string \<Rightarrow> string" where
  "errorText is_parse msg = (if is_parse then ''the endpoint is not a valid URL'' else stable_text msg)"

section \<open>Examples\<close>

lemma stable_text_examples:
  "stable_text ''PING: read tcp 10.0.0.5:41234->10.0.0.1:6379: i/o timeout'' = ''PING: read tcp: i/o timeout''"
  by code_simp

lemma stable_text_examples2:
  "stable_text ''dial tcp: lookup redis://u:s3cret@h/0: no such host'' = ''dial tcp: lookup redis://u:***@h/0: no such host''"
  by code_simp

section \<open>Addresses\<close>

definition dial_verbs :: "string list" where "dial_verbs = [''dial'', ''read'', ''write'', ''close'']"
definition dial_nets :: "string list" where "dial_nets = [''tcp'', ''tcp4'', ''tcp6'', ''udp'', ''udp4'', ''udp6'']"

lemma dial_group_first:
  assumes "verb \<in> set dial_verbs" "network \<in> set dial_nets"
  shows "\<exists>ms. matches (Group (seq_of [any_of [lit ''dial'', lit ''read'', lit ''write'', lit ''close''], lit '' '',
      any_of [lit ''tcp'', lit ''udp''], maybe (Class (\<lambda>c. c = CHR ''4'' \<or> c = CHR ''6''))])) p
      (verb @ '' '' @ network @ '' '' @ u) = (verb @ '' '' @ network, Some (verb @ '' '' @ network)) # ms"
  using assms unfolding dial_verbs_def dial_nets_def
  by (auto simp: seq_of_def maybe_def followed_def)

lemma address_first:
  assumes "a \<noteq> []" "CHR '' '' \<notin> set a"
  shows "\<exists>ms. matches (seq_of [plus (Class (none_of '' '')), lit '': '']) p (a @ '': '' @ u) = (a @ '': '', None) # ms"
proof -
  obtain c w where a: "a = c # w" using assms(1) by (cases a) auto
  have "list_all (none_of '' '') (w @ '':'')" using assms(2) by (auto simp: a none_of_def list_all_iff)
  from matches_star_class [OF this, of "'' '' @ u"] have "matches (Star (Class (none_of '' ''))) q ((w @ '':'') @ '' '' @ u)
      = class_prefixes (w @ '':'')" for q
    by (simp add: none_of_def del: matches.simps)
  then have star: "matches (Star (Class (none_of '' ''))) q (w @ CHR '':'' # CHR '' '' # u) = (w @ '':'', None) # class_prefixes w" for q
    by (simp add: none_of_def class_prefixes_snoc del: matches.simps)
  have "none_of '' '' c" using assms(2) by (auto simp: a none_of_def)
  then have plus: "matches (plus (Class (none_of '' ''))) p (a @ CHR '':'' # CHR '' '' # u)
      = map (\<lambda>(t, d). (c # t, d)) ((w @ '':'', None) # class_prefixes w)"
    by (auto simp: a plus_def followed_def star class_prefixes_none split: prod.splits simp del: matches.simps(5) intro!: map_cong)
  obtain ms where ms: "class_prefixes w = (w, None) # ms" using class_prefixes_first by blast
  let ?rest = "matches (Seq (lit '': '') Empty)"
  have "followed ?rest p (a @ '': '' @ u) (c # w @ '':'', None) = []"
    by (simp add: followed_def a matches_lit_none del: lit.simps)
  moreover have "followed ?rest p (a @ '': '' @ u) (c # w, None) = [(a @ '': '', None)]"
    using matches_lit [of "'': ''" _ u] by (simp add: followed_def a del: lit.simps)
  ultimately show ?thesis by (simp add: seq_of_def plus ms del: matches.simps(5) lit.simps)
qed

lemma tail_first:
  assumes "a \<noteq> []" "CHR '' '' \<notin> set a"
  shows "\<exists>ms. matches (Seq (lit '' '') (seq_of [plus (Class (none_of '' '')), lit '': ''])) q ('' '' @ a @ '': '' @ u)
    = ('' '' @ a @ '': '', None) # ms"
proof -
  let ?r = "seq_of [plus (Class (none_of '' '')), lit '': '']"
  obtain ms where "matches ?r (after q '' '') (a @ '': '' @ u) = (a @ '': '', None) # ms"
    using address_first [OF assms] by blast
  from matches_Seq_first [OF matches_lit [of "'' ''" q] this refl] show ?thesis by simp
qed

lemma dial_first:
  assumes "verb \<in> set dial_verbs" "network \<in> set dial_nets" "a \<noteq> []" "CHR '' '' \<notin> set a" "\<not> word_at p"
  shows "\<exists>ms. matches dial_re p (verb @ '' '' @ network @ '' '' @ a @ '': '' @ u)
    = (verb @ '' '' @ network @ '' '' @ a @ '': '', Some (verb @ '' '' @ network)) # ms"
proof -
  let ?s = "verb @ '' '' @ network @ '' '' @ a @ '': '' @ u"
  let ?tail = "Seq (lit '' '') (seq_of [plus (Class (none_of '' '')), lit '': ''])"
  let ?group = "Group (seq_of [any_of [lit ''dial'', lit ''read'', lit ''write'', lit ''close''], lit '' '',
       any_of [lit ''tcp'', lit ''udp''], maybe (Class (\<lambda>c. c = CHR ''4'' \<or> c = CHR ''6''))])"
  obtain gs where g: "matches ?group p ?s = (verb @ '' '' @ network, Some (verb @ '' '' @ network)) # gs"
    using dial_group_first [OF assms(1,2), of p "a @ '': '' @ u"] by auto
  obtain ts where "matches ?tail (after p (verb @ '' '' @ network)) ('' '' @ a @ '': '' @ u) = ('' '' @ a @ '': '', None) # ts"
    using tail_first [OF assms(3,4)] by blast
  from matches_Seq_first [OF g this] obtain zs where body: "matches (Seq ?group ?tail) p ?s
      = (verb @ '' '' @ network @ '' '' @ a @ '': '', Some (verb @ '' '' @ network)) # zs"
    by (auto simp del: matches.simps lit.simps)
  have "word_at (first_of ?s)" using assms(1) by (auto simp: dial_verbs_def first_of_def word_at_def is_word_def)
  then have "matches Boundary p ?s = [([], None)]" using assms(5) by simp
  from matches_Seq_first [OF this, of "Seq ?group ?tail" ?s] body
  have "\<exists>ms. matches (Seq Boundary (Seq ?group ?tail)) p ?s
      = (verb @ '' '' @ network @ '' '' @ a @ '': '', Some (verb @ '' '' @ network)) # ms"
    by (simp add: after_def del: matches.simps lit.simps)
  moreover have "dial_re = Seq Boundary (Seq ?group ?tail)" by (simp add: dial_re_def seq_of_def)
  ultimately show ?thesis by (simp only:)
qed

text \<open>Before the failed operation there may be a text in which none can begin, such as the name of a command.\<close>

definition leads_in :: "string \<Rightarrow> bool" where
  "leads_in pre \<longleftrightarrow> list_all (\<lambda>c. c \<notin> set ''drwc'') pre \<and> \<not> word_at (after None pre)"

lemma dial_needs_verb: "c \<notin> set ''drwc'' \<Longrightarrow> matches dial_re q (c # cs) = []"
  by (simp add: dial_re_def seq_of_def followed_def)

lemma dial_replaced:
  assumes "leads_in pre" "verb \<in> set dial_verbs" "network \<in> set dial_nets" "a \<noteq> []" "CHR '' '' \<notin> set a"
  shows "replace_all dial_re f None (pre @ verb @ '' '' @ network @ '' '' @ a @ '': '' @ msg)
    = pre @ f (verb @ '' '' @ network) @ replace_all dial_re f (Some (CHR '' '')) msg"
proof -
  let ?s = "verb @ '' '' @ network @ '' '' @ a @ '': '' @ msg"
  have "replace_all dial_re f None (pre @ ?s) = pre @ replace_all dial_re f (after None pre) ?s"
    using assms(1) by (intro replace_all_skip dial_needs_verb) (auto simp: leads_in_def list_all_iff)
  moreover obtain ms where "matches dial_re (after None pre) ?s
      = (verb @ '' '' @ network @ '' '' @ a @ '': '', Some (verb @ '' '' @ network)) # ms"
    using dial_first [OF assms(2-5)] assms(1) by (auto simp: leads_in_def)
  then have "replace_all dial_re f (after None pre) ?s
      = f (verb @ '' '' @ network) @ replace_all dial_re f (Some (last (verb @ '' '' @ network @ '' '' @ a @ '': ''))) msg"
    by (rule replace_all_match) simp_all
  ultimately show ?thesis by simp
qed

text \<open>
  C39: the text of a failed dial, read, write or close does not depend on the addresses it names, so the
  same failure against another address of the same name is the same message.
\<close>

theorem error_text_hides_addresses:
  assumes "leads_in pre" "verb \<in> set dial_verbs" "network \<in> set dial_nets"
    and "a \<noteq> []" "CHR '' '' \<notin> set a" "b \<noteq> []" "CHR '' '' \<notin> set b"
  shows "errorText is_parse (pre @ verb @ '' '' @ network @ '' '' @ a @ '': '' @ msg)
    = errorText is_parse (pre @ verb @ '' '' @ network @ '' '' @ b @ '': '' @ msg)"
  using dial_replaced [OF assms(1-3), of a] dial_replaced [OF assms(1-3), of b] assms(4-)
  by (simp add: errorText_def stable_text_def stableText_def)

theorem error_text_hides_addresses_witness:
  "errorText False ''PING: read tcp 10.0.0.5:41234->10.0.0.1:6379: i/o timeout''
      = errorText False ''PING: read tcp 10.0.0.7:39812->10.0.0.2:6379: i/o timeout''
    \<and> errorText False ''PING: read tcp 10.0.0.7:39812->10.0.0.2:6379: i/o timeout'' = ''PING: read tcp: i/o timeout''"
proof -
  have "errorText False ''PING: read tcp 10.0.0.7:39812->10.0.0.2:6379: i/o timeout'' = ''PING: read tcp: i/o timeout''"
    by code_simp
  then show ?thesis
    using error_text_hides_addresses [of "''PING: ''" "''read''" "''tcp''" "''10.0.0.5:41234->10.0.0.1:6379''"
        "''10.0.0.7:39812->10.0.0.2:6379''" False "''i/o timeout''"]
    by (simp add: leads_in_def dial_verbs_def dial_nets_def after_def word_at_def is_word_def is_digit_def)
qed

end
