(* ===== verification/Driver_Core.thy ===== *)
theory Driver_Core
  imports Monitor_Types Go_Addr Error_Text
begin

text \<open>
  What the drivers share: \<^verbatim>\<open>internal/driver/driver.go\<close> with the reading of bodies and
  \<^verbatim>\<open>internal/driver/family.go\<close> with the choice of address families. An error is its text,
  which \<^verbatim>\<open>errorText\<close> makes stable.
\<close>

record 'w net =
  nt_now :: "'w \<Rightarrow> time"
  nt_is_parse :: "string \<Rightarrow> bool"
  nt_duration_text :: "duration \<Rightarrow> string"
  nt_time_text :: "time \<Rightarrow> string"
  nt_secret :: "string \<Rightarrow> string \<Rightarrow> 'w \<Rightarrow> (string, string) gomap result"
  nt_dial :: "string \<Rightarrow> string \<Rightarrow> 'w \<Rightarrow> string option \<times> 'w"

text \<open>\<open>nt_is_parse\<close> tells the errors of the URL parser, which \<^verbatim>\<open>errorText\<close> finds by their type.\<close>

definition nt_error_text :: "'w net \<Rightarrow> string \<Rightarrow> string" where
  "nt_error_text nt e = errorText (nt_is_parse nt e) e"

section \<open>Bodies\<close>

definition maxBody :: nat where
  "maxBody = 1048576"

datatype body_error = TooLarge | ReadFailed string

text \<open>
  A body is the bytes that arrive and the error that ends them, if any. At most one byte more than the
  limit is read, so a longer body ends before its error is seen. (An error that a transport delivers in one
  read with the first byte beyond the limit is taken for one after it; the program would report it in place
  of the limit.)
\<close>

definition readBody :: "string \<Rightarrow> string option \<Rightarrow> string \<times> body_error option" where
  "readBody bytes err =
     (if maxBody < length bytes then (take maxBody bytes, Some TooLarge)
      else (bytes, map_option ReadFailed err))"

definition body_error_text :: "body_error \<Rightarrow> string" where
  "body_error_text e = (case e of TooLarge \<Rightarrow> ''response body exceeds 1 MiB'' | ReadFailed t \<Rightarrow> t)"

section \<open>Results\<close>

text \<open>The result of the drivers that only tell an error from success.\<close>

definition outcome :: "'w net \<Rightarrow> string \<Rightarrow> duration \<Rightarrow> string option \<Rightarrow> check_result" where
  "outcome nt label d err =
     (case err of
        Some e \<Rightarrow> \<lparr>cr_success = False, cr_time = d, cr_error = Some e,
                  cr_message = label @ '' check failed: '' @ nt_error_text nt e\<rparr>
      | None \<Rightarrow> \<lparr>cr_success = True, cr_time = d, cr_error = None,
                 cr_message = label @ '' check successful (response time: '' @ nt_duration_text nt d @ '')''\<rparr>)"

definition timed_check :: "'w net \<Rightarrow> string \<Rightarrow> ('w \<Rightarrow> string option \<times> 'w) \<Rightarrow> 'w \<Rightarrow> check_result result \<times> 'w" where
  "timed_check nt label run w =
     (case run w of
        (err, w') \<Rightarrow> (Inr (outcome nt label (time_sub (nt_now nt w') (nt_now nt w)) err), w'))"

text \<open>A check that closes its connection after the time is taken.\<close>

definition deferred_check :: "'w net \<Rightarrow> string \<Rightarrow> ('w \<Rightarrow> string option \<times> ('w \<Rightarrow> 'w) \<times> 'w) \<Rightarrow> 'w \<Rightarrow> check_result result \<times> 'w" where
  "deferred_check nt label run w =
     (case run w of
        (err, close, w') \<Rightarrow> (Inr (outcome nt label (time_sub (nt_now nt w') (nt_now nt w)) err), close w'))"

definition guard_endpoint :: "string \<Rightarrow> string option" where
  "guard_endpoint endpoint = (if endpoint = [] then Some ''endpoint cannot be empty'' else checkHostEndpoint endpoint)"

text \<open>User name and password from a Secret, if the check names one.\<close>

definition login_of :: "'w net \<Rightarrow> string \<Rightarrow> string \<Rightarrow> 'w \<Rightarrow> (string \<times> string) result" where
  "login_of nt secret namespace w =
     (if secret = [] then Inr ([], [])
      else case nt_secret nt secret namespace w of
        Inl e \<Rightarrow> Inl (''unable to read secret: '' @ e)
      | Inr d \<Rightarrow> Inr (get_or [] d ''username'', get_or [] d ''password''))"

section \<open>The interface of a driver\<close>

text \<open>
  Every check reports: it never returns an error in place of a result, and a result that counts as a
  success carries no error.
\<close>

locale reporting =
  fixes check :: "'w \<Rightarrow> check_result result \<times> 'w"
  assumes reports: "\<exists>res w'. check w = (Inr res, w') \<and> (cr_success res \<longrightarrow> cr_error res = None)"
begin

lemma no_error: "fst (check w) \<noteq> Inl e"
  using reports [of w] by auto

lemma success_has_no_error: "check w = (Inr res, w') \<Longrightarrow> cr_success res \<Longrightarrow> cr_error res = None"
  using reports [of w] by auto

end

interpretation timed: reporting "timed_check nt label run" for nt :: "'w net" and label run
  by unfold_locales (auto simp: timed_check_def outcome_def split: prod.splits option.splits)

interpretation deferred: reporting "deferred_check nt label run" for nt :: "'w net" and label run
  by unfold_locales (auto simp: deferred_check_def outcome_def split: prod.splits option.splits)

section \<open>Address families\<close>

definition familyNetwork :: "string \<Rightarrow> string \<Rightarrow> string" where
  "familyNetwork network family =
     (let base = trim_right (\<lambda>c. c = CHR ''4'' \<or> c = CHR ''6'') network
      in if family = ''ipv4'' then base @ ''4'' else if family = ''ipv6'' then base @ ''6'' else network)"

fun pickFamily :: "string list \<Rightarrow> string \<Rightarrow> string option" where
  "pickFamily [] family = None"
| "pickFamily (a # addrs) family =
     (if family = [] then Some a
      else case ParseAddr a of
        None \<Rightarrow> pickFamily addrs family
      | Some ip \<Rightarrow>
          (if family = ''ipv4'' \<and> is_4 (unmap ip) then Some a
           else if family = ''ipv6'' \<and> \<not> is_4 ip \<and> \<not> is_4in6 ip then Some a
           else pickFamily addrs family))"

definition no_family_address :: "string list \<Rightarrow> string \<Rightarrow> string" where
  "no_family_address addrs family = ''no '' @ family @ '' address in ['' @ join '' '' addrs @ '']''"

text \<open>How a client reaches a server: over one family, which also turns off proxies, with a server name, following redirects or not.\<close>

record http_client =
  hl_family :: string
  hl_server_name :: string
  hl_redirects :: bool

definition httpClient :: "string \<Rightarrow> http_client" where
  "httpClient family = \<lparr>hl_family = family, hl_server_name = [], hl_redirects = True\<rparr>"

section \<open>Both families\<close>

definition family_error :: "string \<Rightarrow> check_result \<Rightarrow> string list" where
  "family_error family r =
     (if cr_success r then []
      else [family @ '': '' @ (case cr_error r of Some e \<Rightarrow> e | None \<Rightarrow> cr_message r)])"

definition family_part :: "bool \<Rightarrow> check_result \<Rightarrow> string" where
  "family_part success r = (if cr_success r \<and> \<not> success then ''ok'' else cr_message r)"

definition both_results :: "check_result \<Rightarrow> check_result \<Rightarrow> check_result" where
  "both_results r4 r6 =
     (let errs = family_error ''ipv4'' r4 @ family_error ''ipv6'' r6; success = (cr_success r4 \<and> cr_success r6)
      in \<lparr>cr_success = success, cr_time = max (cr_time r4) (cr_time r6),
          cr_error = (if errs = [] then None else Some (join nl errs)),
          cr_message = ''ipv4: '' @ family_part success r4 @ ''; ipv6: '' @ family_part success r6\<rparr>)"

definition both_check :: "'w driver \<Rightarrow> 'w driver \<Rightarrow> 'w \<Rightarrow> check_result result \<times> 'w" where
  "both_check v4 v6 w =
     (case dv_check v4 w of
        (Inl e, w1) \<Rightarrow> (Inl (''ipv4: '' @ e), w1)
      | (Inr r4, w1) \<Rightarrow>
          (case dv_check v6 w1 of
             (Inl e, w2) \<Rightarrow> (Inl (''ipv6: '' @ e), w2)
           | (Inr r6, w2) \<Rightarrow> (Inr (both_results r4 r6), w2)))"

definition NewBothFamiliesDriver :: "'w driver \<Rightarrow> 'w driver \<Rightarrow> 'w driver" where
  "NewBothFamiliesDriver v4 v6 =
     \<lparr>dv_check = both_check v4 v6, dv_endpoint = dv_endpoint v4, dv_type = dv_type v4\<rparr>"

lemma both_results_ok:
  "cr_success (both_results r4 r6) \<longleftrightarrow> cr_success r4 \<and> cr_success r6"
  "cr_success (both_results r4 r6) \<Longrightarrow> cr_error (both_results r4 r6) = None"
  by (simp_all add: both_results_def Let_def family_error_def)

lemma both_reporting:
  assumes "reporting (dv_check v4)" "reporting (dv_check v6)"
  shows "reporting (both_check v4 v6)"
proof
  fix w
  obtain r4 w1 where 4: "dv_check v4 w = (Inr r4, w1)" using reporting.reports [OF assms(1)] by blast
  obtain r6 w2 where 6: "dv_check v6 w1 = (Inr r6, w2)" using reporting.reports [OF assms(2)] by blast
  show "\<exists>res w'. both_check v4 v6 w = (Inr res, w') \<and> (cr_success res \<longrightarrow> cr_error res = None)"
    using both_results_ok by (simp add: both_check_def 4 6)
qed

section \<open>Connections\<close>

definition new_tcp :: "'w net \<Rightarrow> string \<Rightarrow> string \<Rightarrow> 'w driver result" where
  "new_tcp nt endpoint family =
     (case guard_endpoint endpoint of
        Some e \<Rightarrow> Inl e
      | None \<Rightarrow> Inr \<lparr>dv_check = timed_check nt ''TCP'' (nt_dial nt (familyNetwork ''tcp'' family) endpoint),
                    dv_endpoint = endpoint, dv_type = ''tcp''\<rparr>)"

definition new_ping :: "'w net \<Rightarrow> string \<Rightarrow> string \<Rightarrow> 'w driver result" where
  "new_ping nt endpoint family =
     (case guard_endpoint endpoint of
        Some e \<Rightarrow> Inl e
      | None \<Rightarrow>
          (let (host, port) = hostPort endpoint ''80''
           in Inr \<lparr>dv_check = timed_check nt ''Ping'' (nt_dial nt (familyNetwork ''tcp'' family) (JoinHostPort host port)),
                   dv_endpoint = endpoint, dv_type = ''ping''\<rparr>))"

end
