(* ===== verification/Driver_Http.thy ===== *)
theory Driver_Http
  imports Driver_Core
begin

text \<open>
  The drivers that ask over HTTP: \<^verbatim>\<open>internal/driver/http.go\<close>, \<^verbatim>\<open>httpjson.go\<close>, \<^verbatim>\<open>opensearch.go\<close> and
  \<^verbatim>\<open>trino.go\<close>. The exchange and the parser of JSON texts are arguments; numbers keep their literals, as
  \<^verbatim>\<open>UseNumber\<close> has it.
\<close>

section \<open>Exchanges\<close>

text \<open>\<open>ha_not_after\<close> is the end of the leaf certificate of an answer that came over TLS.\<close>

record http_answer =
  ha_code :: int
  ha_not_after :: "time option"
  ha_body :: string
  ha_body_error :: "string option"

text \<open>JSON values as the decoder leaves them.\<close>

datatype jvalue = VNull | VBool bool | VNum string | VStr string | VArr "jvalue list" | VObj "(string \<times> jvalue) list"

text \<open>
  \<open>wb_get\<close> is a GET with its client, address and user agent. \<open>wb_first\<close> decodes the first JSON value of a
  text, with the keys of its objects as they come, and gives the rest of it; \<open>wb_mismatch\<close> is the error of a
  text whose value does not fit the type it is decoded into.
\<close>

record 'w web =
  wb_get :: "http_client \<Rightarrow> string \<Rightarrow> string \<Rightarrow> 'w \<Rightarrow> (string + http_answer) \<times> 'w"
  wb_version :: string
  wb_first :: "string \<Rightarrow> (jvalue \<times> string) result"
  wb_mismatch :: "string \<Rightarrow> string"

definition driver_agent :: "'w web \<Rightarrow> string" where
  "driver_agent wb = ''endpoint-monitoring/'' @ wb_version wb"

section \<open>Certificates that end soon\<close>

text \<open>\<^verbatim>\<open>int(time.Until(t).Hours() / 24)\<close> in binary64.\<close>

definition duration_hours :: "duration \<Rightarrow> rat" where
  "duration_hours d = f64_add (f64_of_int (go_div d hour)) (f64_div (f64_of_int (go_mod d hour)) 3600000000000)"

definition truncated :: "rat \<Rightarrow> int" where
  "truncated x = (if x < 0 then - \<lfloor>- x\<rfloor> else \<lfloor>x\<rfloor>)"

definition days_left :: "time \<Rightarrow> time \<Rightarrow> int" where
  "days_left not_after now = truncated (f64_div (duration_hours (time_sub not_after now)) 24)"

definition expiry_error :: "'w net \<Rightarrow> int \<Rightarrow> time \<Rightarrow> time \<Rightarrow> string option" where
  "expiry_error nt days not_after now =
     (if days_left not_after now < days
      then Some (''certificate expires at '' @ nt_time_text nt not_after @ '', within the '' @ itoa days @ ''-day alert window'')
      else None)"

section \<open>The http driver\<close>

definition http_client_for :: "string \<Rightarrow> tls_check option \<Rightarrow> http_client" where
  "http_client_for family check =
     (case check of
        Some c \<Rightarrow> if tk_host c \<noteq> [] then (httpClient family)\<lparr>hl_server_name := tk_host c\<rparr> else httpClient family
      | None \<Rightarrow> httpClient family)"

definition failed :: "duration \<Rightarrow> string option \<Rightarrow> string \<Rightarrow> check_result" where
  "failed d err msg = \<lparr>cr_success = False, cr_time = d, cr_error = err, cr_message = msg\<rparr>"

definition passed :: "duration \<Rightarrow> string \<Rightarrow> check_result" where
  "passed d msg = \<lparr>cr_success = True, cr_time = d, cr_error = None, cr_message = msg\<rparr>"

definition http_ok :: "'w net \<Rightarrow> duration \<Rightarrow> int \<Rightarrow> check_result" where
  "http_ok nt d code =
     passed d (''HTTP check successful (status: '' @ itoa code @ '', response time: '' @ nt_duration_text nt d @ '')'')"

definition http_body_result :: "'w net \<Rightarrow> duration \<Rightarrow> http_answer \<Rightarrow> string \<Rightarrow> check_result" where
  "http_body_result nt d ans wanted =
     (case readBody (ha_body ans) (ha_body_error ans) of
        (_, Some (ReadFailed e)) \<Rightarrow> failed d (Some e) (''HTTP check failed to read body: '' @ nt_error_text nt e)
      | (body, err) \<Rightarrow>
          (if \<not> contains body wanted
           then failed d None (''HTTP check failed: '' @ (if err = None then ''body'' else ''the first 1 MiB of the body'')
             @ '' does not contain '' @ [CHR 0x27] @ wanted @ [CHR 0x27] @ '' (status: '' @ itoa (ha_code ans) @ '')'')
           else http_ok nt d (ha_code ans)))"

definition http_result :: "'w net \<Rightarrow> tls_check option \<Rightarrow> http_check option \<Rightarrow> duration \<Rightarrow> time \<Rightarrow> string + http_answer \<Rightarrow> check_result" where
  "http_result nt check httpCheck d now answer =
     (let err = (case answer of
          Inl e \<Rightarrow> Some e
        | Inr ans \<Rightarrow>
            (case (check, ha_not_after ans) of
               (Some c, Some t) \<Rightarrow> if 0 < tk_days c then expiry_error nt (tk_days c) t now else None
             | _ \<Rightarrow> None))
      in case (err, answer) of
        (Some e, _) \<Rightarrow> failed d (Some e) (''HTTP check failed: '' @ nt_error_text nt e)
      | (None, Inl e) \<Rightarrow> failed d (Some e) (''HTTP check failed: '' @ nt_error_text nt e)
      | (None, Inr ans) \<Rightarrow>
          (if 200 \<le> ha_code ans \<and> ha_code ans < 300
           then (case httpCheck of
                   Some hc \<Rightarrow> if hc_body_contains hc \<noteq> [] then http_body_result nt d ans (hc_body_contains hc)
                              else http_ok nt d (ha_code ans)
                 | None \<Rightarrow> http_ok nt d (ha_code ans))
           else failed d None (''HTTP check failed (status: '' @ itoa (ha_code ans) @ '')'')))"

text \<open>The exchange of a driver, and what it makes of the answer, the duration and the time after it.\<close>

definition asked :: "'w net \<Rightarrow> ('w \<Rightarrow> (string + http_answer) \<times> 'w) \<Rightarrow> (duration \<Rightarrow> time \<Rightarrow> string + http_answer \<Rightarrow> check_result)
    \<Rightarrow> 'w \<Rightarrow> check_result result \<times> 'w" where
  "asked nt get judge w =
     (case get w of (answer, w') \<Rightarrow> (Inr (judge (time_sub (nt_now nt w') (nt_now nt w)) (nt_now nt w') answer), w'))"

definition new_http :: "'w net \<Rightarrow> 'w web \<Rightarrow> string \<Rightarrow> string \<Rightarrow> tls_check option \<Rightarrow> http_check option \<Rightarrow> 'w driver result" where
  "new_http nt wb endpoint family check httpCheck =
     (if endpoint = [] then Inl ''endpoint cannot be empty''
      else Inr \<lparr>dv_check = asked nt (wb_get wb (http_client_for family check) endpoint (driver_agent wb))
                  (http_result nt check httpCheck), dv_endpoint = endpoint, dv_type = ''http''\<rparr>)"

section \<open>Assertions on JSON\<close>

text \<open>A value as \<^verbatim>\<open>%v\<close> prints it; maps print in the order of their keys.\<close>

fun value_text :: "jvalue \<Rightarrow> string" where
  "value_text VNull = ''<nil>''"
| "value_text (VBool b) = (if b then ''true'' else ''false'')"
| "value_text (VNum s) = s"
| "value_text (VStr s) = s"
| "value_text (VArr vs) = ''['' @ join '' '' (map value_text vs) @ '']''"
| "value_text (VObj kvs) =
     ''map['' @ join '' '' (map (\<lambda>(k, t). k @ '':'' @ t) (sort_key fst (map (\<lambda>(k, v). (k, value_text v)) kvs))) @ '']''"

definition all_digits :: "string \<Rightarrow> bool" where
  "all_digits s \<longleftrightarrow> s \<noteq> [] \<and> list_all is_digit s"

text \<open>The parts of a JSON number: sign, integer digits, fraction digits, and the exponent's sign and digits.\<close>

record number_parts =
  np_negative :: bool
  np_int :: string
  np_fraction :: string
  np_exp_negative :: bool
  np_exp :: string

definition exponent_parts :: "string \<Rightarrow> (bool \<times> string) option" where
  "exponent_parts s =
     (let d = (if s \<noteq> [] \<and> (hd s = CHR ''+'' \<or> hd s = CHR ''-'') then tl s else s)
      in if all_digits d then Some (s \<noteq> [] \<and> hd s = CHR ''-'', d) else None)"

text \<open>\<^verbatim>\<open>jsonNumberLiteral\<close>, read from left to right.\<close>

definition parse_number :: "string \<Rightarrow> number_parts option" where
  "parse_number s =
     (let neg = (s \<noteq> [] \<and> hd s = CHR ''-''); s1 = (if neg then tl s else s);
          ip = takeWhile is_digit s1; s2 = dropWhile is_digit s1;
          point = (s2 \<noteq> [] \<and> hd s2 = CHR ''.'');
          fp = (if point then takeWhile is_digit (tl s2) else []);
          s3 = (if point then dropWhile is_digit (tl s2) else s2)
      in if ip = [] \<or> 1 < length ip \<and> hd ip = CHR ''0'' \<or> point \<and> fp = [] then None
         else if s3 = [] then Some \<lparr>np_negative = neg, np_int = ip, np_fraction = fp, np_exp_negative = False, np_exp = ''0''\<rparr>
         else if hd s3 = CHR ''e'' \<or> hd s3 = CHR ''E''
         then map_option (\<lambda>(eneg, e). \<lparr>np_negative = neg, np_int = ip, np_fraction = fp, np_exp_negative = eneg, np_exp = e\<rparr>)
                (exponent_parts (tl s3))
         else None)"

definition exponent_of :: "number_parts \<Rightarrow> int" where
  "exponent_of p = (if np_exp_negative p then - digits_val (np_exp p) else digits_val (np_exp p))"

definition number_value :: "number_parts \<Rightarrow> rat" where
  "number_value p =
     (let m = of_int (digits_val (np_int p @ np_fraction p)) * (10 powi (exponent_of p - int (length (np_fraction p))))
      in if np_negative p then - m else m)"

text \<open>The bounds keep the numbers small: 100 characters, and exponents up to a thousand either way.\<close>

definition exactNumber :: "string \<Rightarrow> rat option" where
  "exactNumber s =
     (if 100 < length s then None
      else case parse_number s of
        None \<Rightarrow> None
      | Some p \<Rightarrow> if exponent_of p < -1000 \<or> 1000 < exponent_of p then None else Some (number_value p))"

definition jsonValueMatches :: "jvalue \<Rightarrow> string \<Rightarrow> bool" where
  "jsonValueMatches actual expected \<longleftrightarrow>
     value_text actual = expected
     \<or> (case actual of
          VNum s \<Rightarrow> (case (exactNumber s, exactNumber expected) of (Some a, Some b) \<Rightarrow> a = b | _ \<Rightarrow> False)
        | _ \<Rightarrow> False)"

fun resolve_keys :: "jvalue \<Rightarrow> string list \<Rightarrow> jvalue option" where
  "resolve_keys current [] = Some current"
| "resolve_keys current (key # keys) =
     (case current of
        VObj kvs \<Rightarrow> (case map_of kvs key of None \<Rightarrow> None | Some v \<Rightarrow> resolve_keys v keys)
      | _ \<Rightarrow> None)"

definition resolveJSONPath :: "jvalue \<Rightarrow> string \<Rightarrow> jvalue option" where
  "resolveJSONPath data path = resolve_keys data (split_byte (CHR ''.'') path)"

section \<open>The http-json driver\<close>

definition assertion_error :: "jvalue \<Rightarrow> string \<times> string \<Rightarrow> string option" where
  "assertion_error payload pe =
     (case pe of (path, expected) \<Rightarrow>
       (case resolveJSONPath payload path of
          Some actual \<Rightarrow>
            (if jsonValueMatches actual expected then None
             else Some (''assertion failed at '' @ [CHR 0x27] @ path @ [CHR 0x27] @ '': expected '' @ [CHR 0x27] @ expected
               @ [CHR 0x27] @ '', got '' @ [CHR 0x27] @ value_text actual @ [CHR 0x27]))
        | None \<Rightarrow> Some (''assertion failed at '' @ [CHR 0x27] @ path @ [CHR 0x27] @ '': expected '' @ [CHR 0x27] @ expected
            @ [CHR 0x27] @ '', got '' @ [CHR 0x27] @ ''<nil>'' @ [CHR 0x27])))"

text \<open>Objects become maps, in which the last entry of a key stays.\<close>

fun latest :: "(string \<times> 'a) list \<Rightarrow> (string \<times> 'a) list" where
  "latest [] = []"
| "latest ((k, v) # kvs) = (if k \<in> fst ` set kvs then latest kvs else (k, v) # latest kvs)"

fun json_map :: "jvalue \<Rightarrow> jvalue" where
  "json_map (VArr vs) = VArr (map json_map vs)"
| "json_map (VObj kvs) = VObj (latest (map (\<lambda>(k, v). (k, json_map v)) kvs))"
| "json_map v = v"

text \<open>White space is all that \<^verbatim>\<open>decoder.Token\<close> skips before the end.\<close>

definition json_blank :: "string \<Rightarrow> bool" where
  "json_blank rest \<longleftrightarrow> list_all (\<lambda>c. c \<in> set [CHR '' '', CHR 0x09, CHR 0x0A, CHR 0x0D]) rest"

text \<open>The payload is an object, or null, which leaves an empty map; nothing may follow it.\<close>

definition decode_payload :: "'w web \<Rightarrow> string \<Rightarrow> jvalue result" where
  "decode_payload wb body =
     (case wb_first wb body of
        Inl e \<Rightarrow> Inl e
      | Inr (VObj kvs, rest) \<Rightarrow> if json_blank rest then Inr (json_map (VObj kvs)) else Inl ''unexpected data after the JSON value''
      | Inr (VNull, rest) \<Rightarrow> if json_blank rest then Inr (VObj []) else Inl ''unexpected data after the JSON value''
      | Inr _ \<Rightarrow> Inl (wb_mismatch wb body))"

definition status_expected :: "int \<Rightarrow> int \<Rightarrow> string option" where
  "status_expected expected code =
     (if expected \<noteq> 0 \<and> code \<noteq> expected
      then Some (''HTTP-JSON check failed (status: '' @ itoa code @ '', expected '' @ itoa expected @ '')'')
      else if expected = 0 \<and> (code < 200 \<or> 300 \<le> code)
      then Some (''HTTP-JSON check failed (status: '' @ itoa code @ '', expected 2xx)'') else None)"

definition http_json_result :: "'w net \<Rightarrow> 'w web \<Rightarrow> http_json_check \<Rightarrow> duration \<Rightarrow> time \<Rightarrow> string + http_answer \<Rightarrow> check_result" where
  "http_json_result nt wb check d now answer =
     (case answer of
        Inl e \<Rightarrow> failed d (Some e) (''HTTP-JSON request failed: '' @ nt_error_text nt e)
      | Inr ans \<Rightarrow>
          (case status_expected (hj_code check) (ha_code ans) of
             Some msg \<Rightarrow> failed d None msg
           | None \<Rightarrow>
               (case readBody (ha_body ans) (ha_body_error ans) of
                  (_, Some TooLarge) \<Rightarrow>
                    failed d (Some (body_error_text TooLarge)) ''HTTP-JSON check failed: response body exceeds 1 MiB''
                | (_, Some (ReadFailed e)) \<Rightarrow> failed d (Some e) ''failed to read HTTP response body''
                | (body, None) \<Rightarrow>
                    (case decode_payload wb body of
                       Inl e \<Rightarrow> failed d (Some e) ''invalid JSON response''
                     | Inr payload \<Rightarrow>
                         (case List.map_filter (assertion_error payload) (sort_key fst (hj_assertions check)) of
                            msg # _ \<Rightarrow> failed d None msg
                          | [] \<Rightarrow> passed d (''HTTP-JSON check successful (response time: '' @ nt_duration_text nt d @ '')''))))))"

definition new_http_json :: "'w net \<Rightarrow> 'w web \<Rightarrow> string \<Rightarrow> string \<Rightarrow> http_json_check option \<Rightarrow> 'w driver result" where
  "new_http_json nt wb endpoint family check =
     (case check of
        None \<Rightarrow> Inl ''invalid endpoint or config for http-json''
      | Some c \<Rightarrow>
          (if endpoint = [] then Inl ''invalid endpoint or config for http-json''
           else let client = (httpClient family)\<lparr>hl_redirects := \<not> (300 \<le> hj_code c \<and> hj_code c < 400)\<rparr>
             in Inr \<lparr>dv_check = asked nt (wb_get wb client endpoint (driver_agent wb)) (http_json_result nt wb c),
                    dv_endpoint = endpoint, dv_type = ''http-json''\<rparr>))"

section \<open>Structures from JSON\<close>

text \<open>
  \<^verbatim>\<open>encoding/json\<close> into a structure: the keys of an object match the fields in any case, the last one
  wins, and a value of the wrong type anywhere is an error. A null changes nothing.
\<close>

text \<open>A number fits a \<^verbatim>\<open>float64\<close> unless it rounds beyond the largest one.\<close>

definition float_fits :: "string \<Rightarrow> bool" where
  "float_fits s \<longleftrightarrow> (case parse_number s of None \<Rightarrow> False | Some p \<Rightarrow> \<bar>number_value p\<bar> < 2 ^ 1024 - 2 ^ 970)"

datatype field_kind = KText | KTruth | KInt | KFloat | KStruct "(string \<times> field_kind) list"

fun fits :: "field_kind \<Rightarrow> jvalue \<Rightarrow> bool" where
  "fits k VNull \<longleftrightarrow> True"
| "fits KText (VStr s) \<longleftrightarrow> True"
| "fits KTruth (VBool b) \<longleftrightarrow> True"
| "fits KInt (VNum s) \<longleftrightarrow> parse_int_ok s \<noteq> None"
| "fits KFloat (VNum s) \<longleftrightarrow> float_fits s"
| "fits (KStruct fs) (VObj kvs) \<longleftrightarrow>
     list_all (\<lambda>(k, v). list_all (\<lambda>(f, kind). equal_fold k f \<longrightarrow> fits kind v) fs) kvs"
| "fits _ _ \<longleftrightarrow> False"

fun entries :: "jvalue \<Rightarrow> (string \<times> jvalue) list" where
  "entries (VObj kvs) = kvs"
| "entries _ = []"

definition field_of :: "jvalue \<Rightarrow> string \<Rightarrow> jvalue" where
  "field_of j f =
     (case filter (\<lambda>(k, v). equal_fold k f \<and> v \<noteq> VNull) (entries j) of [] \<Rightarrow> VNull | kvs \<Rightarrow> snd (last kvs))"

text \<open>A structure in a field: every entry of the field is decoded into the same structure.\<close>

definition struct_field :: "jvalue \<Rightarrow> string \<Rightarrow> jvalue" where
  "struct_field j f = VObj (concat (map (\<lambda>(k, v). if equal_fold k f then entries v else []) (entries j)))"

definition text_field :: "jvalue \<Rightarrow> string \<Rightarrow> string" where
  "text_field j f = (case field_of j f of VStr s \<Rightarrow> s | _ \<Rightarrow> [])"

definition truth_field :: "jvalue \<Rightarrow> string \<Rightarrow> bool" where
  "truth_field j f = (case field_of j f of VBool b \<Rightarrow> b | _ \<Rightarrow> False)"

definition int_field :: "jvalue \<Rightarrow> string \<Rightarrow> int" where
  "int_field j f = (case field_of j f of VNum s \<Rightarrow> (case parse_int_ok s of Some n \<Rightarrow> n | None \<Rightarrow> 0) | _ \<Rightarrow> 0)"

text \<open>The body of an answer, decoded; its errors are texts.\<close>

definition decode_struct :: "'w web \<Rightarrow> field_kind \<Rightarrow> http_answer \<Rightarrow> jvalue result" where
  "decode_struct wb kind ans =
     (case readBody (ha_body ans) (ha_body_error ans) of
        (_, Some e) \<Rightarrow> Inl (body_error_text e)
      | (body, None) \<Rightarrow>
          (case wb_first wb body of
             Inl e \<Rightarrow> Inl e
           | Inr (j, _) \<Rightarrow> if fits kind j then Inr j else Inl (wb_mismatch wb body)))"

section \<open>OpenSearch\<close>

definition cluster_health :: field_kind where
  "cluster_health = KStruct
     [(''cluster_name'', KText), (''status'', KText), (''timed_out'', KTruth), (''number_of_nodes'', KInt),
      (''number_of_data_nodes'', KInt), (''active_primary_shards'', KInt), (''active_shards'', KInt),
      (''relocating_shards'', KInt), (''initializing_shards'', KInt), (''unassigned_shards'', KInt),
      (''delayed_unassigned_shards'', KInt), (''number_of_pending_tasks'', KInt), (''number_of_in_flight_fetch'', KInt),
      (''task_max_waiting_in_queue_millis'', KInt), (''active_shards_percent_as_number'', KFloat)]"

definition health_result :: "'w net \<Rightarrow> duration \<Rightarrow> jvalue \<Rightarrow> check_result" where
  "health_result nt d h =
     (let status = text_field h ''status''; s = to_lower status in
      if s = ''green''
      then passed d (''OpenSearch cluster is healthy (status: '' @ status @ '', nodes: '' @ itoa (int_field h ''number_of_nodes'')
        @ '', active_shards: '' @ itoa (int_field h ''active_shards'') @ '', response time: '' @ nt_duration_text nt d @ '')'')
      else if s = ''yellow'' then failed d None (''OpenSearch cluster has issues (status: '' @ status @ '')'')
      else if s = ''red'' then failed d None (''OpenSearch cluster is unhealthy (status: '' @ status @ '')'')
      else failed d None (''OpenSearch cluster status unknown (status: '' @ status @ '')''))"

definition opensearch_result :: "'w net \<Rightarrow> 'w web \<Rightarrow> duration \<Rightarrow> time \<Rightarrow> string + http_answer \<Rightarrow> check_result" where
  "opensearch_result nt wb d now answer =
     (case answer of
        Inl e \<Rightarrow> failed d (Some e) (''OpenSearch check failed: '' @ nt_error_text nt e)
      | Inr ans \<Rightarrow>
          (if ha_code ans \<noteq> 200 then failed d None (''OpenSearch check failed (status: '' @ itoa (ha_code ans) @ '')'')
           else case decode_struct wb cluster_health ans of
             Inl e \<Rightarrow> failed d (Some e) (''OpenSearch check failed to parse response: '' @ nt_error_text nt e)
           | Inr h \<Rightarrow> health_result nt d h))"

definition new_opensearch :: "'w net \<Rightarrow> 'w web \<Rightarrow> string \<Rightarrow> string \<Rightarrow> 'w driver result" where
  "new_opensearch nt wb endpoint family =
     (if endpoint = [] then Inl ''endpoint cannot be empty''
      else let base = trim_suffix endpoint ''/''
        in Inr \<lparr>dv_check = asked nt (wb_get wb (httpClient family) (base @ ''/_cluster/health'') (driver_agent wb))
                  (opensearch_result nt wb), dv_endpoint = base, dv_type = ''opensearch''\<rparr>)"

section \<open>Trino\<close>

definition trino_info :: field_kind where
  "trino_info = KStruct
     [(''uptime'', KText), (''coordinator'', KTruth), (''starting'', KTruth), (''environment'', KText),
      (''nodeVersion'', KStruct [(''version'', KText)])]"

definition truth_text :: "bool \<Rightarrow> string" where
  "truth_text b = (if b then ''true'' else ''false'')"

definition trino_health :: "'w net \<Rightarrow> duration \<Rightarrow> jvalue \<Rightarrow> check_result" where
  "trino_health nt d j =
     (let coordinator = truth_field j ''coordinator''; starting = truth_field j ''starting'';
          version = text_field (struct_field j ''nodeVersion'') ''version''; environment = text_field j ''environment'' in
      if coordinator \<and> \<not> starting
      then passed d (''Trino check successful (coordinator: '' @ truth_text coordinator @ '', starting: '' @ truth_text starting
        @ '', uptime: '' @ text_field j ''uptime'' @ '', version: '' @ version @ '', env: '' @ environment
        @ '', response time: '' @ nt_duration_text nt d @ '')'')
      else failed d None (''Trino check failed (coordinator: '' @ truth_text coordinator @ '', starting: '' @ truth_text starting
        @ '', version: '' @ version @ '', env: '' @ environment @ '')''))"

definition trino_result :: "'w net \<Rightarrow> 'w web \<Rightarrow> duration \<Rightarrow> time \<Rightarrow> string + http_answer \<Rightarrow> check_result" where
  "trino_result nt wb d now answer =
     (case answer of
        Inl e \<Rightarrow> failed d (Some e) (''Trino check failed: '' @ nt_error_text nt e)
      | Inr ans \<Rightarrow>
          (if ha_code ans \<noteq> 200 then failed d None (''Trino check failed (status: '' @ itoa (ha_code ans) @ '')'')
           else case decode_struct wb trino_info ans of
             Inl e \<Rightarrow> failed d (Some e) (''Trino check failed to parse response: '' @ nt_error_text nt e)
           | Inr j \<Rightarrow> trino_health nt d j))"

text \<open>Trino is asked with the default agent of the standard library.\<close>

definition new_trino :: "'w net \<Rightarrow> 'w web \<Rightarrow> string \<Rightarrow> string \<Rightarrow> 'w driver result" where
  "new_trino nt wb endpoint family =
     (if endpoint = [] then Inl ''endpoint cannot be empty''
      else let base = trim_suffix endpoint ''/''
        in Inr \<lparr>dv_check = asked nt (wb_get wb (httpClient family) (base @ ''/v1/info'') ''Go-http-client/1.1'')
                  (trino_result nt wb), dv_endpoint = base, dv_type = ''trino''\<rparr>)"

section \<open>They report\<close>

lemma failed_passed [simp]: "\<not> cr_success (failed d e m)" "cr_success (passed d m)" "cr_error (passed d m) = None"
  by (simp_all add: failed_def passed_def)

definition sound_judge :: "(duration \<Rightarrow> time \<Rightarrow> string + http_answer \<Rightarrow> check_result) \<Rightarrow> bool" where
  "sound_judge judge \<longleftrightarrow> (\<forall>d now answer. cr_success (judge d now answer) \<longrightarrow> cr_error (judge d now answer) = None)"

lemma asked_reporting: "sound_judge judge \<Longrightarrow> reporting (asked nt get judge)"
  by (unfold_locales) (auto simp: asked_def sound_judge_def split: prod.splits)

lemma http_body_sound: "cr_success (http_body_result nt d ans x) \<Longrightarrow> cr_error (http_body_result nt d ans x) = None"
  by (auto simp: http_body_result_def http_ok_def split: prod.splits option.splits body_error.splits if_splits)

lemma judges_sound:
  "sound_judge (http_result nt check hc)" "sound_judge (http_json_result nt wb jc)"
  "sound_judge (opensearch_result nt wb)" "sound_judge (trino_result nt wb)"
  by (auto simp: sound_judge_def http_result_def Let_def http_ok_def http_json_result_def opensearch_result_def trino_result_def
      health_result_def trino_health_def
      split: sum.splits option.splits prod.splits body_error.splits if_splits list.splits dest: http_body_sound)

interpretation http: reporting "asked nt get (http_result nt check hc)" for nt :: "'w net" and get check hc
  by (rule asked_reporting) (rule judges_sound)

interpretation http_json: reporting "asked nt get (http_json_result nt wb jc)" for nt :: "'w net" and get wb jc
  by (rule asked_reporting) (rule judges_sound)

interpretation opensearch: reporting "asked nt get (opensearch_result nt wb)" for nt :: "'w net" and get wb
  by (rule asked_reporting) (rule judges_sound)

interpretation trino: reporting "asked nt get (trino_result nt wb)" for nt :: "'w net" and get wb
  by (rule asked_reporting) (rule judges_sound)

end
