(* ===== verification/Smtp_Client.thy ===== *)
theory Smtp_Client
  imports Notifier_Core Go_Net
begin

text \<open>
  The SMTP client of the standard library (\<^verbatim>\<open>net/smtp\<close>) as the program uses it, with the
  authentication of \<^verbatim>\<open>internal/common/smtpAuth/smtpAuth.go\<close>. A server answers to the lines it has
  received so far, each with the mark whether it came over TLS; no answer is a broken connection. The
  log of those lines is the client's whole effect.
\<close>

type_synonym smtp_log = "(bool \<times> string) list"

record smtp_server =
  sv_answer :: "smtp_log \<Rightarrow> (int \<times> string) option"
  sv_handshake :: "string \<Rightarrow> string option"

record smtp =
  sc_log :: smtp_log
  sc_tls :: bool
  sc_name :: string
  sc_local :: string
  sc_did_hello :: bool
  sc_ext :: "(string, string) gomap"
  sc_auth :: "string list"

datatype smtp_error = Broken | Reply int string | Other string

section \<open>Commands\<close>

text \<open>\<^verbatim>\<open>textproto\<close> accepts a code by its leading digits; an expectation of 0 accepts all.\<close>

definition code_ok :: "int \<Rightarrow> int \<Rightarrow> bool" where
  "code_ok expect code \<longleftrightarrow>
     \<not> (1 \<le> expect \<and> expect < 10 \<and> code div 100 \<noteq> expect
        \<or> 10 \<le> expect \<and> expect < 100 \<and> code div 10 \<noteq> expect
        \<or> 100 \<le> expect \<and> expect < 1000 \<and> code \<noteq> expect)"

definition read_answer :: "smtp_server \<Rightarrow> int \<Rightarrow> smtp \<Rightarrow> smtp_error + (int \<times> string)" where
  "read_answer srv expect c =
     (case sv_answer srv (sc_log c) of
        None \<Rightarrow> Inl Broken
      | Some (code, msg) \<Rightarrow> if code_ok expect code then Inr (code, msg) else Inl (Reply code msg))"

definition say :: "string \<Rightarrow> smtp \<Rightarrow> smtp" where
  "say line c = c\<lparr>sc_log := sc_log c @ [(sc_tls c, line)]\<rparr>"

definition smtp_cmd :: "smtp_server \<Rightarrow> int \<Rightarrow> string \<Rightarrow> smtp \<Rightarrow> (smtp_error + (int \<times> string)) \<times> smtp" where
  "smtp_cmd srv expect line c = (read_answer srv expect (say line c), say line c)"

definition simple_cmd :: "smtp_server \<Rightarrow> int \<Rightarrow> string \<Rightarrow> smtp \<Rightarrow> smtp_error option \<times> smtp" where
  "simple_cmd srv expect line c =
     (case smtp_cmd srv expect line c of (Inl e, c') \<Rightarrow> (Some e, c') | (Inr _, c') \<Rightarrow> (None, c'))"

definition validateLine :: "string \<Rightarrow> smtp_error option" where
  "validateLine line =
     (if CHR 0x0A \<in> set line \<or> CHR 0x0D \<in> set line
      then Some (Other ''smtp: A line must not contain CR or LF'') else None)"

text \<open>\<^verbatim>\<open>smtp.NewClient\<close> reads the greeting.\<close>

definition NewClient :: "smtp_server \<Rightarrow> bool \<Rightarrow> string \<Rightarrow> smtp_error + smtp" where
  "NewClient srv tls name =
     (let c = \<lparr>sc_log = [], sc_tls = tls, sc_name = name, sc_local = ''localhost'', sc_did_hello = False,
               sc_ext = [], sc_auth = []\<rparr>
      in case read_answer srv 220 c of Inl e \<Rightarrow> Inl e | Inr _ \<Rightarrow> Inr c)"

definition parse_ext :: "string \<Rightarrow> (string, string) gomap" where
  "parse_ext msg =
     fold (\<lambda>line. case cut line '' '' of Some (k, v) \<Rightarrow> map_put k v | None \<Rightarrow> map_put line [])
       (drop 1 (split_byte (CHR 0x0A) msg)) []"

definition ehlo :: "smtp_server \<Rightarrow> smtp \<Rightarrow> smtp_error option \<times> smtp" where
  "ehlo srv c =
     (case smtp_cmd srv 250 (''EHLO '' @ sc_local c) c of
        (Inl e, c') \<Rightarrow> (Some e, c')
      | (Inr (_, msg), c') \<Rightarrow>
          (None, c'\<lparr>sc_ext := parse_ext msg,
            sc_auth := (case map_of (parse_ext msg) ''AUTH'' of Some ms \<Rightarrow> split_byte (CHR '' '') ms | None \<Rightarrow> sc_auth c')\<rparr>))"

definition helo :: "smtp_server \<Rightarrow> smtp \<Rightarrow> smtp_error option \<times> smtp" where
  "helo srv c = simple_cmd srv 250 (''HELO '' @ sc_local c) (c\<lparr>sc_ext := []\<rparr>)"

definition hello :: "smtp_server \<Rightarrow> smtp \<Rightarrow> smtp_error option \<times> smtp" where
  "hello srv c =
     (if sc_did_hello c then (None, c)
      else case ehlo srv (c\<lparr>sc_did_hello := True\<rparr>) of
        (None, c') \<Rightarrow> (None, c')
      | (Some _, c') \<Rightarrow> helo srv c')"

definition Hello :: "smtp_server \<Rightarrow> string \<Rightarrow> smtp \<Rightarrow> smtp_error option \<times> smtp" where
  "Hello srv name c =
     (case validateLine name of
        Some e \<Rightarrow> (Some e, c)
      | None \<Rightarrow> if sc_did_hello c then (Some (Other ''smtp: Hello called after other methods''), c)
                else hello srv (c\<lparr>sc_local := name\<rparr>))"

text \<open>A command that says hello first.\<close>

definition after_hello :: "smtp_server \<Rightarrow> (smtp \<Rightarrow> smtp_error option \<times> smtp) \<Rightarrow> smtp \<Rightarrow> smtp_error option \<times> smtp" where
  "after_hello srv f c = (case hello srv c of (Some e, c') \<Rightarrow> (Some e, c') | (None, c') \<Rightarrow> f c')"

definition StartTLS :: "smtp_server \<Rightarrow> string \<Rightarrow> smtp \<Rightarrow> smtp_error option \<times> smtp" where
  "StartTLS srv serverName =
     after_hello srv (\<lambda>c. case smtp_cmd srv 220 ''STARTTLS'' c of
        (Inl e, c1) \<Rightarrow> (Some e, c1)
      | (Inr _, c1) \<Rightarrow>
          (case sv_handshake srv serverName of
             Some e \<Rightarrow> (Some (Other e), c1\<lparr>sc_tls := True\<rparr>)
           | None \<Rightarrow> ehlo srv (c1\<lparr>sc_tls := True\<rparr>)))"

definition Extension :: "smtp_server \<Rightarrow> string \<Rightarrow> smtp \<Rightarrow> bool \<times> smtp" where
  "Extension srv ext c =
     (case hello srv c of (Some _, c') \<Rightarrow> (False, c') | (None, c') \<Rightarrow> (has_key (sc_ext c') (to_upper ext), c'))"

definition Quit :: "smtp_server \<Rightarrow> smtp \<Rightarrow> smtp_error option \<times> smtp" where
  "Quit srv = after_hello srv (simple_cmd srv 221 ''QUIT'')"

definition Mail :: "smtp_server \<Rightarrow> string \<Rightarrow> smtp \<Rightarrow> smtp_error option \<times> smtp" where
  "Mail srv from' c0 =
     (case validateLine from' of
        Some e \<Rightarrow> (Some e, c0)
      | None \<Rightarrow> after_hello srv (\<lambda>c. simple_cmd srv 250 (''MAIL FROM:<'' @ from' @ ''>''
          @ (if has_key (sc_ext c) ''8BITMIME'' then '' BODY=8BITMIME'' else [])
          @ (if has_key (sc_ext c) ''SMTPUTF8'' then '' SMTPUTF8'' else [])) c) c0)"

definition Rcpt :: "smtp_server \<Rightarrow> string \<Rightarrow> smtp \<Rightarrow> smtp_error option \<times> smtp" where
  "Rcpt srv to' c =
     (case validateLine to' of
        Some e \<Rightarrow> (Some e, c)
      | None \<Rightarrow> simple_cmd srv 25 (''RCPT TO:<'' @ to' @ ''>'') c)"

definition Verify :: "smtp_server \<Rightarrow> string \<Rightarrow> smtp \<Rightarrow> smtp_error option \<times> smtp" where
  "Verify srv addr c =
     (case validateLine addr of
        Some e \<Rightarrow> (Some e, c)
      | None \<Rightarrow> after_hello srv (simple_cmd srv 250 (''VRFY '' @ addr)) c)"

text \<open>
  The writer of \<^verbatim>\<open>Data\<close>: lines end in CR LF, a dot that starts a line is doubled, and a line of one dot
  ends the message. The whole of it is one entry of the log.
\<close>

datatype dot_state = BeginText | BeginLine | AfterCR | InLine

fun dot_encode :: "dot_state \<Rightarrow> string \<Rightarrow> string" where
  "dot_encode st [] =
     (if st = BeginLine then [] else if st = AfterCR then [CHR 0x0A] else crlf) @ ''.'' @ crlf"
| "dot_encode st (c # cs) =
     (if st = AfterCR then c # dot_encode (if c = CHR 0x0A then BeginLine else InLine) cs
      else (if st \<noteq> InLine \<and> c = CHR ''.'' then ''.'' else [])
        @ (if c = CHR 0x0A then [CHR 0x0D] else [])
        @ c # dot_encode (if c = CHR 0x0D then AfterCR else if c = CHR 0x0A then BeginLine else InLine) cs)"

definition send_data :: "smtp_server \<Rightarrow> string \<Rightarrow> smtp \<Rightarrow> smtp_error option \<times> smtp" where
  "send_data srv msg c =
     (case simple_cmd srv 354 ''DATA'' c of
        (Some e, c') \<Rightarrow> (Some e, c')
      | (None, c') \<Rightarrow> simple_cmd srv 250 (dot_encode BeginText msg) c')"

section \<open>Authentication\<close>

record smtp_auth =
  au_identity :: string
  au_username :: string
  au_password :: string
  au_host :: string
  au_method :: string

definition CommonAuth :: "string \<Rightarrow> string \<Rightarrow> string \<Rightarrow> string \<Rightarrow> smtp_auth" where
  "CommonAuth identity username password host =
     \<lparr>au_identity = identity, au_username = username, au_password = password, au_host = host, au_method = []\<rparr>"

definition plain_response :: "smtp_auth \<Rightarrow> string" where
  "plain_response a = au_identity a @ [CHR 0x00] @ au_username a @ [CHR 0x00] @ au_password a"

definition auth_start :: "smtp_auth \<Rightarrow> bool \<Rightarrow> string \<Rightarrow> string list \<Rightarrow> smtp_error + (string \<times> string \<times> smtp_auth)" where
  "auth_start a tls name mechs =
     (if \<not> tls then Inl (Other ''insecure connection'')
      else if name \<noteq> au_host a then Inl (Other ''server and auth host do not match'')
      else if ''PLAIN'' \<notin> set mechs then Inr (''LOGIN'', [], a\<lparr>au_method := ''LOGIN''\<rparr>)
      else Inr (''PLAIN'', plain_response a, a\<lparr>au_method := ''PLAIN''\<rparr>))"

text \<open>The next response; none ends the exchange.\<close>

definition auth_next :: "smtp_auth \<Rightarrow> string \<Rightarrow> bool \<Rightarrow> smtp_error + string option" where
  "auth_next a fromServer again =
     (if \<not> again then Inr None
      else if au_method a = ''PLAIN'' then Inl (Other ''unexpected server challenge during plain'')
      else if fromServer = ''Username:'' then Inr (Some (au_username a))
      else if fromServer = ''Password:'' then Inr (Some (au_password a))
      else Inl (Other (''unexpected server challenge during login: '' @ fromServer)))"

section \<open>Base64, both ways\<close>

definition letter_index :: "char \<Rightarrow> nat option" where
  "letter_index c =
     (let n = of_char c :: nat
      in if 65 \<le> n \<and> n \<le> 90 then Some (n - 65) else if 97 \<le> n \<and> n \<le> 122 then Some (n - 71)
         else if 48 \<le> n \<and> n \<le> 57 then Some (n + 4) else if c = CHR ''+'' then Some 62
         else if c = CHR ''/'' then Some 63 else None)"

fun decode_groups :: "string \<Rightarrow> string option" where
  "decode_groups [] = Some []"
| "decode_groups [a, b, c, d] =
     (if d \<noteq> CHR ''='' then
        (case (letter_index a, letter_index b, letter_index c, letter_index d) of
           (Some w, Some x, Some y, Some z) \<Rightarrow>
             Some [char_of (w * 4 + x div 16), char_of (x mod 16 * 16 + y div 4), char_of (y mod 4 * 64 + z)]
         | _ \<Rightarrow> None)
      else if c \<noteq> CHR ''='' then
        (case (letter_index a, letter_index b, letter_index c) of
           (Some w, Some x, Some y) \<Rightarrow> Some [char_of (w * 4 + x div 16), char_of (x mod 16 * 16 + y div 4)]
         | _ \<Rightarrow> None)
      else
        (case (letter_index a, letter_index b) of
           (Some w, Some x) \<Rightarrow> Some [char_of (w * 4 + x div 16)]
         | _ \<Rightarrow> None))"
| "decode_groups (a # b # c # d # e # rest) =
     (case (letter_index a, letter_index b, letter_index c, letter_index d, decode_groups (e # rest)) of
        (Some w, Some x, Some y, Some z, Some s) \<Rightarrow>
          Some (char_of (w * 4 + x div 16) # char_of (x mod 16 * 16 + y div 4) # char_of (y mod 4 * 64 + z) # s)
      | _ \<Rightarrow> None)"
| "decode_groups _ = None"

text \<open>\<^verbatim>\<open>DecodeString\<close> skips line breaks.\<close>

definition base64_decode :: "string \<Rightarrow> string option" where
  "base64_decode s = decode_groups (filter (\<lambda>c. c \<noteq> CHR 0x0D \<and> c \<noteq> CHR 0x0A) s)"

section \<open>The exchange\<close>

text \<open>
  The loop of \<^verbatim>\<open>smtp.Client.Auth\<close>, after an answer. Every challenge the server may still send takes one
  unit of fuel; the rounds of a server that never ends are cut off with an error of their own.
\<close>

definition auth_response :: "smtp_auth \<Rightarrow> int \<Rightarrow> string \<Rightarrow> smtp_error + string option" where
  "auth_response a code msg64 =
     (if code = 334 then
        (case base64_decode msg64 of
           Some m \<Rightarrow> auth_next a m True
         | None \<Rightarrow> Inl (Other ''illegal base64 data''))
      else if code = 235 then auth_next a msg64 False
      else Inl (Reply code msg64))"

fun auth_rounds :: "nat \<Rightarrow> smtp_server \<Rightarrow> smtp_auth \<Rightarrow> smtp_error + (int \<times> string) \<Rightarrow> smtp
    \<Rightarrow> smtp_error option \<times> smtp" where
  "auth_rounds fuel srv a (Inl e) c = (Some e, c)"
| "auth_rounds 0 srv a (Inr _) c = (Some (Other ''too many challenges''), c)"
| "auth_rounds (Suc fuel) srv a (Inr (code, msg64)) c =
     (case auth_response a code msg64 of
        Inl e \<Rightarrow> (Some e, snd (Quit srv (snd (smtp_cmd srv 501 ''*'' c))))
      | Inr None \<Rightarrow> (None, c)
      | Inr (Some resp) \<Rightarrow>
          (case smtp_cmd srv 0 (base64 resp) c of (answer, c') \<Rightarrow> auth_rounds fuel srv a answer c'))"

definition Auth :: "nat \<Rightarrow> smtp_server \<Rightarrow> smtp_auth \<Rightarrow> smtp \<Rightarrow> smtp_error option \<times> smtp" where
  "Auth fuel srv a =
     after_hello srv (\<lambda>c. case auth_start a (sc_tls c) (sc_name c) (sc_auth c) of
        Inl e \<Rightarrow> (Some e, snd (Quit srv c))
      | Inr (mech, resp, a') \<Rightarrow>
          (case smtp_cmd srv 0 (trim_space (''AUTH '' @ mech @ '' '' @ base64 resp)) c of
             (answer, c') \<Rightarrow> auth_rounds fuel srv a' answer c'))"

section \<open>What reaches the wire in the clear\<close>

definition clear_lines :: "smtp \<Rightarrow> string list" where
  "clear_lines c = map snd (filter (\<lambda>(tls, _). \<not> tls) (sc_log c))"

text \<open>Every operation keeps the log it finds; over TLS it adds nothing in the clear and stays there.\<close>

definition extends :: "smtp \<Rightarrow> smtp \<Rightarrow> bool" where
  "extends c c' \<longleftrightarrow> (sc_tls c \<longrightarrow> sc_tls c' \<and> clear_lines c' = clear_lines c)"

lemma extends_refl [simp]: "extends c c"
  by (simp add: extends_def)

lemma extends_trans: "extends c c1 \<Longrightarrow> extends c1 c2 \<Longrightarrow> extends c c2"
  by (simp add: extends_def)

lemma extends_say [simp]: "extends c (say line c)"
  by (simp add: extends_def say_def clear_lines_def)

lemma say_tls [simp]: "sc_tls (say line c) = sc_tls c"
  by (simp add: say_def)

lemma extends_cmd: "smtp_cmd srv e line c = (r, c') \<Longrightarrow> extends c c' \<and> sc_tls c' = sc_tls c"
  by (auto simp: smtp_cmd_def)

lemma extends_simple: "simple_cmd srv e line c = (r, c') \<Longrightarrow> extends c c' \<and> sc_tls c' = sc_tls c"
  by (auto simp: simple_cmd_def smtp_cmd_def split: sum.splits)

lemma extends_ext [simp]: "extends c (c'\<lparr>sc_ext := x, sc_auth := y\<rparr>) = extends c c'"
  "extends c (c'\<lparr>sc_did_hello := b\<rparr>) = extends c c'" "extends (c\<lparr>sc_did_hello := b\<rparr>) c' = extends c c'"
  "extends (c\<lparr>sc_ext := x\<rparr>) c' = extends c c'" "extends (c\<lparr>sc_local := n\<rparr>) c' = extends c c'"
  by (simp_all add: extends_def clear_lines_def)

lemma extends_ehlo: "ehlo srv c = (r, c') \<Longrightarrow> extends c c'"
  by (auto simp: ehlo_def smtp_cmd_def split: sum.splits option.splits)

lemma extends_helo: "helo srv c = (r, c') \<Longrightarrow> extends c c'"
  using extends_simple [of srv 250 "''HELO '' @ sc_local c" "c\<lparr>sc_ext := []\<rparr>" r c'] by (simp add: helo_def)

lemma extends_hello: "hello srv c = (r, c') \<Longrightarrow> extends c c'"
proof -
  assume h: "hello srv c = (r, c')"
  obtain e c1 where eh: "ehlo srv (c\<lparr>sc_did_hello := True\<rparr>) = (e, c1)" by fastforce
  have "extends c c1" using extends_ehlo [OF eh] by simp
  with h eh show ?thesis
    by (cases e) (auto simp: hello_def split: if_splits dest: extends_helo intro: extends_trans)
qed

lemma extends_after_hello:
  assumes "after_hello srv f c = (r, c')" "\<And>c r c'. f c = (r, c') \<Longrightarrow> extends c c'"
  shows "extends c c'"
  using assms(1) by (auto simp: after_hello_def split: prod.splits option.splits
      dest: extends_hello intro: extends_trans assms(2))

lemma extends_quit: "extends c (snd (Quit srv c))"
proof -
  obtain r c' where q: "Quit srv c = (r, c')" by fastforce
  have "extends c c'"
    using q [unfolded Quit_def] by (rule extends_after_hello) (auto dest: extends_simple)
  with q show ?thesis by simp
qed

lemma extends_abort: "extends c (snd (Quit srv (snd (smtp_cmd srv 501 line c))))"
proof -
  have "extends c (snd (smtp_cmd srv 501 line c))" by (simp add: smtp_cmd_def)
  then show ?thesis using extends_quit extends_trans by blast
qed

lemma extends_auth_rounds: "auth_rounds fuel srv a answer c = (r, c') \<Longrightarrow> extends c c'"
proof (induction fuel arbitrary: answer c)
  case 0
  then show ?case by (cases answer) auto
next
  case (Suc fuel)
  show ?case
  proof (cases answer)
    case (Inr x)
    obtain code msg64 where x: "x = (code, msg64)" by fastforce
    show ?thesis
    proof (cases "auth_response a code msg64")
      case (Inl e)
      with Suc.prems Inr x extends_abort show ?thesis by auto
    next
      case (Inr resp)
      note resp = Inr
      show ?thesis
      proof (cases resp)
        case None
        with Suc.prems \<open>answer = Inr x\<close> x resp show ?thesis by simp
      next
        case (Some y)
        obtain answer' c1 where 1: "smtp_cmd srv 0 (base64 y) c = (answer', c1)" by fastforce
        with Suc.prems \<open>answer = Inr x\<close> x resp Some have "auth_rounds fuel srv a answer' c1 = (r, c')" by simp
        with Suc.IH extends_cmd [OF 1] show ?thesis by (blast intro: extends_trans)
      qed
    qed
  qed (use Suc.prems in simp)
qed

lemma extends_mail: "Mail srv from' c = (r, c') \<Longrightarrow> extends c c'"
  unfolding Mail_def by (auto split: option.splits elim!: extends_after_hello dest: extends_simple)

lemma extends_rcpt: "Rcpt srv to' c = (r, c') \<Longrightarrow> extends c c'"
  by (auto simp: Rcpt_def split: option.splits dest: extends_simple)

lemma extends_verify: "Verify srv addr c = (r, c') \<Longrightarrow> extends c c'"
  unfolding Verify_def by (auto split: option.splits elim!: extends_after_hello dest: extends_simple)

lemma extends_data: "send_data srv msg c = (r, c') \<Longrightarrow> extends c c'"
  by (auto simp: send_data_def split: prod.splits option.splits dest!: extends_simple intro: extends_trans)

text \<open>
  Without TLS, what \<open>Auth\<close> does does not depend on the credentials: it says nothing but a hello and a
  goodbye, and fails.
\<close>

lemma smtp_cmd_tls: "sc_tls (snd (smtp_cmd srv e line c)) = sc_tls c"
  by (simp add: smtp_cmd_def)

lemma hello_tls: "hello srv c = (r, c') \<Longrightarrow> sc_tls c' = sc_tls c"
proof -
  assume h: "hello srv c = (r, c')"
  obtain e c1 where eh: "ehlo srv (c\<lparr>sc_did_hello := True\<rparr>) = (e, c1)" by fastforce
  then have "sc_tls c1 = sc_tls c" by (auto simp: ehlo_def smtp_cmd_def split: sum.splits option.splits)
  moreover have "helo srv c1 = (r', c2) \<Longrightarrow> sc_tls c2 = sc_tls c1" for r' c2
    using extends_simple [of srv 250 "''HELO '' @ sc_local c1" "c1\<lparr>sc_ext := []\<rparr>" r' c2] by (simp add: helo_def)
  ultimately show ?thesis using h eh by (cases e) (auto simp: hello_def split: if_splits)
qed

lemma Auth_clear:
  assumes "\<not> sc_tls c"
  shows "Auth fuel srv a c = Auth fuel srv a' c" "fst (Auth fuel srv a c) \<noteq> None"
proof -
  obtain e c1 where h: "hello srv c = (e, c1)" by fastforce
  with hello_tls [OF h] assms have "\<not> sc_tls c1" by simp
  with h show "Auth fuel srv a c = Auth fuel srv a' c" "fst (Auth fuel srv a c) \<noteq> None"
    by (cases e; simp add: Auth_def after_hello_def auth_start_def)+
qed

lemma extends_Auth: "Auth fuel srv a c = (r, c') \<Longrightarrow> extends c c'"
  unfolding Auth_def
proof (erule extends_after_hello)
  fix c r c'
  assume h: "(case auth_start a (sc_tls c) (sc_name c) (sc_auth c) of
        Inl e \<Rightarrow> (Some e, snd (Quit srv c))
      | Inr (mech, resp, a') \<Rightarrow>
          (case smtp_cmd srv 0 (trim_space (''AUTH '' @ mech @ '' '' @ base64 resp)) c of
             (answer, c') \<Rightarrow> auth_rounds fuel srv a' answer c')) = (r, c')"
  show "extends c c'"
  proof (cases "auth_start a (sc_tls c) (sc_name c) (sc_auth c)")
    case (Inl e)
    with h show ?thesis using extends_quit by auto
  next
    case (Inr x)
    obtain mech resp a' where x: "x = (mech, resp, a')" by (metis prod_cases3)
    obtain answer c1 where 1: "smtp_cmd srv 0 (trim_space (''AUTH '' @ mech @ '' '' @ base64 resp)) c = (answer, c1)" by fastforce
    with h Inr x have "auth_rounds fuel srv a' answer c1 = (r, c')" by simp
    with extends_cmd [OF 1] show ?thesis by (blast intro: extends_trans extends_auth_rounds)
  qed
qed

end
