(* ===== verification/Notifier_Email.thy ===== *)
theory Notifier_Email
  imports Smtp_Client Monitor_Types
begin

text \<open>
  \<^verbatim>\<open>internal/notifier/email/email.go\<close>: the notifier that sends mail by SMTP or Amazon SES. SES itself, the
  Secret, the templates and the connection are arguments; the deadline of a conversation is left out.
\<close>

section \<open>Configuration\<close>

definition new_email :: "'w externals \<Rightarrow> email_config option \<Rightarrow> email_config result" where
  "new_email ex config =
     (case config of
        None \<Rightarrow> Inl ''email config is nil or disabled''
      | Some c \<Rightarrow>
          (let provider = to_upper (em_provider c); is_smtp = (provider = [] \<or> provider = ''SMTP'') in
           if \<not> em_enabled c then Inl ''email config is nil or disabled''
           else if provider = ''SES'' \<and> em_from c = [] then Inl ''invalid email configuration: from field is required for ses''
           else if \<not> is_smtp \<and> provider \<noteq> ''SES''
           then Inl (''unsupported emailProvider '' @ quoted (em_provider c) @ '', must be smtp or ses'')
           else if em_secret c = [] \<and> is_smtp \<and> provider = [] \<and> em_host c = []
           then Inl ''email config is nil or missing Host or emailProvider''
           else if em_secret c = [] \<and> is_smtp \<and> provider = ''SMTP'' \<and> em_host c = []
           then Inl ''emailProvider is smtp and missing Host''
           else if em_secret c = [] \<and> is_smtp \<and> em_from c = [] then Inl ''invalid email configuration: from field is required''
           else if em_to c = [] then Inl ''invalid email configuration: to array is required''
           else case (if em_subject c \<noteq> [] then ex_bad_template ex (em_subject c) else None) of
             Some e \<Rightarrow> Inl (''failed to parse the subject template: '' @ e)
           | None \<Rightarrow>
               (case (if em_body c \<noteq> [] then ex_bad_template ex (em_body c) else None) of
                  Some e \<Rightarrow> Inl (''failed to parse the body template: '' @ e)
                | None \<Rightarrow> Inr c)))"

section \<open>The message\<close>

text \<open>A text with a byte outside the printable part of ASCII is sent as an encoded word.\<close>

definition escapeUTF8 :: "string \<Rightarrow> string" where
  "escapeUTF8 s =
     (if list_ex (\<lambda>c. 127 < (of_char c :: nat) \<or> (of_char c :: nat) < 32) s
      then ''=?utf-8?B?'' @ base64 s @ ''?='' else s)"

definition mail_body :: "string \<Rightarrow> string list \<Rightarrow> string \<Rightarrow> string \<Rightarrow> string \<Rightarrow> string" where
  "mail_body from' to' date subject msg =
     ''From: '' @ from' @ crlf @ ''To: '' @ join '', '' to' @ crlf @ ''Date: '' @ date @ crlf
       @ ''Subject: '' @ escapeUTF8 subject @ crlf @ crlf @ replace_byte (CHR 0x0A) crlf msg @ crlf"

section \<open>The conversation\<close>

definition andthen :: "(smtp \<Rightarrow> smtp_error option \<times> smtp) \<Rightarrow> (smtp \<Rightarrow> smtp_error option \<times> smtp)
    \<Rightarrow> smtp \<Rightarrow> smtp_error option \<times> smtp" where
  "andthen f g c = (case f c of (Some e, c') \<Rightarrow> (Some e, c') | (None, c') \<Rightarrow> g c')"

definition secure :: "smtp_server \<Rightarrow> string \<Rightarrow> smtp \<Rightarrow> smtp_error option \<times> smtp" where
  "secure srv host c =
     (case Extension srv ''STARTTLS'' c of
        (True, c') \<Rightarrow> StartTLS srv host c'
      | (False, c') \<Rightarrow> (None, c'))"

definition log_in :: "nat \<Rightarrow> smtp_server \<Rightarrow> smtp_auth option \<Rightarrow> smtp \<Rightarrow> smtp_error option \<times> smtp" where
  "log_in fuel srv auth c =
     (case auth of
        None \<Rightarrow> (None, c)
      | Some a \<Rightarrow>
          (case Extension srv ''AUTH'' c of
             (True, c') \<Rightarrow> Auth fuel srv a c'
           | (False, c') \<Rightarrow> (Some (Other ''smtp: server doesn't support AUTH''), c')))"

fun all_rcpt :: "smtp_server \<Rightarrow> string list \<Rightarrow> smtp \<Rightarrow> smtp_error option \<times> smtp" where
  "all_rcpt srv [] c = (None, c)"
| "all_rcpt srv (addr # addrs) c = andthen (Rcpt srv addr) (all_rcpt srv addrs) c"

definition send_message :: "smtp_server \<Rightarrow> string \<Rightarrow> string list \<Rightarrow> string \<Rightarrow> smtp \<Rightarrow> smtp_error option \<times> smtp" where
  "send_message srv from' to' msg =
     andthen (Mail srv from') (andthen (all_rcpt srv to') (andthen (send_data srv msg) (Quit srv)))"

definition conversation :: "nat \<Rightarrow> smtp_server \<Rightarrow> string \<Rightarrow> smtp_auth option \<Rightarrow> string \<Rightarrow> string list \<Rightarrow> string
    \<Rightarrow> smtp \<Rightarrow> smtp_error option \<times> smtp" where
  "conversation fuel srv host auth from' to' msg =
     andthen (Hello srv ''localhost'')
       (andthen (secure srv host) (andthen (log_in fuel srv auth) (send_message srv from' to' msg)))"

text \<open>The error, and the lines that were sent.\<close>

definition sendMail :: "nat \<Rightarrow> (string \<Rightarrow> string + smtp_server) \<Rightarrow> string \<Rightarrow> smtp_auth option \<Rightarrow> string \<Rightarrow> string list
    \<Rightarrow> string \<Rightarrow> smtp_error option \<times> smtp_log" where
  "sendMail fuel dial addr auth from' to' msg =
     (case (if validateLine from' = None then List.find (\<lambda>recp. validateLine recp \<noteq> None) to' else Some from') of
        Some bad \<Rightarrow> (validateLine bad, [])
      | None \<Rightarrow>
          (case SplitHostPort addr of
             None \<Rightarrow> (Some (Other ''missing port in address''), [])
           | Some (host, _) \<Rightarrow>
               (case dial addr of
                  Inl e \<Rightarrow> (Some (Other e), [])
                | Inr srv \<Rightarrow>
                    (case NewClient srv False host of
                       Inl e \<Rightarrow> (Some e, [])
                     | Inr c \<Rightarrow>
                         (case conversation fuel srv host auth from' to' msg c of
                            (e, c') \<Rightarrow> (e, sc_log c'))))))"

section \<open>Sending an alert\<close>

text \<open>
  The outside of a mail: the date as \<^verbatim>\<open>RFC1123Z\<close>, the dialled server, what a conversation leaves behind,
  and SES with its error.
\<close>

record 'w mailer =
  ml_date :: "'w \<Rightarrow> string"
  ml_dial :: "'w \<Rightarrow> string \<Rightarrow> string + smtp_server"
  ml_sent :: "smtp_log \<Rightarrow> 'w \<Rightarrow> 'w"
  ml_ses :: "string \<Rightarrow> string list \<Rightarrow> string \<Rightarrow> string \<Rightarrow> 'w \<Rightarrow> string option \<times> 'w"

definition smtp_error_text :: "smtp_error \<Rightarrow> string" where
  "smtp_error_text e = (case e of Broken \<Rightarrow> ''EOF'' | Reply code msg \<Rightarrow> fmt_int 3 code @ '' '' @ msg | Other t \<Rightarrow> t)"

text \<open>Host, sender and credentials, as the Secret overrides the configuration.\<close>

definition mail_settings :: "email_config \<Rightarrow> (string, string) gomap \<Rightarrow> string \<times> string \<times> smtp_auth option" where
  "mail_settings cfg secret =
     (let host = get_or (em_host cfg) secret ''host'';
          from' = get_or (em_from cfg) secret ''from'';
          username = get_or [] secret ''username'';
          password = get_or [] secret ''password'';
          host_part = (case SplitHostPort host of Some (h, _) \<Rightarrow> h | None \<Rightarrow> [])
      in (host, from', if username \<noteq> [] \<and> password \<noteq> []
                then Some (CommonAuth (get_or [] secret ''identity'') username password host_part) else None))"

definition SendSMTP :: "nat \<Rightarrow> 'w externals \<Rightarrow> 'w mailer \<Rightarrow> email_config \<Rightarrow> string \<Rightarrow> string \<Rightarrow> notice_values \<Rightarrow> 'w
    \<Rightarrow> string option \<times> 'w" where
  "SendSMTP fuel ex ml cfg subject msg vals w =
     (case (if em_secret cfg \<noteq> [] then ex_secret ex (em_secret cfg) (nv_namespace vals) w else Inr []) of
        Inl e \<Rightarrow> (Some (''unable to read secret: '' @ e), w)
      | Inr secret \<Rightarrow>
          (case mail_settings cfg secret of
             (host, from', auth) \<Rightarrow>
               (if host = [] then (Some ''emailProvider is smtp and missing host'', w)
                else if from' = [] then (Some ''invalid email configuration: from field is required'', w)
                else case sendMail fuel (ml_dial ml w) host auth from' (em_to cfg)
                    (mail_body from' (em_to cfg) (ml_date ml w) subject msg) of
                  (e, sent) \<Rightarrow> (map_option smtp_error_text e, ml_sent ml sent w))))"

definition SendSES :: "'w mailer \<Rightarrow> email_config \<Rightarrow> string \<Rightarrow> string \<Rightarrow> 'w \<Rightarrow> string option \<times> 'w" where
  "SendSES ml cfg subject msg w =
     ml_ses ml (em_from cfg) (em_to cfg) subject (replace_byte (CHR 0x0A) crlf msg @ crlf) w"

definition filled_in :: "'w externals \<Rightarrow> string \<Rightarrow> string \<Rightarrow> notice_values \<Rightarrow> string result" where
  "filled_in ex what tmpl vals =
     (if tmpl = [] then Inr (nv_alert_message vals)
      else case ex_template ex tmpl vals of
        Inl e \<Rightarrow> Inl (''failed to execute the '' @ what @ '' template: '' @ e)
      | Inr t \<Rightarrow> Inr t)"

definition email_send :: "nat \<Rightarrow> 'w externals \<Rightarrow> 'w mailer \<Rightarrow> email_config \<Rightarrow> 'w notifier" where
  "email_send fuel ex ml cfg status vals w =
     (if \<not> ShouldAlert (em_alert_on cfg) status then (None, w)
      else case filled_in ex ''subject'' (em_subject cfg) vals of
        Inl e \<Rightarrow> (Some (Permanent e), w)
      | Inr subject \<Rightarrow>
          (case filled_in ex ''body'' (em_body cfg) vals of
             Inl e \<Rightarrow> (Some (Permanent e), w)
           | Inr msg \<Rightarrow>
               (let provider = to_upper (em_provider cfg) in
                if provider = [] \<or> provider = ''SMTP''
                then (case SendSMTP fuel ex ml cfg subject msg vals w of
                        (e, w') \<Rightarrow> (map_option (\<lambda>t. Permanent (''smtp send failed: '' @ t)) e, w'))
                else if provider = ''SES''
                then (case SendSES ml cfg subject msg w of
                        (e, w') \<Rightarrow> (map_option (\<lambda>t. Permanent (''ses send failed: '' @ t)) e, w'))
                else (None, w))))"

section \<open>Credentials stay on TLS\<close>

lemma extends_andthen:
  assumes "andthen f g c = (r, c')" "\<And>c r c'. f c = (r, c') \<Longrightarrow> extends c c'" "\<And>c r c'. g c = (r, c') \<Longrightarrow> extends c c'"
  shows "extends c c'"
  using assms(1) by (auto simp: andthen_def split: prod.splits option.splits dest: assms(2,3) intro: extends_trans)

lemma extends_all_rcpt: "all_rcpt srv to' c = (r, c') \<Longrightarrow> extends c c'"
proof (induction to' arbitrary: c r c')
  case (Cons addr to')
  then show ?case unfolding all_rcpt.simps by (elim extends_andthen) (auto dest: extends_rcpt)
qed simp

lemma extends_quit': "Quit srv c = (r, c') \<Longrightarrow> extends c c'"
  using extends_quit [of c srv] by simp

lemma extends_send_message: "send_message srv from' to' msg c = (r, c') \<Longrightarrow> extends c c'"
  unfolding send_message_def
  by (elim extends_andthen) (auto dest: extends_mail extends_all_rcpt extends_data extends_quit' intro: extends_andthen)

lemma Extension_tls: "Extension srv ext c = (b, c') \<Longrightarrow> sc_tls c' = sc_tls c \<and> extends c c'"
  by (auto simp: Extension_def split: prod.splits option.splits dest: hello_tls extends_hello)

lemma extends_log_in: "log_in fuel srv auth c = (r, c') \<Longrightarrow> extends c c'"
  by (auto simp: log_in_def split: option.splits prod.splits bool.splits
      dest: extends_Auth Extension_tls intro: extends_trans)

lemma log_in_clear:
  assumes "\<not> sc_tls c"
  shows "log_in fuel srv (Some a) c = log_in fuel srv (Some a') c" "fst (log_in fuel srv (Some a) c) \<noteq> None"
proof -
  obtain b c1 where e: "Extension srv ''AUTH'' c = (b, c1)" by fastforce
  with Extension_tls [OF e] assms have t: "\<not> sc_tls c1" by simp
  show "log_in fuel srv (Some a) c = log_in fuel srv (Some a') c" "fst (log_in fuel srv (Some a) c) \<noteq> None"
    using e Auth_clear(1) [OF t, of fuel srv a a'] Auth_clear(2) [OF t, of fuel srv a] by (cases b; simp add: log_in_def)+
qed

lemma clear_after_login:
  "clear_lines (snd (andthen (log_in fuel srv (Some a)) (send_message srv from' to' msg) c))
    = clear_lines (snd (andthen (log_in fuel srv (Some a')) (send_message srv from' to' msg) c))"
proof (cases "sc_tls c")
  case True
  have "clear_lines (snd (andthen (log_in fuel srv (Some x)) (send_message srv from' to' msg) c)) = clear_lines c" for x
  proof -
    obtain r c' where r: "andthen (log_in fuel srv (Some x)) (send_message srv from' to' msg) c = (r, c')" by fastforce
    then have "extends c c'" by (rule extends_andthen) (auto dest: extends_log_in extends_send_message)
    with r True show ?thesis by (simp add: extends_def)
  qed
  then show ?thesis by simp
next
  case False
  from log_in_clear(1) [OF this, of fuel srv a a'] log_in_clear(2) [OF this, of fuel srv a] show ?thesis
    by (cases "log_in fuel srv (Some a) c") (auto simp: andthen_def)
qed

lemma conversation_clear:
  "clear_lines (snd (conversation fuel srv host (Some a) from' to' msg c))
    = clear_lines (snd (conversation fuel srv host (Some a') from' to' msg c))"
proof -
  obtain e1 c1 where 1: "Hello srv ''localhost'' c = (e1, c1)" by fastforce
  obtain e2 c2 where 2: "secure srv host c1 = (e2, c2)" by fastforce
  show ?thesis
    using 1 2 clear_after_login [of fuel srv a from' to' msg c2 a']
    by (cases e1; cases e2) (simp_all add: conversation_def andthen_def [of "Hello srv ''localhost''"] andthen_def [of "secure srv host"])
qed

definition clear_log :: "smtp_log \<Rightarrow> string list" where
  "clear_log sent = map snd (filter (\<lambda>(tls, _). \<not> tls) sent)"

text \<open>
  C33: credentials never cross the network in the clear. Whatever the server answers, the lines that
  sendMail sends outside TLS are the same for all credentials, so they carry nothing of them.
\<close>

theorem credentials_stay_on_tls:
  "clear_log (snd (sendMail fuel dial addr (Some a) from' to' msg))
     = clear_log (snd (sendMail fuel dial addr (Some a') from' to' msg))"
proof (cases "if validateLine from' = None then List.find (\<lambda>recp. validateLine recp \<noteq> None) to' else Some from'")
  case None
  show ?thesis
  proof (cases "SplitHostPort addr")
    case (Some hp)
    obtain host port where hp: "hp = (host, port)" by fastforce
    show ?thesis
    proof (cases "dial addr")
      case (Inr srv)
      show ?thesis
        using None Some hp Inr conversation_clear [of fuel srv host a from' to' msg _ a']
        by (cases "NewClient srv False host") (simp_all add: sendMail_def clear_log_def clear_lines_def case_prod_unfold)
    qed (use None Some hp in \<open>simp add: sendMail_def\<close>)
  qed (use None in \<open>simp add: sendMail_def\<close>)
qed (simp add: sendMail_def)

section \<open>No header can be injected\<close>

definition one_line :: "string \<Rightarrow> bool" where
  "one_line s \<longleftrightarrow> CHR 0x0D \<notin> set s \<and> CHR 0x0A \<notin> set s"

lemma base64_letter_one_line: "n < 64 \<Longrightarrow> base64_letter n \<noteq> CHR 0x0D \<and> base64_letter n \<noteq> CHR 0x0A"
proof -
  assume n: "n < 64"
  have "(of_char (base64_letter n) :: nat) \<noteq> 13 \<and> (of_char (base64_letter n) :: nat) \<noteq> 10"
    using n by (auto simp: base64_letter_def of_char_of take_bit_eq_mod)
  then show ?thesis by auto
qed

lemma sextet:
  fixes x :: nat
  shows "x < 256 \<Longrightarrow> x div 4 < 64" "x mod 4 * 16 < 64" "x mod 16 * 4 < 64" "x mod 64 < 64"
  using mod_less_divisor [of 4 x] mod_less_divisor [of 16 x] by (simp_all add: less_mult_imp_div_less)

lemma sextet_sum:
  fixes x y :: nat
  assumes "y < 256"
  shows "x mod 4 * 16 + y div 16 < 64" "x mod 16 * 4 + y div 64 < 64"
proof -
  have "y div 16 < 16" "y div 64 < 4" using assms by (simp_all add: less_mult_imp_div_less)
  moreover have "x mod 4 < 4" "x mod 16 < 16" by simp_all
  ultimately show "x mod 4 * 16 + y div 16 < 64" "x mod 16 * 4 + y div 64 < 64" by linarith+
qed

lemma one_line_simps [simp]:
  "one_line []" "one_line (c # s) \<longleftrightarrow> c \<noteq> CHR 0x0D \<and> c \<noteq> CHR 0x0A \<and> one_line s"
  "one_line (s @ t) \<longleftrightarrow> one_line s \<and> one_line t"
  by (auto simp: one_line_def)

lemma base64_one_line: "one_line (base64 s)"
  by (induction s rule: base64.induct)
    (simp_all add: Let_def base64_letter_one_line sextet sextet_sum)

lemma escapeUTF8_one_line: "one_line (escapeUTF8 s)"
proof (cases "list_ex (\<lambda>c. 127 < (of_char c :: nat) \<or> (of_char c :: nat) < 32) s")
  case True
  then show ?thesis by (simp add: escapeUTF8_def base64_one_line)
next
  case False
  then have "\<forall>c \<in> set s. 32 \<le> (of_char c :: nat)" by (auto simp: list_ex_iff)
  then have "one_line s" by (auto simp: one_line_def)
  with False show ?thesis by (simp add: escapeUTF8_def)
qed

lemma one_line_join: "list_all one_line ss \<Longrightarrow> one_line sep \<Longrightarrow> one_line (join sep ss)"
  by (induction sep ss rule: join.induct) simp_all

text \<open>
  C34: an alert cannot add headers to the mail it is sent in. Once sendMail has sent a line, the
  message it was given by SendSMTP has exactly the four header lines of the code, whatever the
  subject and the body contain, and then an empty line.
\<close>

theorem no_header_injection:
  assumes "sendMail fuel dial addr auth from' to' (mail_body from' to' date subject msg) = (e, sent)" "sent \<noteq> []"
    and "one_line date"
  shows "\<exists>h1 h2 h3 h4 rest. mail_body from' to' date subject msg = h1 @ crlf @ h2 @ crlf @ h3 @ crlf @ h4 @ crlf @ crlf @ rest
    \<and> list_all one_line [h1, h2, h3, h4]
    \<and> has_prefix h1 ''From: '' \<and> has_prefix h2 ''To: '' \<and> has_prefix h3 ''Date: '' \<and> has_prefix h4 ''Subject: ''"
proof -
  have v: "validateLine x = None \<longleftrightarrow> one_line x" for x by (auto simp: validateLine_def one_line_def)
  have "(if validateLine from' = None then List.find (\<lambda>recp. validateLine recp \<noteq> None) to' else Some from') = None" (is "?bad = None")
    using assms(1,2) by (cases ?bad) (simp_all add: sendMail_def)
  then have f: "one_line from'" and t: "list_all one_line to'"
    by (auto simp: v find_None_iff list_all_iff split: if_splits)
  let ?rest = "replace_byte (CHR 0x0A) crlf msg @ crlf"
  have "mail_body from' to' date subject msg = (''From: '' @ from') @ crlf @ (''To: '' @ join '', '' to') @ crlf
      @ (''Date: '' @ date) @ crlf @ (''Subject: '' @ escapeUTF8 subject) @ crlf @ crlf @ ?rest"
    by (simp add: mail_body_def)
  moreover have "list_all one_line [''From: '' @ from', ''To: '' @ join '', '' to', ''Date: '' @ date, ''Subject: '' @ escapeUTF8 subject]"
    using f t assms(3) one_line_join [OF t, of "'', ''"] escapeUTF8_one_line by simp
  moreover have "has_prefix (''From: '' @ from') ''From: ''" "has_prefix (''To: '' @ join '', '' to') ''To: ''"
    "has_prefix (''Date: '' @ date) ''Date: ''" "has_prefix (''Subject: '' @ escapeUTF8 subject) ''Subject: ''"
    by (simp_all add: has_prefix_def)
  ultimately show ?thesis by blast
qed

definition demo_smtp :: smtp_server where
  "demo_smtp =
     \<lparr>sv_answer = (\<lambda>sent. Some (if sent = [] then 220 else if snd (last sent) = ''DATA'' then 354
        else if snd (last sent) = ''QUIT'' then 221 else 250, [])),
      sv_handshake = (\<lambda>host. None)\<rparr>"

definition demo_mail :: string where
  "demo_mail = mail_body ''op@x'' [''a@x'', ''b@x''] ''Mon'' (''db down'' @ crlf @ ''Bcc: c@x'') ''refused''"

theorem no_header_injection_witness:
  "fst (sendMail 3 (\<lambda>_. Inr demo_smtp) ''mx:25'' None ''op@x'' [''a@x'', ''b@x''] demo_mail) = None
    \<and> (\<exists>h1 h2 h3 h4 rest. demo_mail = h1 @ crlf @ h2 @ crlf @ h3 @ crlf @ h4 @ crlf @ crlf @ rest
      \<and> list_all one_line [h1, h2, h3, h4])"
proof -
  let ?s = "sendMail 3 (\<lambda>_. Inr demo_smtp) ''mx:25'' None ''op@x'' [''a@x'', ''b@x''] demo_mail"
  have s: "fst ?s = None" "length (snd ?s) = 7" by code_simp+
  then have "snd ?s \<noteq> []" "one_line ''Mon''" by auto
  moreover have "?s = (fst ?s, snd ?s)" by simp
  ultimately show ?thesis
    using no_header_injection [of 3 "\<lambda>_. Inr demo_smtp" "''mx:25''" None "''op@x''" "[''a@x'', ''b@x'']" "''Mon''"
        "''db down'' @ crlf @ ''Bcc: c@x''" "''refused''" "fst ?s" "snd ?s"] s(1)
    unfolding demo_mail_def by blast
qed

end
