(* ===== verification/Driver_Net.thy ===== *)
theory Driver_Net
  imports Driver_Http Notifier_Email
begin

text \<open>
  \<^verbatim>\<open>internal/common/dane.go\<close>, and the drivers of \<^verbatim>\<open>internal/driver/tls.go\<close> and \<^verbatim>\<open>redis.go\<close>, which speak a protocol
  of their own. Connections, the DNS and the hash functions are arguments.
\<close>

section \<open>DANE\<close>

record certificate =
  ct_raw :: string
  ct_public_key :: string
  ct_not_after :: time

record tlsa =
  ts_usage :: int
  ts_selector :: int
  ts_matching :: int
  ts_data :: string

record hashes =
  hs_sha256 :: "string \<Rightarrow> string"
  hs_sha512 :: "string \<Rightarrow> string"

definition matchTLSA :: "hashes \<Rightarrow> certificate \<Rightarrow> tlsa \<Rightarrow> bool" where
  "matchTLSA hs cert t =
     (case (if ts_selector t = 0 then Some (ct_raw cert) else if ts_selector t = 1 then Some (ct_public_key cert) else None) of
        None \<Rightarrow> False
      | Some d \<Rightarrow>
          (if ts_matching t = 0 then d = ts_data t
           else if ts_matching t = 1 then hs_sha256 hs d = ts_data t
           else if ts_matching t = 2 then hs_sha512 hs d = ts_data t
           else False))"

definition VerifyDANE :: "hashes \<Rightarrow> certificate list \<Rightarrow> tlsa \<Rightarrow> string option" where
  "VerifyDANE hs certs t =
     (case certs of
        [] \<Rightarrow> Some ''no peer certificates provided''
      | leaf # _ \<Rightarrow>
          (case (if ts_usage t = 1 \<or> ts_usage t = 3 then Some [leaf]
                 else if ts_usage t = 0 \<or> ts_usage t = 2 then Some certs else None) of
             None \<Rightarrow> Some (''unsupported TLSA Usage: '' @ itoa (ts_usage t))
           | Some checked \<Rightarrow>
               (if list_ex (\<lambda>cert. matchTLSA hs cert t) checked then None
                else Some ''TLSA record does not match any provided certificates'')))"

text \<open>\<^verbatim>\<open>strings.Fields\<close>, and the first nameserver of \<^verbatim>\<open>/etc/resolv.conf\<close>.\<close>

function text_fields :: "string \<Rightarrow> string list" where
  "text_fields s =
     (let s' = dropWhile is_space s
      in if s' = [] then [] else takeWhile (\<lambda>c. \<not> is_space c) s' # text_fields (dropWhile (\<lambda>c. \<not> is_space c) s'))"
  by auto
termination
proof (relation "measure length")
  fix s s' :: string
  assume s': "s' = dropWhile is_space s" and ne: "s' \<noteq> []"
  then have hd: "\<not> is_space (hd s')" using hd_dropWhile by metis
  have le: "length s' \<le> length s" unfolding s' by (rule length_dropWhile_le)
  from ne obtain a l where al: "s' = a # l" by (cases s') auto
  have "length (dropWhile (\<lambda>c. \<not> is_space c) s') \<le> length l"
    using hd length_dropWhile_le unfolding al by simp
  then show "(dropWhile (\<lambda>c. \<not> is_space c) s', s) \<in> measure length" using le unfolding al by simp
qed simp

declare text_fields.simps [simp del]

fun first_nameserver :: "string list \<Rightarrow> string option" where
  "first_nameserver [] = None"
| "first_nameserver (line # ls) =
     (if has_prefix line ''nameserver '' \<and> 2 \<le> length (text_fields line) then Some (text_fields line ! 1)
      else first_nameserver ls)"

definition getNameserver :: "string option \<Rightarrow> string" where
  "getNameserver resolv_conf =
     (case resolv_conf of
        None \<Rightarrow> ''8.8.8.8:53''
      | Some d \<Rightarrow>
          (case first_nameserver (split_byte (CHR 0x0A) d) of
             None \<Rightarrow> ''8.8.8.8:53''
           | Some ip \<Rightarrow> if CHR '':'' \<in> set ip then ''['' @ ip @ '']:53'' else ip @ '':53''))"

text \<open>\<^verbatim>\<open>hex.DecodeString\<close>; its error names the invalid byte, which is left out here.\<close>

definition hex_decode :: "string \<Rightarrow> string result" where
  "hex_decode s =
     (if \<not> list_all is_hex s then Inl ''encoding/hex: invalid byte''
      else if odd (length s) then Inl ''encoding/hex: odd length hex string''
      else Inr (map (\<lambda>i. char_of (the (hex_val (s ! (2 * i))) * 16 + the (hex_val (s ! (2 * i + 1)))))
             [0..<length s div 2]))"

text \<open>An answer of the DNS: a TLSA record with its data in hexadecimal, or another record.\<close>

datatype dns_record = TlsaRecord int int int string | OtherRecord

fun check_records :: "hashes \<Rightarrow> certificate list \<Rightarrow> dns_record list \<Rightarrow> bool \<Rightarrow> string \<Rightarrow> string option" where
  "check_records hs certs [] found lastErr =
     (if found then Some (''certificate verification failed against all TLSA records: '' @ lastErr) else None)"
| "check_records hs certs (OtherRecord # rs) found lastErr = check_records hs certs rs found lastErr"
| "check_records hs certs (TlsaRecord usage selector matching hex # rs) found lastErr =
     (case hex_decode hex of
        Inl e \<Rightarrow> check_records hs certs rs True (''failed to decode certificate hex: '' @ e)
      | Inr d \<Rightarrow>
          (case VerifyDANE hs certs \<lparr>ts_usage = usage, ts_selector = selector, ts_matching = matching, ts_data = d\<rparr> of
             None \<Rightarrow> None
           | Some e \<Rightarrow> check_records hs certs rs True e))"

text \<open>
  The outside of DANE: the file \<^verbatim>\<open>/etc/resolv.conf\<close>, and a query to a nameserver: its response code and
  answers, or none.
\<close>

record 'w dane =
  da_hashes :: hashes
  da_resolv_conf :: "'w \<Rightarrow> string option"
  da_query :: "string \<Rightarrow> string \<Rightarrow> 'w \<Rightarrow> (int \<times> dns_record list) option \<times> 'w"

definition ResolveAndVerifyDANE :: "'w dane \<Rightarrow> string \<Rightarrow> string \<Rightarrow> certificate list \<Rightarrow> 'w \<Rightarrow> string option \<times> 'w" where
  "ResolveAndVerifyDANE da domain port certs w =
     (if certs = [] then (None, w)
      else case da_query da (getNameserver (da_resolv_conf da w)) (''_'' @ port @ ''._tcp.'' @ domain @ ''.'') w of
        (None, w') \<Rightarrow> (None, w')
      | (Some (rcode, answers), w') \<Rightarrow>
          (if rcode \<noteq> 0 then (None, w') else (check_records (da_hashes da) certs answers False [], w')))"

section \<open>The tls driver\<close>

definition tls_target :: "tls_check \<Rightarrow> string \<Rightarrow> string \<times> string \<times> string" where
  "tls_target check endpoint =
     (let (host, port) = hostPort endpoint ''443''
      in (JoinHostPort host port, if tk_host check \<noteq> [] then tk_host check else host, port))"

text \<open>\<open>dial\<close> is a handshake over a network with an address under a server name: the verified certificates, which are never none.\<close>

definition tls_run :: "'w net \<Rightarrow> 'w dane \<Rightarrow> (string \<Rightarrow> string \<Rightarrow> string \<Rightarrow> 'w \<Rightarrow> (string + certificate list) \<times> 'w)
    \<Rightarrow> tls_check \<Rightarrow> string \<Rightarrow> string \<Rightarrow> 'w \<Rightarrow> string option \<times> 'w" where
  "tls_run nt da dial check endpoint family w =
     (case tls_target check endpoint of
        (addr, serverName, port) \<Rightarrow>
          (case dial (familyNetwork ''tcp'' family) addr serverName w of
             (Inl e, w1) \<Rightarrow> (Some e, w1)
           | (Inr certs, w1) \<Rightarrow>
               (case (if 0 < tk_days check then expiry_error nt (tk_days check) (ct_not_after (hd certs)) (nt_now nt w1) else None) of
                  Some e \<Rightarrow> (Some e, w1)
                | None \<Rightarrow> ResolveAndVerifyDANE da serverName port certs w1)))"

definition or_default :: "'a \<Rightarrow> 'a option \<Rightarrow> 'a" where
  "or_default d x = (case x of Some v \<Rightarrow> v | None \<Rightarrow> d)"

definition new_tls :: "'w net \<Rightarrow> 'w dane \<Rightarrow> (string \<Rightarrow> string \<Rightarrow> string \<Rightarrow> 'w \<Rightarrow> (string + certificate list) \<times> 'w)
    \<Rightarrow> string \<Rightarrow> string \<Rightarrow> tls_check option \<Rightarrow> 'w driver result" where
  "new_tls nt da dial endpoint family check =
     (case guard_endpoint endpoint of
        Some e \<Rightarrow> Inl e
      | None \<Rightarrow> Inr \<lparr>dv_check = timed_check nt ''TLS''
          (tls_run nt da dial (or_default \<lparr>tk_days = 0, tk_host = []\<rparr> check) endpoint family),
          dv_endpoint = endpoint, dv_type = ''tls''\<rparr>)"

section \<open>The redis driver\<close>

text \<open>\<^verbatim>\<open>ReadSlice\<close> on a buffer of 64 KiB.\<close>

datatype slice_error = BufferFull | SliceFailed

definition read_slice :: "string \<Rightarrow> slice_error + (string \<times> string)" where
  "read_slice inp =
     (case read_string (take 65536 inp) of
        Some (line, _) \<Rightarrow> Inr (line, drop (length line) inp)
      | None \<Rightarrow> if 65536 \<le> length inp then Inl BufferFull else Inl SliceFailed)"

definition cut_word :: "string \<Rightarrow> string" where
  "cut_word s = (case cut s '' '' of Some (a, _) \<Rightarrow> a | None \<Rightarrow> s)"

text \<open>\<open>quote\<close> is \<^verbatim>\<open>strconv.Quote\<close>.\<close>

definition redisCommand :: "(string \<Rightarrow> string) \<Rightarrow> string \<Rightarrow> string list \<Rightarrow> connection \<Rightarrow> string option \<times> connection" where
  "redisCommand quote want args c =
     (case cn_write (redisEncode args) c of
        (Some e, c1) \<Rightarrow> (Some (hd args @ '': '' @ e), c1)
      | (None, c1) \<Rightarrow>
          (case read_slice (cn_in c1) of
             Inl BufferFull \<Rightarrow> (Some (hd args @ '': reply longer than 64 KiB''), c1)
           | Inl SliceFailed \<Rightarrow> (Some (hd args @ '': EOF''), c1)
           | Inr (line, rest) \<Rightarrow>
               (let c2 = c1\<lparr>cn_in := rest\<rparr>; reply = trim_right is_eol line in
                if reply = want then (None, c2)
                else let shown = (if hd args = ''AUTH'' then cut_word reply else reply);
                         short = (if 128 < length shown then take 128 shown @ ''...'' else shown)
                  in (Some (hd args @ '': unexpected reply '' @ quote short), c2))))"

definition redis_auth :: "string \<times> string \<Rightarrow> string list option" where
  "redis_auth up =
     (case up of (username, password) \<Rightarrow>
       (if password = [] then None
        else if username \<noteq> [] then Some [''AUTH'', username, password] else Some [''AUTH'', password]))"

text \<open>A connection over a network to an address, with a server name when it uses TLS; and its end.\<close>

record 'w streams =
  sm_open :: "bool \<Rightarrow> string \<Rightarrow> string \<Rightarrow> string \<Rightarrow> 'w \<Rightarrow> (string + connection) \<times> 'w"
  sm_close :: "connection \<Rightarrow> 'w \<Rightarrow> 'w"
  sm_quote :: "string \<Rightarrow> string"

definition redis_talk :: "(string \<Rightarrow> string) \<Rightarrow> string list option \<Rightarrow> connection \<Rightarrow> string option \<times> connection" where
  "redis_talk quote auth c =
     (case (case auth of None \<Rightarrow> (None, c) | Some args \<Rightarrow> redisCommand quote ''+OK'' args c) of
        (Some e, c1) \<Rightarrow> (Some e, c1)
      | (None, c1) \<Rightarrow>
          (case redisCommand quote ''+PONG'' [''PING''] c1 of
             (Some e, c2) \<Rightarrow> (Some e, c2)
           | (None, c2) \<Rightarrow> (None, snd (cn_write (redisEncode [''QUIT'']) c2))))"

definition redis_run :: "'w streams \<Rightarrow> redis_check \<Rightarrow> string list option \<Rightarrow> string \<Rightarrow> string \<Rightarrow> 'w
    \<Rightarrow> string option \<times> ('w \<Rightarrow> 'w) \<times> 'w" where
  "redis_run sm check auth endpoint family w =
     (let (host, port) = hostPort endpoint ''6379'' in
      case sm_open sm (rk_tls check) (familyNetwork ''tcp'' family) (JoinHostPort host port) host w of
        (Inl e, w1) \<Rightarrow> (Some e, (\<lambda>w. w), w1)
      | (Inr c, w1) \<Rightarrow> (case redis_talk (sm_quote sm) auth c of (err, c') \<Rightarrow> (err, sm_close sm c', w1)))"

definition new_redis :: "'w net \<Rightarrow> 'w streams \<Rightarrow> string \<Rightarrow> string \<Rightarrow> redis_check option \<Rightarrow> string \<Rightarrow> 'w \<Rightarrow> 'w driver result" where
  "new_redis nt sm endpoint family check namespace w =
     (case guard_endpoint endpoint of
        Some e \<Rightarrow> Inl e
      | None \<Rightarrow>
          (let ck = or_default \<lparr>rk_tls = False, rk_secret = []\<rparr> check in
           case login_of nt (rk_secret ck) namespace w of
             Inl e \<Rightarrow> Inl e
           | Inr login \<Rightarrow> Inr \<lparr>dv_check = deferred_check nt ''REDIS'' (redis_run sm ck (redis_auth login) endpoint family),
                             dv_endpoint = endpoint, dv_type = ''redis''\<rparr>))"

end
