(* ===== verification/Driver_Probes.thy ===== *)
theory Driver_Probes
  imports Driver_Net
begin

text \<open>
  The drivers of \<^verbatim>\<open>internal/driver/smtp.go\<close>, on the SMTP client of \<open>Smtp_Client\<close>, and of
  \<^verbatim>\<open>internal/driver/dns.go\<close>. Dialling and the resolvers are arguments; their deadlines show as the
  errors they cause.
\<close>

section \<open>The smtp driver\<close>

text \<open>
  A connection over TLS or in the clear, a network, an address and a server name, with the verified
  certificates of the handshake; the certificates behind STARTTLS; and what a conversation leaves behind.
\<close>

record 'w smtp_net =
  sn_open :: "bool \<Rightarrow> string \<Rightarrow> string \<Rightarrow> string \<Rightarrow> 'w \<Rightarrow> (string + (smtp_server \<times> certificate list)) \<times> 'w"
  sn_upgraded :: "smtp_server \<Rightarrow> string \<Rightarrow> certificate list"
  sn_close :: "smtp_log \<Rightarrow> 'w \<Rightarrow> 'w"
  sn_quote :: "string \<Rightarrow> string"

definition smtp_credentials :: "'w smtp_net \<Rightarrow> string \<Rightarrow> (string, string) gomap \<Rightarrow> (smtp_auth \<times> string list) option" where
  "smtp_credentials sn host d =
     (let identity = get_or [] d ''identity''; username = get_or [] d ''username''; password = get_or [] d ''password''
      in if username \<noteq> [] \<and> password \<noteq> []
         then Some (CommonAuth identity username password host,
           [base64 (identity @ [CHR 0x00] @ username @ [CHR 0x00] @ password), base64 password, password,
            butlast (tl (sn_quote sn password))])
         else None)"

definition withholdCredentials :: "string list \<Rightarrow> smtp_error \<Rightarrow> smtp_error" where
  "withholdCredentials secrets e =
     (if list_ex (contains (smtp_error_text e)) secrets
      then Other (case e of
          Reply code _ \<Rightarrow> ''AUTH rejected with '' @ itoa code @ ''; the reply is withheld because it repeats the credentials''
        | _ \<Rightarrow> ''AUTH failed; the error is withheld because it repeats the credentials'')
      else e)"

definition ask_if :: "bool \<Rightarrow> (smtp \<Rightarrow> smtp_error option \<times> smtp) \<Rightarrow> smtp \<Rightarrow> smtp_error option \<times> smtp" where
  "ask_if b f c = (if b then f c else (None, c))"

definition smtp_log_in :: "nat \<Rightarrow> smtp_server \<Rightarrow> (smtp_auth \<times> string list) option \<Rightarrow> smtp \<Rightarrow> smtp_error option \<times> smtp" where
  "smtp_log_in fuel srv creds c =
     (case creds of
        None \<Rightarrow> (None, c)
      | Some (a, secrets) \<Rightarrow>
          (case Auth fuel srv a c of (e, c') \<Rightarrow> (map_option (withholdCredentials secrets) e, c')))"

definition upgrade :: "'w smtp_net \<Rightarrow> 'w dane \<Rightarrow> smtp_server \<Rightarrow> string \<Rightarrow> string \<Rightarrow> smtp \<Rightarrow> 'w
    \<Rightarrow> smtp_error option \<times> smtp \<times> 'w" where
  "upgrade sn da srv host port c w =
     (case StartTLS srv host c of
        (Some e, c') \<Rightarrow> (Some e, c', w)
      | (None, c') \<Rightarrow>
          (case ResolveAndVerifyDANE da host port (sn_upgraded sn srv host) w of
             (err, w') \<Rightarrow> (map_option Other err, c', w')))"

definition smtp_asks :: "nat \<Rightarrow> smtp_server \<Rightarrow> smtp_check \<Rightarrow> (smtp_auth \<times> string list) option \<Rightarrow> smtp \<Rightarrow> smtp_error option \<times> smtp" where
  "smtp_asks fuel srv check creds =
     andthen (smtp_log_in fuel srv creds)
       (andthen (ask_if (sk_verify check \<noteq> []) (Verify srv (sk_verify check)))
         (andthen (ask_if (sk_from check \<noteq> []) (Mail srv (sk_from check)))
           (ask_if (sk_to check \<noteq> []) (Rcpt srv (sk_to check)))))"

definition smtp_dialogue :: "nat \<Rightarrow> 'w smtp_net \<Rightarrow> 'w dane \<Rightarrow> smtp_server \<Rightarrow> smtp_check \<Rightarrow> (smtp_auth \<times> string list) option
    \<Rightarrow> string \<Rightarrow> string \<Rightarrow> smtp \<Rightarrow> 'w \<Rightarrow> smtp_error option \<times> smtp \<times> 'w" where
  "smtp_dialogue fuel sn da srv check creds host port c w =
     (case ask_if (sk_helo check \<noteq> []) (Hello srv (sk_helo check)) c of
        (Some e, c1) \<Rightarrow> (Some e, c1, w)
      | (None, c1) \<Rightarrow>
          (case (if sk_start_tls check \<and> \<not> sk_tls check then upgrade sn da srv host port c1 w else (None, c1, w)) of
             (Some e, c2, w2) \<Rightarrow> (Some e, c2, w2)
           | (None, c2, w2) \<Rightarrow> (case smtp_asks fuel srv check creds c2 of (e, c3) \<Rightarrow> (e, c3, w2))))"

definition smtp_run :: "nat \<Rightarrow> 'w smtp_net \<Rightarrow> 'w dane \<Rightarrow> smtp_check \<Rightarrow> (smtp_auth \<times> string list) option \<Rightarrow> string \<Rightarrow> string
    \<Rightarrow> 'w \<Rightarrow> string option \<times> ('w \<Rightarrow> 'w) \<times> 'w" where
  "smtp_run fuel sn da check creds endpoint family w =
     (let (host, port) = hostPort endpoint ''25'' in
      case sn_open sn (sk_tls check) (familyNetwork ''tcp'' family) (JoinHostPort host port) host w of
        (Inl e, w1) \<Rightarrow> (Some e, (\<lambda>w. w), w1)
      | (Inr (srv, certs), w1) \<Rightarrow>
          (case (if sk_tls check then ResolveAndVerifyDANE da host port certs w1 else (None, w1)) of
             (Some e, w2) \<Rightarrow> (Some e, sn_close sn [], w2)
           | (None, w2) \<Rightarrow>
               (case NewClient srv (sk_tls check) host of
                  Inl e \<Rightarrow> (Some (smtp_error_text e), sn_close sn [], w2)
                | Inr c \<Rightarrow>
                    (case smtp_dialogue fuel sn da srv check creds host port c w2 of
                       (e, c', w3) \<Rightarrow> (map_option smtp_error_text e, sn_close sn (sc_log (say ''QUIT'' c')), w3)))))"

definition no_smtp_check :: smtp_check where
  "no_smtp_check = \<lparr>sk_helo = [], sk_tls = False, sk_start_tls = False, sk_secret = [], sk_verify = [], sk_from = [], sk_to = []\<rparr>"

definition new_smtp :: "nat \<Rightarrow> 'w net \<Rightarrow> 'w smtp_net \<Rightarrow> 'w dane \<Rightarrow> string \<Rightarrow> string \<Rightarrow> smtp_check option \<Rightarrow> string \<Rightarrow> 'w
    \<Rightarrow> 'w driver result" where
  "new_smtp fuel nt sn da endpoint family check namespace w =
     (case guard_endpoint endpoint of
        Some e \<Rightarrow> Inl e
      | None \<Rightarrow>
          (let ck = or_default no_smtp_check check in
           case (if sk_secret ck = [] then Inr [] else nt_secret nt (sk_secret ck) namespace w) of
             Inl e \<Rightarrow> Inl (''unable to read secret: '' @ e)
           | Inr d \<Rightarrow> Inr \<lparr>dv_check = deferred_check nt ''SMTP''
                 (smtp_run fuel sn da ck (smtp_credentials sn (fst (hostPort endpoint ''25'')) d) endpoint family),
               dv_endpoint = endpoint, dv_type = ''smtp''\<rparr>))"

text \<open>The checks that log in do so over TLS only: in the clear the credentials change nothing.\<close>

lemma smtp_log_in_clear:
  assumes "\<not> sc_tls c"
  shows "snd (smtp_log_in fuel srv (Some (a, ss)) c) = snd (smtp_log_in fuel srv (Some (a', ss')) c)"
    "fst (smtp_log_in fuel srv (Some (a, ss)) c) \<noteq> None"
  using Auth_clear(1) [OF assms, of fuel srv a a'] Auth_clear(2) [OF assms, of fuel srv a]
  by (auto simp: smtp_log_in_def split: prod.splits)

section \<open>The dns driver\<close>

text \<open>
  The resolvers: the system's, Go's own over one family, and one that asks a server at an address, over TLS
  under a name or in the clear.
\<close>

datatype resolver = DefaultResolver | GoResolver string | ServerResolver "string option" string string

record 'w lookups =
  lk_host :: "resolver \<Rightarrow> string \<Rightarrow> 'w \<Rightarrow> (string list result) \<times> 'w"
  lk_txt :: "resolver \<Rightarrow> string \<Rightarrow> 'w \<Rightarrow> (string list result) \<times> 'w"
  lk_cname :: "resolver \<Rightarrow> string \<Rightarrow> 'w \<Rightarrow> (string result) \<times> 'w"
  lk_addr :: "resolver \<Rightarrow> string \<Rightarrow> 'w \<Rightarrow> (string list result) \<times> 'w"
  lk_ip :: "resolver \<Rightarrow> string \<Rightarrow> string \<Rightarrow> 'w \<Rightarrow> (ip list result) \<times> 'w"

definition sameName :: "string \<Rightarrow> string \<Rightarrow> bool" where
  "sameName a b = equal_fold (trim_suffix a ''.'') (trim_suffix b ''.'')"

definition choose_resolver :: "'w lookups \<Rightarrow> dns_check \<Rightarrow> string \<Rightarrow> 'w \<Rightarrow> (resolver result) \<times> 'w" where
  "choose_resolver lk check family w =
     (if dn_server check = [] then (Inr (GoResolver family), w)
      else let (host, port) = hostPort (dn_server check) (if dn_tls check then ''853'' else ''53'') in
        case lk_host lk DefaultResolver host w of
          (Inl e, w') \<Rightarrow> (Inl e, w')
        | (Inr addrs, w') \<Rightarrow>
            (case pickFamily addrs family of
               None \<Rightarrow> (Inl (no_family_address addrs family), w')
             | Some addr \<Rightarrow>
                 (Inr (ServerResolver (if dn_tls check then Some host else None) family (JoinHostPort addr port)), w')))"

text \<open>An answer against the value to verify, if there is one.\<close>

definition verified :: "string \<Rightarrow> ('a \<Rightarrow> bool) \<Rightarrow> 'a list result \<times> 'w \<Rightarrow> string option \<times> 'w" where
  "verified want ok r =
     (case r of
        (Inl e, w) \<Rightarrow> (Some e, w)
      | (Inr vs, w) \<Rightarrow>
          (if want \<noteq> [] \<and> \<not> list_ex ok vs then Some ''returned dns result did not match Verify value'' else None, w))"

definition one_answer :: "'a result \<times> 'w \<Rightarrow> 'a list result \<times> 'w" where
  "one_answer r = (case r of (Inl e, w) \<Rightarrow> (Inl e, w) | (Inr v, w) \<Rightarrow> (Inr [v], w))"

definition dns_lookup :: "'w lookups \<Rightarrow> dns_check \<Rightarrow> string \<Rightarrow> resolver \<Rightarrow> 'w \<Rightarrow> string option \<times> 'w" where
  "dns_lookup lk check endpoint r w =
     (let want = dn_verify check; kind = to_upper (dn_type check) in
      if kind = ''TXT'' then verified want (\<lambda>v. v = want) (lk_txt lk r endpoint w)
      else if kind = ''CNAME'' then verified want (\<lambda>v. sameName v want) (one_answer (lk_cname lk r endpoint w))
      else if kind = ''PTR'' then verified want (\<lambda>v. sameName v want) (lk_addr lk r endpoint w)
      else if kind = ''AAAA'' then verified want (\<lambda>v. ip_equal v (ParseIP want)) (lk_ip lk r ''ip6'' endpoint w)
      else if kind = ''A'' then verified want (\<lambda>v. ip_equal v (ParseIP want)) (lk_ip lk r ''ip4'' endpoint w)
      else verified want (\<lambda>v. v = want) (lk_host lk r endpoint w))"

definition dns_run :: "'w lookups \<Rightarrow> dns_check \<Rightarrow> string \<Rightarrow> string \<Rightarrow> 'w \<Rightarrow> string option \<times> 'w" where
  "dns_run lk check endpoint family w =
     (case choose_resolver lk check family w of
        (Inl e, w') \<Rightarrow> (Some e, w')
      | (Inr r, w') \<Rightarrow> dns_lookup lk check endpoint r w')"

definition new_dns :: "'w net \<Rightarrow> 'w lookups \<Rightarrow> string \<Rightarrow> string \<Rightarrow> dns_check option \<Rightarrow> 'w driver result" where
  "new_dns nt lk endpoint family check =
     (case guard_endpoint endpoint of
        Some e \<Rightarrow> Inl e
      | None \<Rightarrow> Inr \<lparr>dv_check = timed_check nt ''DNS''
          (dns_run lk (or_default \<lparr>dn_tls = False, dn_verify = [], dn_server = [], dn_type = []\<rparr> check) endpoint family),
          dv_endpoint = endpoint, dv_type = ''dns''\<rparr>)"

end
