(* ===== verification/Driver_Sql.thy ===== *)
theory Driver_Sql
  imports Driver_Probes Go_Float
begin

text \<open>
  The drivers of \<^verbatim>\<open>internal/driver/mysql.go\<close>, for MySQL and MariaDB, and \<^verbatim>\<open>internal/driver/postgres.go\<close>. The
  client libraries are arguments: what they answer to a query, and the errors they report. Timeouts show
  as those errors.
\<close>

section \<open>MySQL\<close>

record mysql_config =
  mc_user :: string
  mc_password :: string
  mc_net :: string
  mc_addr :: string

text \<open>
  An error of the server has a number. A result has column names, its first row, if any, with NULL as
  \<open>None\<close>, and the error that ended the rows.
\<close>

datatype sql_error = ServerError int string | ClientError string

definition sql_error_text :: "sql_error \<Rightarrow> string" where
  "sql_error_text e = (case e of ServerError _ t \<Rightarrow> t | ClientError t \<Rightarrow> t)"

record sql_rows =
  sr_columns :: "string list"
  sr_first :: "string option list option"
  sr_error :: "string option"

record 'w mysql_db =
  mq_connector :: "mysql_config \<Rightarrow> string option"
  mq_ping :: "mysql_config \<Rightarrow> 'w \<Rightarrow> sql_error option \<times> 'w"
  mq_query :: "mysql_config \<Rightarrow> string \<Rightarrow> 'w \<Rightarrow> (sql_error + sql_rows) \<times> 'w"
  mq_close :: "mysql_config \<Rightarrow> 'w \<Rightarrow> 'w"
  mq_quote :: "string \<Rightarrow> string"

definition mysql_config_of :: "string \<Rightarrow> string \<Rightarrow> string \<times> string \<Rightarrow> mysql_config" where
  "mysql_config_of endpoint family login =
     (let (host, port) = hostPort endpoint ''3306''
      in \<lparr>mc_user = fst login, mc_password = snd login, mc_net = familyNetwork ''tcp'' family, mc_addr = JoinHostPort host port\<rparr>)"

definition quoted :: "string \<Rightarrow> string" where
  "quoted s = [CHR 0x27] @ s @ [CHR 0x27]"

definition column_mismatch :: "nat \<Rightarrow> nat \<Rightarrow> string" where
  "column_mismatch n m = ''sql: expected '' @ itoa (int n) @ '' destination arguments in Scan, not '' @ itoa (int m)"

text \<open>\<^verbatim>\<open>QueryRowContext\<close> with a scan into two strings: the second of them.\<close>

definition scan_second :: "sql_error + sql_rows \<Rightarrow> string result" where
  "scan_second r =
     (case r of
        Inl e \<Rightarrow> Inl (sql_error_text e)
      | Inr rows \<Rightarrow>
          (case sr_first rows of
             None \<Rightarrow> Inl (case sr_error rows of Some e \<Rightarrow> e | None \<Rightarrow> ''sql: no rows in result set'')
           | Some [Some _, Some v] \<Rightarrow> Inr v
           | Some [_, _] \<Rightarrow> Inl ''sql: Scan error: converting NULL to string is unsupported''
           | Some vs \<Rightarrow> Inl (column_mismatch (length vs) 2)))"

definition atoi :: "(string \<Rightarrow> string) \<Rightarrow> string \<Rightarrow> int result" where
  "atoi quote s =
     (case parse_int s of
        (v, None) \<Rightarrow> Inr v
      | (_, Some ErrSyntax) \<Rightarrow> Inl (''strconv.Atoi: parsing '' @ quote s @ '': invalid syntax'')
      | (_, Some ErrRange) \<Rightarrow> Inl (''strconv.Atoi: parsing '' @ quote s @ '': value out of range''))"

definition globalInt :: "'w mysql_db \<Rightarrow> mysql_config \<Rightarrow> string \<Rightarrow> 'w \<Rightarrow> int result \<times> 'w" where
  "globalInt mq cf query w =
     (case mq_query mq cf query w of
        (r, w') \<Rightarrow> ((case scan_second r of Inl e \<Rightarrow> Inl e | Inr v \<Rightarrow> atoi (mq_quote mq) v), w'))"

definition too_many_threads :: "int \<Rightarrow> int \<Rightarrow> bool" where
  "too_many_threads threads maxConnections \<longleftrightarrow>
     0 < maxConnections \<and> f64_div (f64_of_int threads) (f64_of_int maxConnections) > f64 (90 / 100)"

subsection \<open>Replication\<close>

definition nullText :: "string option \<Rightarrow> string" where
  "nullText v = (case v of None \<Rightarrow> ''NULL'' | Some s \<Rightarrow> s)"

text \<open>The column under the first of the names the server has; without any it is NULL under the first name.\<close>

definition column :: "(string, string option) gomap \<Rightarrow> string \<Rightarrow> string \<Rightarrow> string \<times> string option" where
  "column st new old =
     (case map_of st new of
        Some v \<Rightarrow> (new, v)
      | None \<Rightarrow> (case map_of st old of Some v \<Rightarrow> (old, v) | None \<Rightarrow> (new, None)))"

definition not_running :: "string \<times> string option \<Rightarrow> string option" where
  "not_running nv =
     (case nv of (name, v) \<Rightarrow>
       (if v \<noteq> Some ''Yes'' then Some (name @ '' is '' @ nullText v @ '', expected Yes'') else None))"

definition behind_error :: "(string \<Rightarrow> string) \<Rightarrow> int \<Rightarrow> string \<times> string option \<Rightarrow> string option" where
  "behind_error quote maxBehind nv =
     (case nv of (name, v) \<Rightarrow>
       (if v = None \<or> v = Some [] then Some (name @ '' is NULL'')
        else case atoi quote (the v) of
          Inl e \<Rightarrow> Some (name @ '' is '' @ quote (the v) @ '': '' @ e)
        | Inr seconds \<Rightarrow>
            (if seconds > maxBehind then Some (name @ '' exceeds max allowed ('' @ itoa maxBehind @ '')'') else None)))"

definition replication_error :: "(string \<Rightarrow> string) \<Rightarrow> int \<Rightarrow> (string, string option) gomap \<Rightarrow> string option" where
  "replication_error quote maxBehind st =
     (case not_running (column st ''Replica_IO_Running'' ''Slave_IO_Running'') of
        Some e \<Rightarrow> Some e
      | None \<Rightarrow>
          (case not_running (column st ''Replica_SQL_Running'' ''Slave_SQL_Running'') of
             Some e \<Rightarrow> Some e
           | None \<Rightarrow> behind_error quote maxBehind (column st ''Seconds_Behind_Source'' ''Seconds_Behind_Master'')))"

definition rows_error :: "(string \<Rightarrow> string) \<Rightarrow> int \<Rightarrow> sql_rows \<Rightarrow> string option" where
  "rows_error quote maxBehind rows =
     (case sr_first rows of
        None \<Rightarrow>
          (case sr_error rows of
             Some e \<Rightarrow> Some (''failed to read replication status: '' @ e)
           | None \<Rightarrow> Some ''replication status is empty, but maxSecondsBehindMaster is set'')
      | Some vs \<Rightarrow>
          (if length vs \<noteq> length (sr_columns rows) then Some (''failed to scan replication status: '' @ column_mismatch (length (sr_columns rows)) (length vs))
           else replication_error quote maxBehind (fold (\<lambda>(c, v). map_put c v) (zip (sr_columns rows) vs) [])))"

definition checkReplication :: "'w mysql_db \<Rightarrow> mysql_config \<Rightarrow> int \<Rightarrow> 'w \<Rightarrow> string option \<times> 'w" where
  "checkReplication mq cf maxBehind w =
     (case (case mq_query mq cf ''SHOW REPLICA STATUS'' w of
              (Inl (ServerError n t), w1) \<Rightarrow>
                (if n = 1064 then mq_query mq cf ''SHOW SLAVE STATUS'' w1 else (Inl (ServerError n t), w1))
            | r \<Rightarrow> r) of
        (Inl e, w2) \<Rightarrow> (Some (''failed to query replication status: '' @ sql_error_text e), w2)
      | (Inr rows, w2) \<Rightarrow> (rows_error (mq_quote mq) maxBehind rows, w2))"

subsection \<open>The check\<close>

definition role_error :: "bool \<Rightarrow> string \<Rightarrow> string option" where
  "role_error isReplica readOnlyValue =
     (let isReadOnly = (readOnlyValue = ''ON'' \<or> readOnlyValue = ''1'') in
      if isReplica \<and> \<not> isReadOnly
      then Some (''the server is expected to be in readonly mode (it is a replica), but read_only is '' @ readOnlyValue)
      else if \<not> isReplica \<and> isReadOnly
      then Some (''the server is expected to NOT be in readonly mode (it is a primary), but read_only is '' @ readOnlyValue)
      else None)"

definition checkMySQL :: "'w mysql_db \<Rightarrow> mysql_config \<Rightarrow> mysql_check option \<Rightarrow> 'w \<Rightarrow> string option \<times> 'w" where
  "checkMySQL mq cf check w =
     (case mq_ping mq cf w of
        (Some e, w1) \<Rightarrow> (Some (''failed to ping: '' @ sql_error_text e), w1)
      | (None, w1) \<Rightarrow>
     (case globalInt mq cf (''SHOW GLOBAL STATUS LIKE '' @ quoted ''Threads_connected'') w1 of
        (Inl e, w2) \<Rightarrow> (Some (''failed to get threads_connected: '' @ e), w2)
      | (Inr threads, w2) \<Rightarrow>
     (case globalInt mq cf (''SHOW GLOBAL VARIABLES LIKE '' @ quoted ''max_connections'') w2 of
        (Inl e, w3) \<Rightarrow> (Some (''failed to get max_connections: '' @ e), w3)
      | (Inr maxConnections, w3) \<Rightarrow>
          (if too_many_threads threads maxConnections
           then (Some (''threads_connected exceeds 90% of max_connections ('' @ itoa maxConnections @ '')''), w3)
           else case mq_query mq cf (''SHOW GLOBAL VARIABLES LIKE '' @ quoted ''read_only'') w3 of
             (r, w4) \<Rightarrow>
               (case scan_second r of
                  Inl e \<Rightarrow> (Some (''failed to get read_only variable: '' @ e), w4)
                | Inr readOnlyValue \<Rightarrow>
                    (let behind = Option.bind check my_behind in
                     case role_error (behind \<noteq> None) readOnlyValue of
                       Some e \<Rightarrow> (Some e, w4)
                     | None \<Rightarrow>
                         (case behind of
                            None \<Rightarrow> (None, w4)
                          | Some maxBehind \<Rightarrow> checkReplication mq cf maxBehind w4)))))))"

definition mysql_run :: "'w mysql_db \<Rightarrow> mysql_config \<Rightarrow> mysql_check option \<Rightarrow> 'w \<Rightarrow> string option \<times> 'w" where
  "mysql_run mq cf check w =
     (case mq_connector mq cf of
        Some e \<Rightarrow> (Some (''failed to initialize: '' @ e), w)
      | None \<Rightarrow> (case checkMySQL mq cf check w of (err, w') \<Rightarrow> (err, mq_close mq cf w')))"

text \<open>The two kinds differ in their name only.\<close>

definition new_mysql :: "string \<Rightarrow> 'w net \<Rightarrow> 'w mysql_db \<Rightarrow> string \<Rightarrow> string \<Rightarrow> mysql_check option \<Rightarrow> string \<Rightarrow> 'w
    \<Rightarrow> 'w driver result" where
  "new_mysql kind nt mq endpoint family check namespace w =
     (case guard_endpoint endpoint of
        Some e \<Rightarrow> Inl e
      | None \<Rightarrow>
          (case login_of nt (case check of None \<Rightarrow> [] | Some c \<Rightarrow> my_secret c) namespace w of
             Inl e \<Rightarrow> Inl e
           | Inr login \<Rightarrow> Inr \<lparr>dv_check = timed_check nt (to_upper kind) (mysql_run mq (mysql_config_of endpoint family login) check),
                             dv_endpoint = endpoint, dv_type = kind\<rparr>))"

text \<open>A replica passes only as one: read-only, with both threads running and a lag within the bound.\<close>

lemma replication_ok:
  assumes "replication_error quote maxBehind st = None"
  shows "\<exists>name seconds v. column st ''Seconds_Behind_Source'' ''Seconds_Behind_Master'' = (name, Some v)
      \<and> atoi quote v = Inr seconds \<and> seconds \<le> maxBehind"
    "snd (column st ''Replica_IO_Running'' ''Slave_IO_Running'') = Some ''Yes''"
    "snd (column st ''Replica_SQL_Running'' ''Slave_SQL_Running'') = Some ''Yes''"
  using assms
  by (auto simp: replication_error_def not_running_def behind_error_def split: option.splits prod.splits if_splits sum.splits)

section \<open>PostgreSQL\<close>

text \<open>A query answers with its one row, with none, or with an error. A connection fails with an error, which
  may list the causes of its attempts, one to a line.\<close>

datatype pg_value = PgNull | PgBool bool | PgText string | PgFloat rat

datatype pg_answer = PgRow pg_value | PgNoRows | PgError string

datatype pg_failure = PlainFailure string | ConnectError string "string option"

record 'w pg_config =
  pc_user :: string
  pc_host :: string
  pc_database :: string
  pc_password :: string
  pc_family :: string
  pc_lookup :: "string \<Rightarrow> 'w \<Rightarrow> (string list result) \<times> 'w"

record 'w pg_db =
  pq_parse :: "string \<Rightarrow> string \<Rightarrow> string \<Rightarrow> string option"
  pq_lookup :: "string \<Rightarrow> 'w \<Rightarrow> (string list result) \<times> 'w"
  pq_connect :: "'w pg_config \<Rightarrow> 'w \<Rightarrow> pg_failure option \<times> 'w"
  pq_query :: "'w pg_config \<Rightarrow> string \<Rightarrow> 'w \<Rightarrow> pg_answer \<times> 'w"
  pq_close :: "'w pg_config \<Rightarrow> 'w \<Rightarrow> 'w"

definition familyLookup :: "(string \<Rightarrow> 'w \<Rightarrow> (string list result) \<times> 'w) \<Rightarrow> string \<Rightarrow> string \<Rightarrow> 'w \<Rightarrow> (string list result) \<times> 'w" where
  "familyLookup look family host w =
     (case look host w of
        (Inl e, w') \<Rightarrow> (Inl e, w')
      | (Inr addrs, w') \<Rightarrow>
          (let kept = filter (\<lambda>a. pickFamily [a] family \<noteq> None) addrs
           in (Inr (if kept = [] then addrs else kept), w')))"

definition pg_config_of :: "'w pg_db \<Rightarrow> string \<Rightarrow> string \<Rightarrow> string \<times> string \<Rightarrow> postgres_check option \<Rightarrow> 'w pg_config result" where
  "pg_config_of pq endpoint family login check =
     (let (host, port) = hostPort endpoint ''5432'';
          user = (if fst login = [] then ''postgres'' else fst login);
          database = (case check of Some c \<Rightarrow> if pg_database c \<noteq> [] then pg_database c else ''postgres'' | None \<Rightarrow> ''postgres'');
          addr = JoinHostPort host port
      in case pq_parse pq user addr database of
           Some e \<Rightarrow> Inl e
         | None \<Rightarrow> Inr \<lparr>pc_user = user, pc_host = addr, pc_database = database, pc_password = snd login, pc_family = family,
             pc_lookup = (if family \<noteq> [] then familyLookup (pq_lookup pq) family else pq_lookup pq)\<rparr>)"

text \<open>\<^verbatim>\<open>pgAttemptPrefix\<close>: a word and an address in parentheses, and a colon, at the start.\<close>

definition without_attempt :: "string \<Rightarrow> string" where
  "without_attempt s =
     (let white = (\<lambda>c. c \<in> {CHR '' '', CHR 0x09, CHR 0x0A, CHR 0x0C, CHR 0x0D});
          word = takeWhile (\<lambda>c. \<not> white c) s; r = drop (length word) s;
          inner = takeWhile (\<lambda>c. c \<noteq> CHR ''('' \<and> c \<noteq> CHR '')'') (drop 2 r); rest = drop (2 + length inner) r
      in if word \<noteq> [] \<and> has_prefix r '' ('' \<and> has_prefix rest ''): '' then drop 3 rest else s)"

fun distinct_causes :: "string list \<Rightarrow> string list \<Rightarrow> string list" where
  "distinct_causes causes [] = causes"
| "distinct_causes causes (c # cs) =
     distinct_causes (if c \<noteq> [] \<and> c \<notin> set causes then causes @ [c] else causes) cs"

definition pgConnectText :: "'w net \<Rightarrow> pg_failure \<Rightarrow> string" where
  "pgConnectText nt e =
     (case e of
        PlainFailure t \<Rightarrow> nt_error_text nt t
      | ConnectError t None \<Rightarrow> nt_error_text nt t
      | ConnectError t (Some attempts) \<Rightarrow>
          (let causes = distinct_causes [] (map (\<lambda>line. nt_error_text nt (without_attempt (trim_space line)))
                 (split_byte (CHR 0x0A) attempts));
               kept = (if 1 < length causes then filter (\<lambda>c. \<not> has_suffix c ''server refused TLS connection'') causes else causes)
           in join ''; '' (sort kept)))"

definition pg_primary_error :: "pg_answer \<Rightarrow> string option" where
  "pg_primary_error a =
     (case a of
        PgRow (PgText readOnly) \<Rightarrow>
          (if readOnly \<noteq> ''off''
           then Some (''the server is expected to be a writable primary, but transaction_read_only is '' @ readOnly) else None)
      | PgRow _ \<Rightarrow> Some ''failed to get transaction_read_only: cannot scan into *string''
      | PgNoRows \<Rightarrow> Some ''failed to get transaction_read_only: no rows in result set''
      | PgError e \<Rightarrow> Some (''failed to get transaction_read_only: '' @ e))"

definition pg_receiver_error :: "pg_answer \<Rightarrow> string option" where
  "pg_receiver_error a =
     (case a of
        PgNoRows \<Rightarrow> Some ''no WAL receiver is running, so the replica is not streaming''
      | PgError e \<Rightarrow> Some (''failed to get the WAL receiver status: '' @ e)
      | PgRow PgNull \<Rightarrow> Some ''the WAL receiver status is hidden from this login; grant it pg_monitor''
      | PgRow (PgText s) \<Rightarrow> if s \<noteq> ''streaming'' then Some (''the WAL receiver is '' @ s @ '', expected streaming'') else None
      | PgRow _ \<Rightarrow> Some ''failed to get the WAL receiver status: cannot scan into *string'')"

definition pg_lag_error :: "int \<Rightarrow> pg_answer \<Rightarrow> string option" where
  "pg_lag_error maxBehind a =
     (case a of
        PgRow PgNull \<Rightarrow> Some ''the replay lag is unknown: no transaction has been replayed yet''
      | PgRow (PgFloat lag) \<Rightarrow>
          (if lag > f64_of_int maxBehind then Some (''the replay lag exceeds max allowed ('' @ itoa maxBehind @ '')'') else None)
      | PgRow _ \<Rightarrow> Some ''failed to get the replay lag: cannot scan into *float64''
      | PgNoRows \<Rightarrow> Some ''failed to get the replay lag: no rows in result set''
      | PgError e \<Rightarrow> Some (''failed to get the replay lag: '' @ e))"

definition lag_query :: string where
  "lag_query = ''SELECT CASE WHEN pg_last_wal_receive_lsn() = pg_last_wal_replay_lsn() THEN 0'' @ nl @ [CHR 0x09, CHR 0x09]
     @ ''ELSE EXTRACT(EPOCH FROM now() - pg_last_xact_replay_timestamp()) END''"

definition checkReplica :: "'w pg_db \<Rightarrow> 'w pg_config \<Rightarrow> int \<Rightarrow> 'w \<Rightarrow> string option \<times> 'w" where
  "checkReplica pq cf maxBehind w =
     (case pq_query pq cf ''SELECT status FROM pg_stat_wal_receiver'' w of
        (a, w1) \<Rightarrow>
          (case pg_receiver_error a of
             Some e \<Rightarrow> (Some e, w1)
           | None \<Rightarrow> (case pq_query pq cf lag_query w1 of (b, w2) \<Rightarrow> (pg_lag_error maxBehind b, w2))))"

definition checkPostgres :: "'w pg_db \<Rightarrow> 'w pg_config \<Rightarrow> postgres_check option \<Rightarrow> 'w \<Rightarrow> string option \<times> 'w" where
  "checkPostgres pq cf check w =
     (case pq_query pq cf ''SELECT pg_is_in_recovery()'' w of
        (PgRow (PgBool inRecovery), w1) \<Rightarrow>
          (case Option.bind check pg_behind of
             None \<Rightarrow>
               (if inRecovery then (Some ''the server is expected to be a primary, but it is in recovery (a replica)'', w1)
                else case pq_query pq cf ''SHOW transaction_read_only'' w1 of (a, w2) \<Rightarrow> (pg_primary_error a, w2))
           | Some maxBehind \<Rightarrow>
               (if \<not> inRecovery then (Some ''the server is expected to be a replica in recovery, but it is a primary'', w1)
                else checkReplica pq cf maxBehind w1))
      | (PgRow _, w1) \<Rightarrow> (Some ''failed to get pg_is_in_recovery: cannot scan into *bool'', w1)
      | (PgNoRows, w1) \<Rightarrow> (Some ''failed to get pg_is_in_recovery: no rows in result set'', w1)
      | (PgError e, w1) \<Rightarrow> (Some (''failed to get pg_is_in_recovery: '' @ e), w1))"

definition postgres_run :: "'w net \<Rightarrow> 'w pg_db \<Rightarrow> 'w pg_config result \<Rightarrow> postgres_check option \<Rightarrow> 'w \<Rightarrow> string option \<times> 'w" where
  "postgres_run nt pq cfg check w =
     (case cfg of
        Inl e \<Rightarrow> (Some (''failed to initialize: '' @ e), w)
      | Inr cf \<Rightarrow>
          (case pq_connect pq cf w of
             (Some e, w1) \<Rightarrow> (Some (''failed to connect: '' @ pgConnectText nt e), w1)
           | (None, w1) \<Rightarrow> (case checkPostgres pq cf check w1 of (err, w2) \<Rightarrow> (err, pq_close pq cf w2))))"

definition new_postgres :: "'w net \<Rightarrow> 'w pg_db \<Rightarrow> string \<Rightarrow> string \<Rightarrow> postgres_check option \<Rightarrow> string \<Rightarrow> 'w \<Rightarrow> 'w driver result" where
  "new_postgres nt pq endpoint family check namespace w =
     (case guard_endpoint endpoint of
        Some e \<Rightarrow> Inl e
      | None \<Rightarrow>
          (case login_of nt (case check of None \<Rightarrow> [] | Some c \<Rightarrow> pg_secret c) namespace w of
             Inl e \<Rightarrow> Inl e
           | Inr login \<Rightarrow> Inr \<lparr>dv_check = timed_check nt ''POSTGRES''
                 (postgres_run nt pq (pg_config_of pq endpoint family login check) check),
               dv_endpoint = endpoint, dv_type = ''postgres''\<rparr>))"

text \<open>The addresses a family leaves are never fewer than one, when there was one.\<close>

lemma familyLookup_keeps:
  assumes "look host w = (Inr addrs, w')"
  shows "\<exists>kept. familyLookup look family host w = (Inr kept, w') \<and> set kept \<subseteq> set addrs \<and> (addrs \<noteq> [] \<longrightarrow> kept \<noteq> [])"
  using assms by (auto simp: familyLookup_def Let_def)

lemma distinct_causes_distinct: "distinct causes \<Longrightarrow> distinct (distinct_causes causes cs)"
  by (induction cs arbitrary: causes) auto

end
