(* ===== verification/Driver_Nosql.thy ===== *)
theory Driver_Nosql
  imports Driver_Sql
begin

text \<open>
  The drivers of \<^verbatim>\<open>internal/driver/mongodb.go\<close> and \<^verbatim>\<open>internal/driver/scylladb.go\<close>. The client libraries, with
  their decoders, are arguments. A check that is cut off shows as the cause of its context.
\<close>

section \<open>MongoDB\<close>

record mongo_login =
  ml_source :: string
  ml_user :: string
  ml_password :: string
  ml_password_set :: bool

record mongo_options =
  mp_hosts :: "string list"
  mp_direct :: bool
  mp_auth :: "mongo_login option"
  mp_tls_name :: "string option"
  mp_family :: string

record mongo_hello =
  hi_primary :: bool
  hi_secondary :: bool
  hi_arbiter :: bool

record replMember =
  rm_state :: int
  rm_self :: bool
  rm_optime :: time

text \<open>
  Why the context of a check ended: not at all, by its deadline, or by the failure of the first heartbeat,
  when none had succeeded.
\<close>

datatype mongo_cause = NoCause | DeadlineExceeded | HeartbeatFailed string

record 'w mongo_db =
  mo_connect :: "mongo_options \<Rightarrow> string option"
  mo_command :: "mongo_options \<Rightarrow> string \<Rightarrow> 'w \<Rightarrow> string result \<times> 'w"
  mo_hello :: "string \<Rightarrow> mongo_hello result"
  mo_members :: "string \<Rightarrow> replMember list result"
  mo_cause :: "'w \<Rightarrow> mongo_cause"
  mo_disconnect :: "mongo_options \<Rightarrow> 'w \<Rightarrow> 'w"

definition mongo_options_of :: "string \<Rightarrow> string \<Rightarrow> string \<times> string \<Rightarrow> mongodb_check option \<Rightarrow> mongo_options" where
  "mongo_options_of endpoint family login check =
     (let (host, port) = hostPort endpoint ''27017''
      in \<lparr>mp_hosts = [JoinHostPort host port], mp_direct = True,
          mp_auth = (if fst login \<noteq> []
            then Some \<lparr>ml_source = ''admin'', ml_user = fst login, ml_password = snd login, ml_password_set = (snd login \<noteq> [])\<rparr>
            else None),
          mp_tls_name = (case check of Some c \<Rightarrow> if mg_tls c then Some host else None | None \<Rightarrow> None),
          mp_family = family\<rparr>)"

definition mongo_role :: "mongo_hello \<Rightarrow> string" where
  "mongo_role h =
     (if hi_primary h then ''a writable primary'' else if hi_secondary h then ''a secondary''
      else if hi_arbiter h then ''an arbiter'' else ''neither a primary nor a secondary'')"

definition hello_error :: "bool \<Rightarrow> mongo_hello \<Rightarrow> string option" where
  "hello_error replica h =
     (if \<not> replica \<and> \<not> hi_primary h
      then Some (''the server is expected to be a writable primary, but it is '' @ mongo_role h)
      else if replica \<and> \<not> hi_secondary h
      then Some (''the server is expected to be a secondary, but it is '' @ mongo_role h)
      else None)"

text \<open>The last member that is this server, and the last other one that is primary.\<close>

fun find_members :: "replMember list \<Rightarrow> replMember option \<Rightarrow> replMember option \<Rightarrow> replMember option \<times> replMember option" where
  "find_members [] self primary = (self, primary)"
| "find_members (m # ms) self primary =
     (if rm_self m then find_members ms (Some m) primary
      else if rm_state m = 1 then find_members ms self (Some m)
      else find_members ms self primary)"

text \<open>The bound is a duration: its product wraps.\<close>

definition lag_error :: "int \<Rightarrow> replMember list \<Rightarrow> string option" where
  "lag_error maxBehind members =
     (case find_members members None None of
        (None, _) \<Rightarrow> Some ''replSetGetStatus does not list this server''
      | (Some _, None) \<Rightarrow> Some ''the replica set has no primary, so the replication lag is unknown''
      | (Some self, Some primary) \<Rightarrow>
          (if time_sub (rm_optime primary) (rm_optime self) > wrap64 (maxBehind * second)
           then Some (''the replication lag exceeds max allowed ('' @ itoa maxBehind @ '')'') else None))"

text \<open>A bound of more than 292 years wraps to a negative duration, and no lag is small enough.\<close>

lemma lag_bound_wraps:
  "lag_error 9223372037 [\<lparr>rm_state = 2, rm_self = True, rm_optime = 0\<rparr>, \<lparr>rm_state = 1, rm_self = False, rm_optime = 0\<rparr>] \<noteq> None"
  by code_simp

definition checkMongoDB :: "'w mongo_db \<Rightarrow> mongo_options \<Rightarrow> mongodb_check option \<Rightarrow> 'w \<Rightarrow> string option \<times> 'w" where
  "checkMongoDB mo opts check w =
     (case mo_command mo opts ''hello'' w of
        (Inl e, w1) \<Rightarrow> (Some (''failed to run hello: '' @ e), w1)
      | (Inr raw, w1) \<Rightarrow>
          (case mo_hello mo raw of
             Inl e \<Rightarrow> (Some (''failed to read hello: '' @ e), w1)
           | Inr h \<Rightarrow>
               (let behind = Option.bind check mg_behind in
                case hello_error (behind \<noteq> None) h of
                  Some e \<Rightarrow> (Some e, w1)
                | None \<Rightarrow>
                    (case behind of
                       None \<Rightarrow> (None, w1)
                     | Some maxBehind \<Rightarrow>
                         (case mo_command mo opts ''replSetGetStatus'' w1 of
                            (Inl e, w2) \<Rightarrow> (Some (''failed to run replSetGetStatus: '' @ e), w2)
                          | (Inr raw2, w2) \<Rightarrow>
                              (case mo_members mo raw2 of
                                 Inl e \<Rightarrow> (Some (''failed to read replSetGetStatus: '' @ e), w2)
                               | Inr members \<Rightarrow> (lag_error maxBehind members, w2)))))))"

definition mongo_run :: "'w mongo_db \<Rightarrow> mongo_options \<Rightarrow> mongodb_check option \<Rightarrow> 'w \<Rightarrow> string option \<times> 'w" where
  "mongo_run mo opts check w =
     (case mo_connect mo opts of
        Some e \<Rightarrow> (Some (''failed to initialize: '' @ e), w)
      | None \<Rightarrow>
          (case checkMongoDB mo opts check w of
             (err, w1) \<Rightarrow>
               ((case (err, mo_cause mo w1) of
                   (Some _, HeartbeatFailed t) \<Rightarrow> Some (''failed to connect: '' @ t)
                 | _ \<Rightarrow> err), mo_disconnect mo opts w1)))"

definition new_mongodb :: "'w net \<Rightarrow> 'w mongo_db \<Rightarrow> string \<Rightarrow> string \<Rightarrow> mongodb_check option \<Rightarrow> string \<Rightarrow> 'w \<Rightarrow> 'w driver result" where
  "new_mongodb nt mo endpoint family check namespace w =
     (case guard_endpoint endpoint of
        Some e \<Rightarrow> Inl e
      | None \<Rightarrow>
          (case login_of nt (case check of None \<Rightarrow> [] | Some c \<Rightarrow> mg_secret c) namespace w of
             Inl e \<Rightarrow> Inl e
           | Inr login \<Rightarrow> Inr \<lparr>dv_check = timed_check nt ''MONGODB''
                 (mongo_run mo (mongo_options_of endpoint family login check) check),
               dv_endpoint = endpoint, dv_type = ''mongodb''\<rparr>))"

section \<open>Addresses as texts\<close>

text \<open>\<^verbatim>\<open>netip.Addr.String\<close>: the longest run of zero groups, two at least, shows as two colons.\<close>

definition hex_digit :: "int \<Rightarrow> char" where
  "hex_digit n = (if n < 10 then char_of (n + 48) else char_of (n + 87))"

function hex_text :: "int \<Rightarrow> string" where
  "hex_text n = (if n < 16 then [hex_digit n] else hex_text (n div 16) @ [hex_digit (n mod 16)])"
  by auto
termination by (relation "measure nat") auto

declare hex_text.simps [simp del]

definition zero_run :: "int list \<Rightarrow> nat \<Rightarrow> nat" where
  "zero_run gs i = length (takeWhile (\<lambda>g. g = 0) (drop i gs))"

definition longest_run :: "int list \<Rightarrow> nat \<times> nat" where
  "longest_run gs =
     fold (\<lambda>i (best, len). if 2 \<le> zero_run gs i \<and> len < zero_run gs i then (i, zero_run gs i) else (best, len))
       [0..<length gs] (0, 0)"

definition groups_text :: "int list \<Rightarrow> string" where
  "groups_text gs = join '':'' (map hex_text gs)"

definition ip_text :: "ip \<Rightarrow> string" where
  "ip_text a =
     (case a of
        V4 bs \<Rightarrow> join ''.'' (map itoa bs)
      | V6 gs zone \<Rightarrow>
          (if is_4in6 a
           then ''::ffff:'' @ join ''.'' (map itoa [gs ! 6 div 256, gs ! 6 mod 256, gs ! 7 div 256, gs ! 7 mod 256])
           else let (i, len) = longest_run gs in
             if len = 0 then groups_text gs
             else groups_text (take i gs) @ ''::'' @ groups_text (drop (i + len) gs))
          @ (if zone = [] then [] else ''%'' @ zone))"

lemma ip_text_examples:
  "ip_text (V6 [8193, 3512, 0, 0, 1, 0, 0, 1] []) = ''2001:db8::1:0:0:1''"
  "ip_text (V6 [65152, 0, 0, 0, 0, 0, 0, 1] ''eth0'') = ''fe80::1%eth0''" "ip_text (V4 [10, 0, 0, 1]) = ''10.0.0.1''"
  by code_simp+

section \<open>ScyllaDB\<close>

record scylla_cluster =
  sy_hosts :: "string list"
  sy_login :: "(string \<times> string) option"
  sy_family :: string

text \<open>
  A log entry of the client library at level info: its message and its fields. Creating a session gives one,
  an error, or no answer before the deadline, whose error it then is; with the log entries until then.
\<close>

type_synonym log_entry = "string \<times> (string \<times> string) list"

datatype creation = Session | CreateFailed string | GaveUp string

record 'w scylla_db =
  sd_lookup :: "string \<Rightarrow> string \<Rightarrow> 'w \<Rightarrow> (ip list result) \<times> 'w"
  sd_create :: "scylla_cluster \<Rightarrow> 'w \<Rightarrow> (creation \<times> log_entry list) \<times> 'w"
  sd_query :: "scylla_cluster \<Rightarrow> string \<Rightarrow> 'w \<Rightarrow> string result \<times> 'w"
  sd_close :: "scylla_cluster \<Rightarrow> 'w \<Rightarrow> 'w"

text \<open>\<^verbatim>\<open>hostFailures.Info\<close> collects the distinct errors of the control connection.\<close>

fun add_causes :: "('w net) \<Rightarrow> (string \<times> string) list \<Rightarrow> string list \<Rightarrow> string list" where
  "add_causes nt [] causes = causes"
| "add_causes nt ((name, v) # fs) causes =
     add_causes nt fs
       (if name = ''err'' \<and> nt_error_text nt v \<notin> set causes then causes @ [nt_error_text nt v] else causes)"

definition hostFailures_Info :: "'w net \<Rightarrow> log_entry \<Rightarrow> string list \<Rightarrow> string list" where
  "hostFailures_Info nt entry causes =
     (if has_prefix (fst entry) ''Control connection'' then add_causes nt (snd entry) causes else causes)"

definition hostFailures_text :: "string list \<Rightarrow> string" where
  "hostFailures_text causes = join ''; '' (sort causes)"

definition scylla_config :: "'w scylla_db \<Rightarrow> string \<Rightarrow> string \<Rightarrow> string \<times> string \<Rightarrow> 'w \<Rightarrow> (scylla_cluster result) \<times> 'w" where
  "scylla_config sd endpoint family login w =
     (let (host, port) = hostPort endpoint ''9042'';
          config = (\<lambda>hosts. \<lparr>sy_hosts = hosts, sy_login = (if fst login \<noteq> [] then Some login else None), sy_family = family\<rparr>)
      in if ParseIP host \<noteq> None then (Inr (config [JoinHostPort host port]), w)
         else case sd_lookup sd (if family = ''ipv4'' then ''ip4'' else if family = ''ipv6'' then ''ip6'' else ''ip'') host w of
             (Inl e, w') \<Rightarrow> (Inl e, w')
           | (Inr ips, w') \<Rightarrow> (Inr (config (map (\<lambda>a. JoinHostPort (ip_text (unmap a)) port) ips)), w'))"

definition create_error :: "string \<Rightarrow> string \<Rightarrow> string" where
  "create_error causes e =
     (if causes \<noteq> [] \<and> contains e ''unable to connect to initial hosts''
      then ''failed to connect: gocql: unable to create session: unable to connect to initial hosts: '' @ causes
      else ''failed to connect: '' @ e)"

definition bootstrap_error :: "string result \<Rightarrow> string option" where
  "bootstrap_error r =
     (case r of
        Inl e \<Rightarrow> Some (''failed to read system.local: '' @ e)
      | Inr b \<Rightarrow> if b \<noteq> ''COMPLETED'' then Some (''the node is not bootstrapped: bootstrapped is '' @ b) else None)"

definition scylla_run :: "'w net \<Rightarrow> 'w scylla_db \<Rightarrow> string \<Rightarrow> string \<Rightarrow> string \<times> string \<Rightarrow> 'w \<Rightarrow> string option \<times> 'w" where
  "scylla_run nt sd endpoint family login w =
     (case scylla_config sd endpoint family login w of
        (Inl e, w1) \<Rightarrow> (Some (''failed to resolve: '' @ e), w1)
      | (Inr cf, w1) \<Rightarrow>
          (case sd_create sd cf w1 of
             ((GaveUp e, _), w2) \<Rightarrow> (Some (''failed to connect: '' @ e), w2)
           | ((CreateFailed e, lines), w2) \<Rightarrow>
               (Some (create_error (hostFailures_text (fold (hostFailures_Info nt) lines [])) e), w2)
           | ((Session, _), w2) \<Rightarrow>
               (case sd_query sd cf (''SELECT bootstrapped FROM system.local WHERE key='' @ quoted ''local'') w2 of
                  (r, w3) \<Rightarrow> (bootstrap_error r, sd_close sd cf w3))))"

definition new_scylladb :: "'w net \<Rightarrow> 'w scylla_db \<Rightarrow> string \<Rightarrow> string \<Rightarrow> scylladb_check option \<Rightarrow> string \<Rightarrow> 'w \<Rightarrow> 'w driver result" where
  "new_scylladb nt sd endpoint family check namespace w =
     (case guard_endpoint endpoint of
        Some e \<Rightarrow> Inl e
      | None \<Rightarrow>
          (case login_of nt (case check of None \<Rightarrow> [] | Some c \<Rightarrow> sy_secret c) namespace w of
             Inl e \<Rightarrow> Inl e
           | Inr login \<Rightarrow> Inr \<lparr>dv_check = timed_check nt ''SCYLLADB'' (scylla_run nt sd endpoint family login),
                             dv_endpoint = endpoint, dv_type = ''scylladb''\<rparr>))"

text \<open>The text does not depend on the order in which the hosts failed.\<close>

lemma hostFailures_text_order: "mset causes = mset causes' \<Longrightarrow> hostFailures_text causes = hostFailures_text causes'"
  by (simp add: hostFailures_text_def) (metis properties_for_sort mset_sort sorted_sort)

lemma add_causes_distinct: "distinct causes \<Longrightarrow> distinct (add_causes nt fs causes)"
  by (induction nt fs causes rule: add_causes.induct) auto

end
