(* ===== verification/Driver_Factory.thy ===== *)
theory Driver_Factory
  imports Driver_Nosql
begin

text \<open>
  \<^verbatim>\<open>CreateDriver\<close> of \<^verbatim>\<open>pkg/factory/factory.go\<close>: the driver of a monitor from its specification, for one
  address family, for both of them, or for any. All that it creates obeys the interface \<open>reporting\<close>.
\<close>

section \<open>The factory\<close>

record 'w drivers =
  dr_net :: "'w net"
  dr_web :: "'w web"
  dr_dane :: "'w dane"
  dr_handshake :: "string \<Rightarrow> string \<Rightarrow> string \<Rightarrow> 'w \<Rightarrow> (string + certificate list) \<times> 'w"
  dr_streams :: "'w streams"
  dr_smtp :: "'w smtp_net"
  dr_lookups :: "'w lookups"
  dr_mysql :: "'w mysql_db"
  dr_postgres :: "'w pg_db"
  dr_mongodb :: "'w mongo_db"
  dr_scylladb :: "'w scylla_db"
  dr_fuel :: nat

definition createFamilyDriver :: "'w drivers \<Rightarrow> string \<Rightarrow> string \<Rightarrow> string \<Rightarrow> monitor_spec \<Rightarrow> string \<Rightarrow> 'w \<Rightarrow> 'w driver result" where
  "createFamilyDriver dr driverType endpoint family spec namespace w =
     (let nt = dr_net dr in
      if driverType = ''http'' then new_http nt (dr_web dr) endpoint family (sp_tls spec) (sp_http spec)
      else if driverType = ''http-json'' then new_http_json nt (dr_web dr) endpoint family (sp_http_json spec)
      else if driverType = ''smtp''
      then new_smtp (dr_fuel dr) nt (dr_smtp dr) (dr_dane dr) endpoint family (sp_smtp spec) namespace w
      else if driverType = ''redis'' then new_redis nt (dr_streams dr) endpoint family (sp_redis spec) namespace w
      else if driverType = ''tls'' then new_tls nt (dr_dane dr) (dr_handshake dr) endpoint family (sp_tls spec)
      else if driverType = ''tcp'' then new_tcp nt endpoint family
      else if driverType = ''dns'' then new_dns nt (dr_lookups dr) endpoint family (sp_dns spec)
      else if driverType = ''ping'' then new_ping nt endpoint family
      else if driverType = ''trino'' then new_trino nt (dr_web dr) endpoint family
      else if driverType = ''opensearch'' then new_opensearch nt (dr_web dr) endpoint family
      else if driverType = ''mysql'' then new_mysql ''mysql'' nt (dr_mysql dr) endpoint family (sp_mysql spec) namespace w
      else if driverType = ''mariadb'' then new_mysql ''mariadb'' nt (dr_mysql dr) endpoint family (sp_mysql spec) namespace w
      else if driverType = ''postgres'' then new_postgres nt (dr_postgres dr) endpoint family (sp_postgres spec) namespace w
      else if driverType = ''mongodb'' then new_mongodb nt (dr_mongodb dr) endpoint family (sp_mongodb spec) namespace w
      else if driverType = ''scylladb'' then new_scylladb nt (dr_scylladb dr) endpoint family (sp_scylladb spec) namespace w
      else Inl (''unsupported driver type: '' @ driverType))"

text \<open>The families a list names, or the first name that is none.\<close>

fun read_families :: "string list \<Rightarrow> bool \<times> bool \<Rightarrow> (bool \<times> bool) result" where
  "read_families [] acc = Inr acc"
| "read_families (f # fs) (ipv4, ipv6) =
     (if f = ''ipv4'' then read_families fs (True, ipv6)
      else if f = ''ipv6'' then read_families fs (ipv4, True)
      else Inl (''unsupported ipFamily: '' @ f))"

definition CreateDriver :: "'w drivers \<Rightarrow> string \<Rightarrow> string \<Rightarrow> monitor_spec \<Rightarrow> string \<Rightarrow> 'w \<Rightarrow> 'w driver result" where
  "CreateDriver dr driverType endpoint spec namespace w =
     (let create = (\<lambda>family. createFamilyDriver dr driverType endpoint family spec namespace w) in
      case read_families (sp_families spec) (False, False) of
        Inl e \<Rightarrow> Inl e
      | Inr (ipv4, ipv6) \<Rightarrow>
          (if ipv4 \<and> ipv6
           then (case create ''ipv4'' of
                   Inl e \<Rightarrow> Inl e
                 | Inr v4 \<Rightarrow> (case create ''ipv6'' of Inl e \<Rightarrow> Inl e | Inr v6 \<Rightarrow> Inr (NewBothFamiliesDriver v4 v6)))
           else if ipv4 then create ''ipv4''
           else if ipv6 then create ''ipv6''
           else create []))"

section \<open>Every driver reports\<close>

text \<open>The constructors, one by one.\<close>

lemma new_web_reporting:
  "new_http nt wb e f tc hc = Inr d \<Longrightarrow> reporting (dv_check d)"
  "new_http_json nt wb e f jc = Inr d \<Longrightarrow> reporting (dv_check d)"
  "new_opensearch nt wb e f = Inr d \<Longrightarrow> reporting (dv_check d)"
  "new_trino nt wb e f = Inr d \<Longrightarrow> reporting (dv_check d)"
  by (auto simp: new_http_def new_http_json_def new_opensearch_def new_trino_def Let_def
      http.reporting_axioms http_json.reporting_axioms opensearch.reporting_axioms trino.reporting_axioms
      split: if_splits option.splits)

lemma new_timed_reporting:
  "new_tcp nt e f = Inr d \<Longrightarrow> reporting (dv_check d)"
  "new_ping nt e f = Inr d \<Longrightarrow> reporting (dv_check d)"
  "new_tls nt da dial e f tc = Inr d \<Longrightarrow> reporting (dv_check d)"
  "new_redis nt sm e f rc ns w = Inr d \<Longrightarrow> reporting (dv_check d)"
  "new_smtp fuel nt sn da e f sc ns w = Inr d \<Longrightarrow> reporting (dv_check d)"
  "new_dns nt lk e f dc = Inr d \<Longrightarrow> reporting (dv_check d)"
  by (auto simp: new_tcp_def new_ping_def new_tls_def new_redis_def new_smtp_def new_dns_def Let_def
      timed.reporting_axioms deferred.reporting_axioms split: option.splits sum.splits prod.splits if_splits)

lemma new_db_reporting:
  "new_mysql kind nt mq e f mc ns w = Inr d \<Longrightarrow> reporting (dv_check d)"
  "new_postgres nt pq e f pc ns w = Inr d \<Longrightarrow> reporting (dv_check d)"
  "new_mongodb nt mo e f gc ns w = Inr d \<Longrightarrow> reporting (dv_check d)"
  "new_scylladb nt sd e f yc ns w = Inr d \<Longrightarrow> reporting (dv_check d)"
  by (auto simp: new_mysql_def new_postgres_def new_mongodb_def new_scylladb_def
      timed.reporting_axioms split: option.splits sum.splits)

lemmas new_reporting = new_web_reporting new_timed_reporting new_db_reporting

lemma if_result:
  assumes "(if b then x else y) = z" "b \<Longrightarrow> x = z \<Longrightarrow> P" "\<not> b \<Longrightarrow> y = z \<Longrightarrow> P"
  shows P
  using assms by (cases b) auto

lemma createFamilyDriver_reporting:
  "createFamilyDriver dr t e f spec ns w = Inr d \<Longrightarrow> reporting (dv_check d)"
  unfolding createFamilyDriver_def Let_def by (elim if_result; (erule new_reporting)?; simp)

lemma CreateDriver_reporting:
  assumes "CreateDriver dr t e spec ns w0 = Inr d"
  shows "reporting (dv_check d)"
proof -
  let ?create = "\<lambda>f. createFamilyDriver dr t e f spec ns w0"
  consider f where "?create f = Inr d"
    | v4 v6 where "?create ''ipv4'' = Inr v4" "?create ''ipv6'' = Inr v6" "d = NewBothFamiliesDriver v4 v6"
    using assms by (auto simp: CreateDriver_def split: sum.splits if_splits)
  then show ?thesis
  proof cases
    case 1
    then show ?thesis by (rule createFamilyDriver_reporting)
  next
    case 2
    then show ?thesis
      using both_reporting [OF createFamilyDriver_reporting createFamilyDriver_reporting]
      by (simp add: NewBothFamiliesDriver_def)
  qed
qed

text \<open>
  C36: a check always reports. Whatever driver a monitor gets, its check returns a result and never an error
  in its place, a result that counts as a success carries no error; and a monitor over both families
  passes exactly when its check over each of them does, IPv4 first.
\<close>

theorem every_check_reports:
  assumes "CreateDriver dr t e spec ns w0 = Inr d"
  shows "(\<exists>res w'. dv_check d w = (Inr res, w') \<and> (cr_success res \<longrightarrow> cr_error res = None))
    \<and> (read_families (sp_families spec) (False, False) = Inr (True, True) \<longrightarrow>
        (\<exists>d4 d6 r4 r6 w4 w6 res.
          CreateDriver dr t e (spec\<lparr>sp_families := [''ipv4'']\<rparr>) ns w0 = Inr d4
        \<and> CreateDriver dr t e (spec\<lparr>sp_families := [''ipv6'']\<rparr>) ns w0 = Inr d6
        \<and> dv_check d4 w = (Inr r4, w4) \<and> dv_check d6 w4 = (Inr r6, w6) \<and> dv_check d w = (Inr res, w6)
        \<and> cr_success res = (cr_success r4 \<and> cr_success r6)))"
proof -
  obtain v4 v6 where fam: "read_families (sp_families spec) (False, False) = Inr (v4, v6)"
    using assms by (auto simp: CreateDriver_def split: sum.splits)
  let ?create = "\<lambda>f. createFamilyDriver dr t e f spec ns w0"
  have spec: "createFamilyDriver dr t e f (spec\<lparr>sp_families := fs\<rparr>) ns w0 = ?create f" for f fs
    by (simp add: createFamilyDriver_def Let_def cong: if_cong)
  show ?thesis
  proof (cases "v4 \<and> v6")
    case True
    then obtain d4 d6 where d: "?create ''ipv4'' = Inr d4" "?create ''ipv6'' = Inr d6" "d = NewBothFamiliesDriver d4 d6"
      using assms fam by (auto simp: CreateDriver_def split: sum.splits)
    obtain r4 w4 where 4: "dv_check d4 w = (Inr r4, w4)"
      using reporting.reports [OF createFamilyDriver_reporting [OF d(1)]] by blast
    obtain r6 w6 where 6: "dv_check d6 w4 = (Inr r6, w6)"
      using reporting.reports [OF createFamilyDriver_reporting [OF d(2)]] by blast
    have "dv_check d w = (Inr (both_results r4 r6), w6)" by (simp add: d(3) NewBothFamiliesDriver_def both_check_def 4 6)
    moreover have "CreateDriver dr t e (spec\<lparr>sp_families := [''ipv4'']\<rparr>) ns w0 = Inr d4"
      "CreateDriver dr t e (spec\<lparr>sp_families := [''ipv6'']\<rparr>) ns w0 = Inr d6"
      using d by (simp_all add: CreateDriver_def spec)
    ultimately show ?thesis using 4 6 both_results_ok by blast
  next
    case False
    with fam reporting.reports [OF CreateDriver_reporting [OF assms], of w] show ?thesis by auto
  qed
qed

section \<open>A monitor over both families\<close>

definition demo_spec :: monitor_spec where
  "demo_spec =
     \<lparr>sp_driver = ''tcp'', sp_endpoint = ''db.local:5432'', sp_interval = 60,
      sp_notify = \<lparr>nc_slack = None, nc_email = None, nc_discord = None, nc_webhook = None, nc_valkey = None\<rparr>,
      sp_http = None, sp_http_json = None, sp_smtp = None, sp_redis = None, sp_tls = None, sp_dns = None, sp_mysql = None,
      sp_postgres = None, sp_mongodb = None, sp_scylladb = None, sp_families = [''ipv6'', ''ipv4'']\<rparr>"

text \<open>A host that listens on IPv4 only, in a world that counts connections.\<close>

definition demo_net :: "nat net" where
  "demo_net =
     \<lparr>nt_now = (\<lambda>n. int n * second), nt_is_parse = (\<lambda>e. False), nt_duration_text = (\<lambda>d. itoa (d div second) @ ''s''),
      nt_time_text = itoa, nt_secret = (\<lambda>_ _ _. Inl ''none''),
      nt_dial = (\<lambda>network addr n. (if network = ''tcp4'' then None else Some ''refused'', Suc n))\<rparr>"

text \<open>Of everything else there is none.\<close>

definition demo_drivers :: "nat drivers" where
  "demo_drivers =
     \<lparr>dr_net = demo_net,
      dr_web = \<lparr>wb_get = (\<lambda>_ _ _ n. (Inl ''refused'', Suc n)), wb_version = ''dev'', wb_first = (\<lambda>_. Inl ''EOF''), wb_mismatch = (\<lambda>_. ''json: cannot unmarshal'')\<rparr>,
      dr_dane = \<lparr>da_hashes = \<lparr>hs_sha256 = (\<lambda>s. s), hs_sha512 = (\<lambda>s. s)\<rparr>, da_resolv_conf = (\<lambda>_. None), da_query = (\<lambda>_ _ n. (None, n))\<rparr>,
      dr_handshake = (\<lambda>_ _ _ n. (Inl ''refused'', Suc n)),
      dr_streams = \<lparr>sm_open = (\<lambda>_ _ _ _ n. (Inl ''refused'', Suc n)), sm_close = (\<lambda>_ n. n), sm_quote = (\<lambda>s. s)\<rparr>,
      dr_smtp = \<lparr>sn_open = (\<lambda>_ _ _ _ n. (Inl ''refused'', Suc n)), sn_upgraded = (\<lambda>_ _. []), sn_close = (\<lambda>_ n. n), sn_quote = (\<lambda>s. s)\<rparr>,
      dr_lookups = \<lparr>lk_host = (\<lambda>_ _ n. (Inl ''no such host'', n)), lk_txt = (\<lambda>_ _ n. (Inl ''no such host'', n)),
        lk_cname = (\<lambda>_ _ n. (Inl ''no such host'', n)), lk_addr = (\<lambda>_ _ n. (Inl ''no such host'', n)),
        lk_ip = (\<lambda>_ _ _ n. (Inl ''no such host'', n))\<rparr>,
      dr_mysql = \<lparr>mq_connector = (\<lambda>_. None), mq_ping = (\<lambda>_ n. (Some (ClientError ''refused''), Suc n)),
        mq_query = (\<lambda>_ _ n. (Inl (ClientError ''refused''), n)), mq_close = (\<lambda>_ n. n), mq_quote = (\<lambda>s. s)\<rparr>,
      dr_postgres = \<lparr>pq_parse = (\<lambda>_ _ _. None), pq_lookup = (\<lambda>_ n. (Inl ''no such host'', n)),
        pq_connect = (\<lambda>_ n. (Some (PlainFailure ''refused''), Suc n)), pq_query = (\<lambda>_ _ n. (PgNoRows, n)), pq_close = (\<lambda>_ n. n)\<rparr>,
      dr_mongodb = \<lparr>mo_connect = (\<lambda>_. None), mo_command = (\<lambda>_ _ n. (Inl ''refused'', Suc n)), mo_hello = (\<lambda>_. Inl ''EOF''),
        mo_members = (\<lambda>_. Inl ''EOF''), mo_cause = (\<lambda>_. NoCause), mo_disconnect = (\<lambda>_ n. n)\<rparr>,
      dr_scylladb = \<lparr>sd_lookup = (\<lambda>_ _ n. (Inl ''no such host'', n)), sd_create = (\<lambda>_ n. ((GaveUp ''deadline'', []), Suc n)),
        sd_query = (\<lambda>_ _ n. (Inl ''refused'', n)), sd_close = (\<lambda>_ n. n)\<rparr>,
      dr_fuel = 4\<rparr>"

theorem every_check_reports_witness:
  "\<exists>d r4 r6 w4 w6. CreateDriver demo_drivers ''tcp'' ''db.local:5432'' demo_spec ''ns'' 0 = Inr d
    \<and> (\<exists>d4 d6. CreateDriver demo_drivers ''tcp'' ''db.local:5432'' (demo_spec\<lparr>sp_families := [''ipv4'']\<rparr>) ''ns'' 0 = Inr d4
        \<and> CreateDriver demo_drivers ''tcp'' ''db.local:5432'' (demo_spec\<lparr>sp_families := [''ipv6'']\<rparr>) ''ns'' 0 = Inr d6
        \<and> dv_check d4 0 = (Inr r4, w4) \<and> dv_check d6 w4 = (Inr r6, w6))
    \<and> (\<exists>res. dv_check d 0 = (Inr res, w6) \<and> cr_success res = (cr_success r4 \<and> cr_success r6))
    \<and> dv_check d 0 = (Inr \<lparr>cr_success = False, cr_time = second, cr_error = Some ''ipv6: refused'',
        cr_message = ''ipv4: ok; ipv6: TCP check failed: refused''\<rparr>, 2)"
proof -
  let ?dr = demo_drivers
  let ?d = "\<lambda>f. \<lparr>dv_check = timed_check demo_net ''TCP'' (nt_dial demo_net (familyNetwork ''tcp'' f) ''db.local:5432''),
      dv_endpoint = ''db.local:5432'', dv_type = ''tcp''\<rparr>"
  have guard: "guard_endpoint ''db.local:5432'' = None" by code_simp
  have fam: "createFamilyDriver ?dr ''tcp'' ''db.local:5432'' f demo_spec ''ns'' 0 = Inr (?d f)" for f
    by (simp add: createFamilyDriver_def new_tcp_def guard demo_drivers_def)
  have both: "read_families (sp_families demo_spec) (False, False) = Inr (True, True)" by code_simp
  then have d: "CreateDriver ?dr ''tcp'' ''db.local:5432'' demo_spec ''ns'' 0 = Inr (NewBothFamiliesDriver (?d ''ipv4'') (?d ''ipv6''))"
    by (simp add: CreateDriver_def fam)
  have "dv_check (NewBothFamiliesDriver (?d ''ipv4'') (?d ''ipv6'')) 0
      = (Inr \<lparr>cr_success = False, cr_time = second, cr_error = Some ''ipv6: refused'',
          cr_message = ''ipv4: ok; ipv6: TCP check failed: refused''\<rparr>, 2)"
    by code_simp
  moreover note every_check_reports [OF d, of 0, THEN conjunct2, THEN mp, OF both]
  ultimately show ?thesis using d by blast
qed

end
