(* ===== verification/Notifier_Factory.thy ===== *)
theory Notifier_Factory
  imports Notifier_Email Alert_Retries
begin

text \<open>
  \<^verbatim>\<open>CreateNotifier\<close> of \<^verbatim>\<open>pkg/factory/factory.go\<close>: the notifiers of a monitor from its configuration. The
  interface the five of them share is the locale \<open>alert_channel\<close>.
\<close>

section \<open>The interface of a notifier\<close>

locale alert_channel =
  fixes send :: "'w notifier" and wants :: "string \<Rightarrow> bool"
  assumes quiet: "\<not> wants status \<Longrightarrow> send status vals w = (None, w)"
begin

lemma skipped: "\<not> wants status \<Longrightarrow> send_each ((name, send) # ns) status vals w = send_each ns status vals w"
  by (simp add: quiet)

lemma unwanted_never_fails: "\<not> wants status \<Longrightarrow> fst (send status vals w) = None"
  by (simp add: quiet)

end

interpretation slack: alert_channel "slack_send ex cfg" "ShouldAlert (sl_alert_on cfg)"
  for ex :: "'w externals" and cfg
  by unfold_locales (simp add: slack_send_def)

interpretation discord: alert_channel "discord_send ex cfg" "ShouldAlert (dc_alert_on cfg)"
  for ex :: "'w externals" and cfg
  by unfold_locales (simp add: discord_send_def)

interpretation webhook: alert_channel "webhook_send ex cfg" "ShouldAlert (wh_alert_on cfg)"
  for ex :: "'w externals" and cfg
  by unfold_locales (simp add: webhook_send_def)

interpretation email: alert_channel "email_send fuel ex ml cfg" "ShouldAlert (em_alert_on cfg)"
  for fuel and ex :: "'w externals" and ml cfg
  by unfold_locales (simp add: email_send_def)

interpretation valkey: alert_channel "valkey_send ex connect hang_up clock v" "\<lambda>status. status = ''success'' \<or> status = ''failure''"
  for ex :: "'w externals" and connect hang_up clock v
  by unfold_locales (simp add: valkey_send_def)

section \<open>The factory\<close>

text \<open>What the notifiers need of the world.\<close>

record 'w outside =
  os_externals :: "'w externals"
  os_mailer :: "'w mailer"
  os_connect :: "'w \<Rightarrow> bool \<Rightarrow> string \<Rightarrow> connection result"
  os_hang_up :: "connection \<Rightarrow> 'w \<Rightarrow> 'w"
  os_clock :: "'w \<Rightarrow> time"
  os_fuel :: nat

definition from_section :: "string \<Rightarrow> string \<Rightarrow> ('c \<Rightarrow> bool) \<Rightarrow> ('c option \<Rightarrow> 'd result) \<Rightarrow> ('d \<Rightarrow> 'w notifier)
    \<Rightarrow> 'c option \<Rightarrow> 'w named_notifier list result" where
  "from_section name label enabled new send cfg =
     (case cfg of
        None \<Rightarrow> Inr []
      | Some c \<Rightarrow>
          (if \<not> enabled c then Inr []
           else case new cfg of
             Inl e \<Rightarrow> Inl (''failed to create '' @ label @ '' notifier: '' @ e)
           | Inr d \<Rightarrow> Inr [(name, send d)]))"

text \<open>One section after the other; the first error ends it.\<close>

fun collect_sections :: "'a list result list \<Rightarrow> 'a list result" where
  "collect_sections [] = Inr []"
| "collect_sections (Inl e # rs) = Inl e"
| "collect_sections (Inr ns # rs) =
     (case collect_sections rs of Inl e \<Rightarrow> Inl e | Inr ms \<Rightarrow> Inr (ns @ ms))"

definition CreateNotifier :: "'w outside \<Rightarrow> notify_config option \<Rightarrow> 'w named_notifier list result" where
  "CreateNotifier env config =
     (case config of
        None \<Rightarrow> Inl ''notify config is nil''
      | Some c \<Rightarrow>
          (let ex = os_externals env in
           case collect_sections
             [from_section ''slack'' ''Slack'' sl_enabled new_slack (slack_send ex) (nc_slack c),
              from_section ''email'' ''Email'' em_enabled (new_email ex) (email_send (os_fuel env) ex (os_mailer env)) (nc_email c),
              from_section ''discord'' ''Discord'' dc_enabled new_discord (discord_send ex) (nc_discord c),
              from_section ''webhook'' ''Webhook'' wh_enabled (new_webhook ex) (webhook_send ex) (nc_webhook c),
              from_section ''valkey'' ''Valkey'' vk_enabled new_valkey
                (valkey_send ex (os_connect env) (os_hang_up env) (os_clock env)) (nc_valkey c)] of
             Inl e \<Rightarrow> Inl e
           | Inr ns \<Rightarrow> if ns = [] then Inl ''no notifiers enabled'' else Inr ns))"

section \<open>Who gets an alert\<close>

definition is_on :: "('c \<Rightarrow> bool) \<Rightarrow> 'c option \<Rightarrow> bool" where
  "is_on enabled cfg \<longleftrightarrow> (case cfg of None \<Rightarrow> False | Some c \<Rightarrow> enabled c)"

definition enabled_sections :: "notify_config \<Rightarrow> string list" where
  "enabled_sections c =
     (if is_on sl_enabled (nc_slack c) then [''slack''] else [])
       @ (if is_on em_enabled (nc_email c) then [''email''] else [])
       @ (if is_on dc_enabled (nc_discord c) then [''discord''] else [])
       @ (if is_on wh_enabled (nc_webhook c) then [''webhook''] else [])
       @ (if is_on vk_enabled (nc_valkey c) then [''valkey''] else [])"

definition section_wants :: "notify_config \<Rightarrow> string \<Rightarrow> string \<Rightarrow> bool" where
  "section_wants c name status \<longleftrightarrow>
     name = ''slack'' \<and> is_on (\<lambda>s. ShouldAlert (sl_alert_on s) status) (nc_slack c)
     \<or> name = ''email'' \<and> is_on (\<lambda>s. ShouldAlert (em_alert_on s) status) (nc_email c)
     \<or> name = ''discord'' \<and> is_on (\<lambda>s. ShouldAlert (dc_alert_on s) status) (nc_discord c)
     \<or> name = ''webhook'' \<and> is_on (\<lambda>s. ShouldAlert (wh_alert_on s) status) (nc_webhook c)
     \<or> name = ''valkey'' \<and> (status = ''success'' \<or> status = ''failure'')"

lemma send_each_wanted:
  assumes "\<forall>(name, n) \<in> set ns. alert_channel n (section_wants c name)"
  shows "send_each ns status vals w = send_each (filter (\<lambda>(name, n). section_wants c name status) ns) status vals w"
  using assms
proof (induction ns arbitrary: w)
  case (Cons x ns)
  obtain name n where x: "x = (name, n)" by fastforce
  with Cons.prems have a: "alert_channel n (section_wants c name)" by simp
  show ?case
  proof (cases "section_wants c name status")
    case True
    with x Cons show ?thesis by (simp split: prod.splits option.splits)
  next
    case False
    with x Cons alert_channel.skipped [OF a False] show ?thesis by simp
  qed
qed simp

lemma from_section_names:
  assumes "from_section name label enabled new send cfg = Inr ns"
  shows "map fst ns = (if is_on enabled cfg then [name] else [])"
  using assms by (auto simp: from_section_def is_on_def split: option.splits if_splits sum.splits)

lemma from_section_channel:
  assumes "from_section name label enabled new send cfg = Inr ns"
    and "\<And>x d. cfg = Some x \<Longrightarrow> new (Some x) = Inr d \<Longrightarrow> alert_channel (send d) wants"
  shows "\<forall>(nm, n) \<in> set ns. nm = name \<and> alert_channel n wants"
  using assms by (auto simp: from_section_def split: option.splits if_splits sum.splits)

lemma collect_sections_append:
  "collect_sections (r # rs) = Inr ns \<Longrightarrow> \<exists>as bs. r = Inr as \<and> collect_sections rs = Inr bs \<and> ns = as @ bs"
  by (cases r) (auto split: sum.splits)

lemma new_configs:
  "new_slack (Some x1) = Inr d1 \<Longrightarrow> d1 = x1" "new_discord (Some x2) = Inr d2 \<Longrightarrow> d2 = x2"
  "new_webhook ex (Some x3) = Inr d3 \<Longrightarrow> d3 = x3" "new_email ex (Some x4) = Inr d4 \<Longrightarrow> d4 = x4"
  by (auto simp: new_slack_def new_discord_def new_webhook_def new_email_def Let_def split: if_splits option.splits)

lemma section_wants_simps:
  "section_wants c ''slack'' = (\<lambda>status. is_on (\<lambda>s. ShouldAlert (sl_alert_on s) status) (nc_slack c))"
  "section_wants c ''email'' = (\<lambda>status. is_on (\<lambda>s. ShouldAlert (em_alert_on s) status) (nc_email c))"
  "section_wants c ''discord'' = (\<lambda>status. is_on (\<lambda>s. ShouldAlert (dc_alert_on s) status) (nc_discord c))"
  "section_wants c ''webhook'' = (\<lambda>status. is_on (\<lambda>s. ShouldAlert (wh_alert_on s) status) (nc_webhook c))"
  "section_wants c ''valkey'' = (\<lambda>status. status = ''success'' \<or> status = ''failure'')"
  by (simp_all add: section_wants_def fun_eq_iff)

lemma section_channels:
  "from_section ''slack'' l1 sl_enabled new_slack (slack_send ex) (nc_slack c) = Inr n1 \<Longrightarrow>
    \<forall>(nm, n) \<in> set n1. nm = ''slack'' \<and> alert_channel n (section_wants c ''slack'')"
  "from_section ''email'' l2 em_enabled (new_email ex) (email_send fuel ex ml) (nc_email c) = Inr n2 \<Longrightarrow>
    \<forall>(nm, n) \<in> set n2. nm = ''email'' \<and> alert_channel n (section_wants c ''email'')"
  "from_section ''discord'' l3 dc_enabled new_discord (discord_send ex) (nc_discord c) = Inr n3 \<Longrightarrow>
    \<forall>(nm, n) \<in> set n3. nm = ''discord'' \<and> alert_channel n (section_wants c ''discord'')"
  "from_section ''webhook'' l4 wh_enabled (new_webhook ex) (webhook_send ex) (nc_webhook c) = Inr n4 \<Longrightarrow>
    \<forall>(nm, n) \<in> set n4. nm = ''webhook'' \<and> alert_channel n (section_wants c ''webhook'')"
  "from_section ''valkey'' l5 vk_enabled new_valkey (valkey_send ex cn hu cl) (nc_valkey c) = Inr n5 \<Longrightarrow>
    \<forall>(nm, n) \<in> set n5. nm = ''valkey'' \<and> alert_channel n (section_wants c ''valkey'')"
  unfolding section_wants_simps
  by (erule from_section_channel,
      force dest: new_configs simp: is_on_def slack.alert_channel_axioms email.alert_channel_axioms
        discord.alert_channel_axioms webhook.alert_channel_axioms valkey.alert_channel_axioms)+

text \<open>
  C35: a monitor's notifiers are those of its enabled sections, in the order of the code, at least one;
  and an alert does what it would do if only the notifiers were there whose section asks for it: no
  other is contacted, and none of the others can make it fail.
\<close>

theorem alerts_reach_subscribers:
  assumes "CreateNotifier env (Some c) = Inr ns"
  shows "map fst ns = enabled_sections c \<and> ns \<noteq> []
    \<and> composite_send ns status vals w
        = composite_send (filter (\<lambda>(name, n). section_wants c name status) ns) status vals w"
proof -
  let ?ex = "os_externals env"
  have col: "collect_sections
       [from_section ''slack'' ''Slack'' sl_enabled new_slack (slack_send ?ex) (nc_slack c),
        from_section ''email'' ''Email'' em_enabled (new_email ?ex) (email_send (os_fuel env) ?ex (os_mailer env)) (nc_email c),
        from_section ''discord'' ''Discord'' dc_enabled new_discord (discord_send ?ex) (nc_discord c),
        from_section ''webhook'' ''Webhook'' wh_enabled (new_webhook ?ex) (webhook_send ?ex) (nc_webhook c),
        from_section ''valkey'' ''Valkey'' vk_enabled new_valkey
          (valkey_send ?ex (os_connect env) (os_hang_up env) (os_clock env)) (nc_valkey c)] = Inr ns" "ns \<noteq> []"
    using assms by (auto simp: CreateNotifier_def Let_def split: sum.splits if_splits)
  obtain n1 n2 n3 n4 n5 where n:
    "from_section ''slack'' ''Slack'' sl_enabled new_slack (slack_send ?ex) (nc_slack c) = Inr n1"
    "from_section ''email'' ''Email'' em_enabled (new_email ?ex) (email_send (os_fuel env) ?ex (os_mailer env)) (nc_email c) = Inr n2"
    "from_section ''discord'' ''Discord'' dc_enabled new_discord (discord_send ?ex) (nc_discord c) = Inr n3"
    "from_section ''webhook'' ''Webhook'' wh_enabled (new_webhook ?ex) (webhook_send ?ex) (nc_webhook c) = Inr n4"
    "from_section ''valkey'' ''Valkey'' vk_enabled new_valkey
       (valkey_send ?ex (os_connect env) (os_hang_up env) (os_clock env)) (nc_valkey c) = Inr n5"
    "ns = n1 @ n2 @ n3 @ n4 @ n5"
    using col(1) by (auto dest!: collect_sections_append)
  have names: "map fst ns = enabled_sections c"
    using n(1-5) [THEN from_section_names] by (simp add: n(6) enabled_sections_def)
  have "\<forall>(name, n) \<in> set ns. alert_channel n (section_wants c name)"
    using section_channels(1) [OF n(1)] section_channels(2) [OF n(2)] section_channels(3) [OF n(3)]
      section_channels(4) [OF n(4)] section_channels(5) [OF n(5)]
    by (auto simp: n(6))
  from send_each_wanted [OF this] names col(2) show ?thesis by (simp add: composite_send_def)
qed

section \<open>A configuration\<close>

definition demo_notify :: notify_config where
  "demo_notify =
     \<lparr>nc_slack = Some \<lparr>sl_enabled = True, sl_url = ''https://slack/x'', sl_alert_on = [''change'']\<rparr>, nc_email = None,
      nc_discord = Some \<lparr>dc_enabled = True, dc_url = ''https://discord/x'', dc_alert_on = []\<rparr>, nc_webhook = None,
      nc_valkey = None\<rparr>"

text \<open>A world that counts HTTP requests.\<close>

definition demo_outside :: "nat outside" where
  "demo_outside =
     \<lparr>os_externals = \<lparr>ex_bad_url = (\<lambda>_. None), ex_http = (\<lambda>req n. (Inr \<lparr>hp_code = 200, hp_status = ''200 OK''\<rparr>, Suc n)),
        ex_secret = (\<lambda>_ _ _. Inl ''none''), ex_bad_template = (\<lambda>_. None), ex_template = (\<lambda>t _. Inr t), ex_version = ''dev''\<rparr>,
      os_mailer = \<lparr>ml_date = (\<lambda>_. []), ml_dial = (\<lambda>_ _. Inl ''none''), ml_sent = (\<lambda>_ n. n), ml_ses = (\<lambda>_ _ _ _ n. (None, n))\<rparr>,
      os_connect = (\<lambda>_ _ _. Inl ''none''), os_hang_up = (\<lambda>_ n. n), os_clock = (\<lambda>_. 0), os_fuel = 4\<rparr>"

theorem alerts_reach_subscribers_witness:
  "\<exists>ns. CreateNotifier demo_outside (Some demo_notify) = Inr ns \<and> map fst ns = [''slack'', ''discord'']
    \<and> composite_send ns ''failure'' example_values 0
      = composite_send (filter (\<lambda>(name, n). section_wants demo_notify name ''failure'') ns) ''failure'' example_values 0
    \<and> snd (composite_send ns ''failure'' example_values 0) = 1"
proof -
  let ?ns = "[(''slack'', slack_send (os_externals demo_outside) \<lparr>sl_enabled = True, sl_url = ''https://slack/x'', sl_alert_on = [''change'']\<rparr>),
    (''discord'', discord_send (os_externals demo_outside) \<lparr>dc_enabled = True, dc_url = ''https://discord/x'', dc_alert_on = []\<rparr>)]"
  have n: "CreateNotifier demo_outside (Some demo_notify) = Inr ?ns"
    by (simp add: CreateNotifier_def demo_notify_def from_section_def new_slack_def new_discord_def Let_def)
  moreover have "snd (composite_send ?ns ''failure'' example_values 0) = 1" by code_simp
  ultimately show ?thesis
    using alerts_reach_subscribers [OF n, of "''failure''" example_values 0] by (auto simp: enabled_sections_def demo_notify_def is_on_def)
qed

end
