(* ===== verification/Go_Url.thy ===== *)
theory Go_Url
  imports Go_Addr Error_Text
begin

text \<open>
  Go's \<^verbatim>\<open>net/url\<close> as the program uses it: \<^verbatim>\<open>Parse\<close> and \<^verbatim>\<open>String\<close>. What counts as a host, and how it is
  printed, is an argument, a function of the scheme and the text of the host.
\<close>

type_synonym hosts = "string \<Rightarrow> string \<Rightarrow> string option"

section \<open>Escapes\<close>

datatype url_part = InPath | InUser | InFragment

definition should_escape :: "url_part \<Rightarrow> char \<Rightarrow> bool" where
  "should_escape mode c =
     (if is_alpha c \<or> is_digit c \<or> c \<in> set ''-_.~'' then False
      else if c \<in> set ''$&+,/:;=?@''
      then (case mode of InPath \<Rightarrow> c = CHR ''?'' | InUser \<Rightarrow> c \<in> set ''@/?:'' | InFragment \<Rightarrow> False)
      else \<not> (mode = InFragment \<and> c \<in> set ''!()*''))"

definition upper_hex :: "nat \<Rightarrow> char" where
  "upper_hex n = (if n < 10 then char_of (48 + n) else char_of (55 + n))"

definition escape_char :: "url_part \<Rightarrow> char \<Rightarrow> string" where
  "escape_char mode c =
     (if should_escape mode c then [CHR ''%'', upper_hex (of_char c div 16), upper_hex (of_char c mod 16)] else [c])"

definition escape :: "url_part \<Rightarrow> string \<Rightarrow> string" where
  "escape mode s = concat (map (escape_char mode) s)"

fun unescape :: "string \<Rightarrow> string option" where
  "unescape [] = Some []"
| "unescape (c # cs) =
     (if c \<noteq> CHR ''%'' then map_option (Cons c) (unescape cs)
      else case cs of
        a # b # rest \<Rightarrow>
          (case (hex_val a, hex_val b) of
             (Some x, Some y) \<Rightarrow> map_option (Cons (char_of (16 * x + y))) (unescape rest)
           | _ \<Rightarrow> None)
      | _ \<Rightarrow> None)"

definition valid_encoded :: "url_part \<Rightarrow> string \<Rightarrow> bool" where
  "valid_encoded mode s \<longleftrightarrow>
     list_all (\<lambda>c. c \<in> set ''!$&()*+,;=:@[]%'' \<or> c = CHR 0x27 \<or> \<not> should_escape mode c) s"

text \<open>The text of a path or a fragment: as it was written where that is a valid encoding.\<close>

definition escaped :: "url_part \<Rightarrow> string \<Rightarrow> string \<Rightarrow> string" where
  "escaped mode decoded raw =
     (if raw \<noteq> [] \<and> valid_encoded mode raw \<and> unescape raw = Some decoded then raw else escape mode decoded)"

definition raw_of :: "url_part \<Rightarrow> string \<Rightarrow> string \<Rightarrow> string" where
  "raw_of mode written decoded = (if written = escape mode decoded then [] else written)"

section \<open>URLs\<close>

record url_user =
  uu_name :: string
  uu_password :: "string option"

record url =
  ur_scheme :: string
  ur_opaque :: string
  ur_user :: "url_user option"
  ur_host :: string
  ur_path :: string
  ur_raw_path :: string
  ur_omit_host :: bool
  ur_force_query :: bool
  ur_query :: string
  ur_fragment :: string
  ur_raw_fragment :: string

definition empty_url :: url where
  "empty_url = \<lparr>ur_scheme = [], ur_opaque = [], ur_user = None, ur_host = [], ur_path = [], ur_raw_path = [],
     ur_omit_host = False, ur_force_query = False, ur_query = [], ur_fragment = [], ur_raw_fragment = []\<rparr>"

definition before :: "char \<Rightarrow> string \<Rightarrow> string" where
  "before d s = takeWhile (\<lambda>c. c \<noteq> d) s"

definition behind :: "char \<Rightarrow> string \<Rightarrow> string" where
  "behind d s = tl (dropWhile (\<lambda>c. c \<noteq> d) s)"

section \<open>Parsing\<close>

definition get_scheme :: "string \<Rightarrow> (string \<times> string) option" where
  "get_scheme raw =
     (let s = takeWhile scheme_char raw; rest = dropWhile scheme_char raw in
      if raw \<noteq> [] \<and> hd raw = CHR '':'' then None
      else if s \<noteq> [] \<and> is_alpha (hd s) \<and> rest \<noteq> [] \<and> hd rest = CHR '':'' then Some (s, tl rest)
      else Some ([], raw))"

definition user_char :: "char \<Rightarrow> bool" where
  "user_char c \<longleftrightarrow> is_alpha c \<or> is_digit c \<or> c \<in> set ''-._:~!$&()*+,;=%@'' \<or> c = CHR 0x27"

definition parse_user :: "string \<Rightarrow> url_user option" where
  "parse_user info =
     (if \<not> list_all user_char info then None
      else if CHR '':'' \<notin> set info then map_option (\<lambda>n. \<lparr>uu_name = n, uu_password = None\<rparr>) (unescape info)
      else case (unescape (before (CHR '':'') info), unescape (behind (CHR '':'') info)) of
        (Some n, Some p) \<Rightarrow> Some \<lparr>uu_name = n, uu_password = Some p\<rparr>
      | _ \<Rightarrow> None)"

text \<open>The user ends at the last \<open>@\<close>.\<close>

definition last_part :: "char \<Rightarrow> string \<Rightarrow> string" where
  "last_part d s = rev (before d (rev s))"

definition first_part :: "char \<Rightarrow> string \<Rightarrow> string" where
  "first_part d s = rev (behind d (rev s))"

definition parse_authority :: "hosts \<Rightarrow> string \<Rightarrow> string \<Rightarrow> (url_user option \<times> string) option" where
  "parse_authority hosts scheme authority =
     (if CHR ''@'' \<notin> set authority then map_option (Pair None) (hosts scheme authority)
      else case (hosts scheme (last_part (CHR ''@'') authority), parse_user (first_part (CHR ''@'') authority)) of
        (Some h, Some u) \<Rightarrow> Some (Some u, h)
      | _ \<Rightarrow> None)"

definition set_path :: "string \<Rightarrow> url \<Rightarrow> url option" where
  "set_path p u = map_option (\<lambda>d. u\<lparr>ur_path := d, ur_raw_path := raw_of InPath p d\<rparr>) (unescape p)"

definition set_fragment :: "string \<Rightarrow> url \<Rightarrow> url option" where
  "set_fragment f u = map_option (\<lambda>d. u\<lparr>ur_fragment := d, ur_raw_fragment := raw_of InFragment f d\<rparr>) (unescape f)"

definition is_control :: "char \<Rightarrow> bool" where
  "is_control c \<longleftrightarrow> (of_char c :: int) < 32 \<or> (of_char c :: int) = 127"

text \<open>What follows the scheme, without its query.\<close>

definition parse_hierarchy :: "hosts \<Rightarrow> string \<Rightarrow> url \<Rightarrow> url option" where
  "parse_hierarchy hosts rest u =
     (let scheme = ur_scheme u in
      if \<not> has_prefix rest ''/'' \<and> scheme \<noteq> [] then Some (u\<lparr>ur_opaque := rest\<rparr>)
      else if \<not> has_prefix rest ''/'' \<and> CHR '':'' \<in> set (before (CHR ''/'') rest) then None
      else if (scheme \<noteq> [] \<or> \<not> has_prefix rest ''///'') \<and> has_prefix rest ''//''
      then (let authority = before (CHR ''/'') (drop 2 rest); path = drop (length authority + 2) rest
            in case parse_authority hosts scheme authority of
                 None \<Rightarrow> None
               | Some (user, host) \<Rightarrow> set_path path (u\<lparr>ur_user := user, ur_host := host\<rparr>))
      else set_path rest (u\<lparr>ur_omit_host := scheme \<noteq> [] \<and> has_prefix rest ''/''\<rparr>))"

definition parse_bare :: "hosts \<Rightarrow> string \<Rightarrow> url option" where
  "parse_bare hosts raw =
     (if list_ex is_control raw then None
      else if raw = ''*'' then Some (empty_url\<lparr>ur_path := ''*''\<rparr>)
      else case get_scheme raw of
        None \<Rightarrow> None
      | Some (scheme, rest) \<Rightarrow>
          (if has_suffix rest ''?'' \<and> count_list rest (CHR ''?'') = 1
           then parse_hierarchy hosts (butlast rest) (empty_url\<lparr>ur_scheme := to_lower scheme, ur_force_query := True\<rparr>)
           else parse_hierarchy hosts (before (CHR ''?'') rest)
             (empty_url\<lparr>ur_scheme := to_lower scheme, ur_query := behind (CHR ''?'') rest\<rparr>)))"

definition parse_url :: "hosts \<Rightarrow> string \<Rightarrow> url option" where
  "parse_url hosts raw =
     (case parse_bare hosts (before (CHR ''#'') raw) of
        None \<Rightarrow> None
      | Some u \<Rightarrow> if behind (CHR ''#'') raw = [] then Some u else set_fragment (behind (CHR ''#'') raw) u)"

section \<open>Printing\<close>

definition user_text :: "url_user \<Rightarrow> string" where
  "user_text u =
     escape InUser (uu_name u) @ (case uu_password u of None \<Rightarrow> [] | Some p \<Rightarrow> '':'' @ escape InUser p)"

definition authority_text :: "url \<Rightarrow> string" where
  "authority_text u =
     (if ur_scheme u = [] \<and> ur_host u = [] \<and> ur_user u = None then []
      else if ur_omit_host u \<and> ur_host u = [] \<and> ur_user u = None then []
      else (if ur_host u \<noteq> [] \<or> ur_path u \<noteq> [] \<or> ur_user u \<noteq> None then ''//'' else [])
        @ (case ur_user u of None \<Rightarrow> [] | Some ui \<Rightarrow> user_text ui @ ''@'') @ ur_host u)"

definition path_text :: "url \<Rightarrow> string" where
  "path_text u =
     (if ur_path u = ''*'' then ''*'' else escaped InPath (ur_path u) (ur_raw_path u))"

definition scheme_text :: "url \<Rightarrow> string" where
  "scheme_text u = (if ur_scheme u = [] then [] else ur_scheme u @ '':'')"

definition slash_text :: "url \<Rightarrow> string" where
  "slash_text u = (if path_text u \<noteq> [] \<and> hd (path_text u) \<noteq> CHR ''/'' \<and> ur_host u \<noteq> [] then ''/'' else [])"

definition dot_text :: "url \<Rightarrow> string" where
  "dot_text u =
     (if scheme_text u = [] \<and> authority_text u = [] \<and> slash_text u = []
         \<and> CHR '':'' \<in> set (before (CHR ''/'') (path_text u)) then ''./'' else [])"

definition hierarchy_text :: "url \<Rightarrow> string" where
  "hierarchy_text u =
     (if ur_opaque u \<noteq> [] then ur_opaque u else authority_text u @ slash_text u @ dot_text u @ path_text u)"

definition url_text :: "url \<Rightarrow> string" where
  "url_text u =
     scheme_text u @ hierarchy_text u
       @ (if ur_force_query u \<or> ur_query u \<noteq> [] then ''?'' @ ur_query u else [])
       @ (if ur_fragment u \<noteq> [] then ''#'' @ escaped InFragment (ur_fragment u) (ur_raw_fragment u) else [])"

end
