(* ===== verification/Operator_System.thy ===== *)
theory Operator_System
  imports Driver_Factory Notifier_Factory Operator_Schedule Endpoint_Display
begin

text \<open>
  The operator put together: \<^verbatim>\<open>Reconcile\<close> with the drivers and notifiers of the factories. With them the
  branch in which a check returns an error in place of a result is dead, and a due check always gets as
  far as saving the status.
\<close>

definition operator_of :: "'w drivers \<Rightarrow> 'w outside \<Rightarrow> hosts \<Rightarrow> 'w reconciler \<Rightarrow> 'w reconciler" where
  "operator_of dr env hosts r =
     r\<lparr>rc_display := DisplayEndpoint hosts,
       rc_new_driver := (\<lambda>m. CreateDriver dr (sp_driver (mo_spec m)) (sp_endpoint (mo_spec m)) (mo_spec m) (fst (mo_key m))),
       rc_new_notifier := (\<lambda>config. CreateNotifier env (Some config))\<rparr>"

lemma check_values_status: "nv_status (check_values r m d res now) = status_text res"
  by (simp add: check_values_def)

lemma CreateDriver_reports:
  assumes "CreateDriver dr t e spec ns w0 = Inr d"
  obtains res w' where "dv_check d w = (Inr res, w')" "cr_success res \<longrightarrow> cr_error res = None"
  using reporting.reports [OF CreateDriver_reporting [OF assms], of w] by blast

theorem configured_check_is_reported:
  assumes "CreateDriver dr (sp_driver (mo_spec m)) (sp_endpoint (mo_spec m)) (mo_spec m) (fst (mo_key m)) (op_world s) = Inr d"
    and "CreateNotifier env (Some (sp_notify (mo_spec m))) = Inr ns"
  shows "\<exists>res w'. dv_check d (op_world s) = (Inr res, w')
    \<and> check_monitor (operator_of dr env hosts r) interval m now s
      = report_check (operator_of dr env hosts r) interval m ns (check_values (operator_of dr env hosts r) m d res now) now (s\<lparr>op_world := w'\<rparr>)"
proof -
  obtain res w' where "dv_check d (op_world s) = (Inr res, w')" using CreateDriver_reports [OF assms(1)] .
  with assms show ?thesis by (simp add: check_monitor_def operator_of_def)
qed

text \<open>
  A monitor whose driver or notifiers cannot be created is not checked: its status stays, an event says
  why, and it is tried again soon.
\<close>

theorem misconfigured_monitor_is_not_checked:
  assumes "CreateDriver dr (sp_driver (mo_spec m)) (sp_endpoint (mo_spec m)) (mo_spec m) (fst (mo_key m)) (op_world s) = Inl e
    \<or> CreateNotifier env (Some (sp_notify (mo_spec m))) = Inl e"
  shows "\<exists>err. check_monitor (operator_of dr env hosts r) interval m now s
    = (Inr (min interval setupRetry), s\<lparr>op_world := kb_event (rc_kube r) m ''CannotCheck'' err (op_world s)\<rparr>)"
  using assms
  by (cases "CreateDriver dr (sp_driver (mo_spec m)) (sp_endpoint (mo_spec m)) (mo_spec m) (fst (mo_key m)) (op_world s)")
    (auto simp: check_monitor_def Let_def operator_of_def cannotCheck_def)

end
