(* ===== verification/Json_Verdict.thy ===== *)
theory Json_Verdict
  imports Driver_Http
begin

text \<open>
  When an \<^verbatim>\<open>http-json\<close> check passes, said without the functions of \<^verbatim>\<open>httpjson.go\<close>: the body is described by what
  the JSON parser finds in it, paths by a relation on the entries of objects, numbers by the grammar of JSON.
\<close>

section \<open>Paths\<close>

text \<open>A path leads through objects; of several entries of a key the last one counts.\<close>

inductive leads_to :: "jvalue \<Rightarrow> string list \<Rightarrow> jvalue \<Rightarrow> bool" where
  here: "leads_to v [] v"
| inside: "leads_to u keys x \<Longrightarrow> k \<notin> fst ` set post \<Longrightarrow> leads_to (VObj (pre @ (k, u) # post)) (k # keys) x"

inductive_simps leads_to_here [simp]: "leads_to v [] x"
inductive_simps leads_to_inside: "leads_to v (k # keys) x"

lemma keys_latest: "fst ` set (latest kvs) = fst ` set kvs"
  by (induction kvs rule: latest.induct) auto

lemma map_of_latest: "map_of (latest kvs) k = Some v \<longleftrightarrow> (\<exists>pre post. kvs = pre @ (k, v) # post \<and> k \<notin> fst ` set post)"
proof (induction kvs)
  case (Cons e kvs)
  obtain k' v' where e: "e = (k', v')" by (cases e)
  show ?case
  proof (cases "k \<in> fst ` set kvs")
    case True
    then have "map_of (latest (e # kvs)) k = map_of (latest kvs) k" by (auto simp: e)
    moreover have "(\<exists>pre post. e # kvs = pre @ (k, v) # post \<and> k \<notin> fst ` set post)
        \<longleftrightarrow> (\<exists>pre post. kvs = pre @ (k, v) # post \<and> k \<notin> fst ` set post)"
      using True by (auto simp: Cons_eq_append_conv)
    ultimately show ?thesis using Cons.IH by simp
  next
    case False
    then have "map_of (latest (e # kvs)) k = (if k' = k then Some v' else None)"
      by (auto simp: e map_of_eq_None_iff keys_latest)
    moreover have "(\<exists>pre post. e # kvs = pre @ (k, v) # post \<and> k \<notin> fst ` set post) \<longleftrightarrow> k' = k \<and> v' = v"
      using False by (auto simp: e append_eq_Cons_conv Cons_eq_append_conv)
    ultimately show ?thesis by auto
  qed
qed simp

lemma latest_map: "latest (map (\<lambda>(k, v). (k, f v)) kvs) = map (\<lambda>(k, v). (k, f v)) (latest kvs)"
proof (induction kvs)
  case (Cons e kvs)
  obtain k v where e: "e = (k, v)" by (cases e)
  have "fst ` set (map (\<lambda>(k, v). (k, f v)) kvs) = fst ` set kvs" by force
  then show ?case by (simp only: e list.map case_prod_conv latest.simps Cons.IH if_distrib [of "map _"])
qed simp

lemma resolve_leads: "resolve_keys (json_map v) keys = Some y \<longleftrightarrow> (\<exists>x. leads_to v keys x \<and> y = json_map x)"
proof (induction keys arbitrary: v)
  case (Cons k keys)
  show ?case
  proof (cases v)
    case (VObj kvs)
    have look: "map_of (latest (map (\<lambda>(k, v). (k, json_map v)) kvs)) k = map_option json_map (map_of (latest kvs) k)"
      unfolding latest_map map_of_map by (simp add: comp_def)
    have "resolve_keys (json_map v) (k # keys) = Some y \<longleftrightarrow>
        (\<exists>u x. map_of (latest kvs) k = Some u \<and> leads_to u keys x \<and> y = json_map x)"
      using Cons.IH by (auto simp: VObj look split: option.split)
    also have "\<dots> \<longleftrightarrow> (\<exists>x. leads_to v (k # keys) x \<and> y = json_map x)"
      unfolding map_of_latest leads_to_inside VObj by blast
    finally show ?thesis .
  qed (auto simp: leads_to_inside)
qed auto

section \<open>Numbers\<close>

text \<open>The literals of JSON numbers: \<open>denotes s x e\<close> says that \<open>s\<close> is one with the value \<open>x\<close> and the exponent \<open>e\<close>.\<close>

definition digits :: "string \<Rightarrow> bool" where
  "digits ds \<longleftrightarrow> ds \<noteq> [] \<and> (\<forall>c \<in> set ds. is_digit c)"

definition fraction_literal :: "string \<Rightarrow> string \<Rightarrow> bool" where
  "fraction_literal t ds \<longleftrightarrow> t = [] \<and> ds = [] \<or> digits ds \<and> t = CHR ''.'' # ds"

definition exponent_literal :: "string \<Rightarrow> int \<Rightarrow> bool" where
  "exponent_literal t e \<longleftrightarrow> t = [] \<and> e = 0
     \<or> (\<exists>m sg ds. m \<in> {CHR ''e'', CHR ''E''} \<and> sg \<in> {[], ''+'', ''-''} \<and> digits ds \<and> t = m # sg @ ds
         \<and> e = (if sg = ''-'' then - digits_val ds else digits_val ds))"

definition denotes :: "string \<Rightarrow> rat \<Rightarrow> int \<Rightarrow> bool" where
  "denotes s x e \<longleftrightarrow> (\<exists>neg whole ft fraction et. s = (if neg then ''-'' else []) @ whole @ ft @ et
     \<and> digits whole \<and> (hd whole = CHR ''0'' \<longrightarrow> whole = ''0'') \<and> fraction_literal ft fraction \<and> exponent_literal et e
     \<and> x = (if neg then -1 else 1) * of_int (digits_val (whole @ fraction)) / 10 ^ length fraction * 10 powi e)"

lemma all_digits_digits: "all_digits ds = digits ds"
  by (simp add: all_digits_def digits_def list_all_iff)

lemma no_digit [simp]:
  "\<not> is_digit (CHR ''.'')" "\<not> is_digit (CHR ''-'')" "\<not> is_digit (CHR ''+'')" "\<not> is_digit (CHR ''e'')" "\<not> is_digit (CHR ''E'')"
  by (simp_all add: is_digit_def)

lemma split_digits:
  assumes "\<forall>c \<in> set ds. is_digit c" "rest = [] \<or> \<not> is_digit (hd rest)"
  shows "takeWhile is_digit (ds @ rest) = ds" "dropWhile is_digit (ds @ rest) = rest"
  using assms by (cases rest; simp add: takeWhile_append dropWhile_append)+

lemma exponent_parts_iff:
  "exponent_parts t = Some (neg, d) \<longleftrightarrow> digits d \<and> t = (if neg then ''-'' else []) @ d \<or> digits d \<and> \<not> neg \<and> t = ''+'' @ d"
proof (cases t)
  case (Cons c cs)
  have "digits (c # cs) \<Longrightarrow> c \<noteq> CHR ''-'' \<and> c \<noteq> CHR ''+''" by (auto simp: digits_def)
  then show ?thesis by (auto simp: Cons exponent_parts_def all_digits_digits Let_def split: if_splits)
qed (auto simp: exponent_parts_def all_digits_digits digits_def)

lemma parse_number_parts:
  assumes "digits whole" "hd whole = CHR ''0'' \<longrightarrow> whole = ''0''" "fraction_literal ft fraction"
    and "et = [] \<or> hd et \<in> {CHR ''e'', CHR ''E''}"
  shows "parse_number ((if neg then ''-'' else []) @ whole @ ft @ et) =
    (if et = [] then Some \<lparr>np_negative = neg, np_int = whole, np_fraction = fraction, np_exp_negative = False, np_exp = ''0''\<rparr>
     else map_option (\<lambda>(eneg, e). \<lparr>np_negative = neg, np_int = whole, np_fraction = fraction, np_exp_negative = eneg, np_exp = e\<rparr>)
       (exponent_parts (tl et)))"
proof -
  let ?s = "(if neg then ''-'' else []) @ whole @ ft @ et"
  have w: "whole \<noteq> []" "\<forall>c \<in> set whole. is_digit c" using assms(1) by (simp_all add: digits_def)
  then have "hd whole \<noteq> CHR ''-''" by (metis hd_in_set no_digit(2))
  then have sign: "(?s \<noteq> [] \<and> hd ?s = CHR ''-'') = neg" using w(1) by (cases whole) auto
  have rest: "(if neg then tl ?s else ?s) = whole @ ft @ et" by simp
  have ft: "ft = [] \<and> fraction = [] \<or> digits fraction \<and> ft = CHR ''.'' # fraction"
    using assms(3) by (simp add: fraction_literal_def)
  have stop: "et = [] \<or> \<not> is_digit (hd et)" "et \<noteq> [] \<Longrightarrow> hd et \<noteq> CHR ''.''" using assms(4) by auto
  have "ft @ et = [] \<or> \<not> is_digit (hd (ft @ et))" using ft stop(1) by auto
  note one = split_digits [OF w(2) this]
  have two: "fraction \<noteq> [] \<Longrightarrow> takeWhile is_digit (fraction @ et) = fraction \<and> dropWhile is_digit (fraction @ et) = et"
    using ft stop(1) by (intro conjI split_digits) (auto simp: digits_def)
  have zero: "\<not> (Suc 0 < length whole \<and> hd whole = CHR ''0'')" using assms(2) by auto
  show ?thesis
  proof (cases "fraction = []")
    case True
    with ft have "ft = []" by (auto simp: digits_def)
    with True one w zero stop assms(4) show ?thesis
      unfolding parse_number_def Let_def sign rest by auto
  next
    case False
    with ft have "ft = CHR ''.'' # fraction" by auto
    with False one two w zero stop assms(4) show ?thesis
      unfolding parse_number_def Let_def sign rest by auto
  qed
qed

lemma parse_number_split:
  assumes "parse_number s = Some p"
  obtains neg whole ft fraction et where "s = (if neg then ''-'' else []) @ whole @ ft @ et" "digits whole"
    "hd whole = CHR ''0'' \<longrightarrow> whole = ''0''" "fraction_literal ft fraction" "et = [] \<or> hd et \<in> {CHR ''e'', CHR ''E''}"
proof -
  define neg where "neg \<longleftrightarrow> s \<noteq> [] \<and> hd s = CHR ''-''"
  define s1 where "s1 = (if neg then tl s else s)"
  define whole where "whole = takeWhile is_digit s1"
  define s2 where "s2 = dropWhile is_digit s1"
  define point where "point \<longleftrightarrow> s2 \<noteq> [] \<and> hd s2 = CHR ''.''"
  define fraction where "fraction = (if point then takeWhile is_digit (tl s2) else [])"
  define et where "et = (if point then dropWhile is_digit (tl s2) else s2)"
  define ft where "ft = (if point then CHR ''.'' # fraction else [])"
  have "\<not> (whole = [] \<or> 1 < length whole \<and> hd whole = CHR ''0'' \<or> point \<and> fraction = [])
    \<and> (et = [] \<or> hd et = CHR ''e'' \<or> hd et = CHR ''E'')"
    using assms unfolding parse_number_def Let_def neg_def [symmetric] s1_def [symmetric] whole_def [symmetric] s2_def [symmetric]
      point_def [symmetric] fraction_def [symmetric] et_def [symmetric]
    by (simp only: split: if_split_asm) simp_all
  then have n: "whole \<noteq> []" "\<not> (1 < length whole \<and> hd whole = CHR ''0'')" "point \<Longrightarrow> fraction \<noteq> []"
    and et: "et = [] \<or> hd et \<in> {CHR ''e'', CHR ''E''}" by auto
  have "s = (if neg then ''-'' else []) @ s1" by (cases s) (auto simp: neg_def s1_def)
  moreover have "s1 = whole @ s2" by (simp add: whole_def s2_def)
  moreover have "s2 = ft @ et" by (cases s2) (auto simp: ft_def et_def fraction_def point_def)
  ultimately have "s = (if neg then ''-'' else []) @ whole @ ft @ et" by simp
  moreover have "digits whole" using n(1) by (auto simp: digits_def whole_def dest: set_takeWhileD)
  moreover have "hd whole = CHR ''0'' \<longrightarrow> whole = ''0''"
    using n(1,2) by (cases whole; cases "tl whole") auto
  moreover have "fraction_literal ft fraction"
    using n(3) by (auto simp: digits_def fraction_literal_def ft_def fraction_def dest: set_takeWhileD)
  ultimately show thesis using et by (rule that)
qed

lemma number_value_eq:
  "number_value \<lparr>np_negative = neg, np_int = whole, np_fraction = fraction, np_exp_negative = eneg, np_exp = d\<rparr> =
    (if neg then -1 else 1) * of_int (digits_val (whole @ fraction)) / 10 ^ length fraction
      * 10 powi (if eneg then - digits_val d else digits_val d)"
  by (simp add: number_value_def exponent_of_def Let_def power_int_diff power_int_of_nat)

lemma parse_denotes: "(\<exists>p. parse_number s = Some p \<and> number_value p = x \<and> exponent_of p = e) \<longleftrightarrow> denotes s x e"
proof
  assume "\<exists>p. parse_number s = Some p \<and> number_value p = x \<and> exponent_of p = e"
  then obtain p where p: "parse_number s = Some p" "number_value p = x" "exponent_of p = e" by blast
  from p(1) obtain neg whole ft fraction et where f: "s = (if neg then ''-'' else []) @ whole @ ft @ et" "digits whole"
    "hd whole = CHR ''0'' \<longrightarrow> whole = ''0''" "fraction_literal ft fraction" "et = [] \<or> hd et \<in> {CHR ''e'', CHR ''E''}"
    by (rule parse_number_split)
  note q = parse_number_parts [OF f(2-5), of neg, folded f(1)]
  let ?v = "(if neg then -1 else 1) * of_int (digits_val (whole @ fraction)) / 10 ^ length fraction"
  have "exponent_literal et e \<and> x = ?v * 10 powi e"
  proof (cases et)
    case Nil
    with p q have "p = \<lparr>np_negative = neg, np_int = whole, np_fraction = fraction, np_exp_negative = False, np_exp = ''0''\<rparr>" by simp
    moreover have "digits_val ''0'' = 0" by code_simp
    ultimately have "e = 0" "x = ?v * 10 powi 0" using p(2,3) by (simp_all only: exponent_of_def number_value_eq) simp_all
    with Nil show ?thesis by (simp add: exponent_literal_def)
  next
    case (Cons m r)
    with p(1) q obtain eneg d where d: "exponent_parts r = Some (eneg, d)"
      "p = \<lparr>np_negative = neg, np_int = whole, np_fraction = fraction, np_exp_negative = eneg, np_exp = d\<rparr>" by auto
    obtain sg where sg: "sg \<in> {[], ''+'', ''-''}" "r = sg @ d" "digits d" "eneg \<longleftrightarrow> sg = ''-''"
      using d(1) unfolding exponent_parts_iff by (cases eneg) auto
    have e: "e = (if eneg then - digits_val d else digits_val d)"
      unfolding p(3) [symmetric] by (simp add: d(2) exponent_of_def)
    have "m \<in> {CHR ''e'', CHR ''E''}" using f(5) Cons by simp
    with sg e have "exponent_literal et e" unfolding exponent_literal_def Cons by blast
    moreover have "x = ?v * 10 powi e" unfolding p(2) [symmetric] e by (simp only: d(2) number_value_eq)
    ultimately show ?thesis ..
  qed
  with f show "denotes s x e" unfolding denotes_def by blast
next
  assume "denotes s x e"
  then obtain neg whole ft fraction et where f: "s = (if neg then ''-'' else []) @ whole @ ft @ et" "digits whole"
    "hd whole = CHR ''0'' \<longrightarrow> whole = ''0''" "fraction_literal ft fraction" and e: "exponent_literal et e"
    and x: "x = (if neg then -1 else 1) * of_int (digits_val (whole @ fraction)) / 10 ^ length fraction * 10 powi e"
    unfolding denotes_def by blast
  have "et = [] \<or> hd et \<in> {CHR ''e'', CHR ''E''}" using e by (auto simp: exponent_literal_def)
  note q = parse_number_parts [OF f(2-4) this, of neg, folded f(1)]
  consider "et = []" "e = 0" | m sg d where "sg \<in> {[], ''+'', ''-''}" "digits d" "et = m # sg @ d"
      "e = (if sg = ''-'' then - digits_val d else digits_val d)"
    using e unfolding exponent_literal_def by blast
  then show "\<exists>p. parse_number s = Some p \<and> number_value p = x \<and> exponent_of p = e"
  proof cases
    case 1
    moreover have "digits_val ''0'' = 0" by code_simp
    ultimately show ?thesis using q x by (simp add: number_value_eq exponent_of_def)
  next
    case 2
    then have "exponent_parts (sg @ d) = Some (sg = ''-'', d)" unfolding exponent_parts_iff by auto
    with 2 q x show ?thesis by (simp add: number_value_eq exponent_of_def)
  qed
qed

lemma exactNumber_denotes:
  "exactNumber s = Some x \<longleftrightarrow> length s \<le> 100 \<and> (\<exists>e. denotes s x e \<and> -1000 \<le> e \<and> e \<le> 1000)"
  unfolding parse_denotes [symmetric] by (auto simp: exactNumber_def split: option.splits)

section \<open>The verdict\<close>

text \<open>
  A value fulfils an expectation if it prints as the expected text, or if it is a number and both are
  literals of one value, of at most 100 characters and exponents of at most a thousand either way.
\<close>

definition fulfils :: "jvalue \<Rightarrow> string \<Rightarrow> bool" where
  "fulfils v expected \<longleftrightarrow> value_text v = expected
     \<or> (\<exists>s x e e'. v = VNum s \<and> length s \<le> 100 \<and> length expected \<le> 100 \<and> denotes s x e \<and> denotes expected x e'
         \<and> -1000 \<le> e \<and> e \<le> 1000 \<and> -1000 \<le> e' \<and> e' \<le> 1000)"

lemma matches_fulfils: "jsonValueMatches v expected \<longleftrightarrow> fulfils v expected"
proof (cases v)
  case (VNum s)
  have "(case (exactNumber s, exactNumber expected) of (Some a, Some b) \<Rightarrow> a = b | _ \<Rightarrow> False)
      \<longleftrightarrow> (\<exists>x. exactNumber s = Some x \<and> exactNumber expected = Some x)" by (auto split: option.split)
  with VNum show ?thesis unfolding jsonValueMatches_def fulfils_def exactNumber_denotes by auto
qed (simp_all add: jsonValueMatches_def fulfils_def)

definition path_of :: "string list \<Rightarrow> string \<Rightarrow> bool" where
  "path_of keys path \<longleftrightarrow> keys \<noteq> [] \<and> list_all (\<lambda>k. CHR ''.'' \<notin> set k) keys \<and> path = join ''.'' keys"

lemma path_of_split: "path_of keys path \<longleftrightarrow> keys = split_byte (CHR ''.'') path"
  using split_byte_join [of keys "CHR ''.''"] join_split_byte [of "CHR ''.''" path] split_byte_no_sep [of _ "CHR ''.''" path]
  by (auto simp: path_of_def list_all_iff)

lemma decode_payload_iff:
  "decode_payload wb body = Inr payload \<longleftrightarrow>
     (\<exists>v rest. wb_first wb body = Inr (v, rest) \<and> set rest \<subseteq> {CHR '' '', CHR 0x09, CHR 0x0A, CHR 0x0D}
       \<and> (v = VNull \<and> payload = VObj [] \<or> (\<exists>kvs. v = VObj kvs) \<and> payload = json_map v))"
  by (auto simp: decode_payload_def json_blank_def list_all_iff split: sum.splits prod.splits jvalue.splits if_splits)

lemma map_filter_none: "List.map_filter f xs = [] \<longleftrightarrow> list_all (\<lambda>x. f x = None) xs"
  by (induction xs) (auto simp: List.map_filter_simps split: option.splits)

lemma list_all_sort_key: "list_all P (sort_key f xs) = list_all P xs"
  by (simp add: list_all_iff)

lemma assertion_error_none:
  assumes "v = VNull \<and> payload = VObj [] \<or> (\<exists>kvs. v = VObj kvs) \<and> payload = json_map v"
  shows "assertion_error payload pe = None
    \<longleftrightarrow> (\<exists>keys x. path_of keys (fst pe) \<and> leads_to v keys x \<and> fulfils (json_map x) (snd pe))"
proof -
  obtain k ks where keys: "split_byte (CHR ''.'') (fst pe) = k # ks" by (metis list.exhaust split_byte_ne)
  have "resolveJSONPath payload (fst pe) = Some y \<longleftrightarrow> (\<exists>x. leads_to v (k # ks) x \<and> y = json_map x)" for y
    using assms
  proof
    assume "v = VNull \<and> payload = VObj []"
    then show ?thesis by (simp add: resolveJSONPath_def keys leads_to_inside)
  next
    assume "(\<exists>kvs. v = VObj kvs) \<and> payload = json_map v"
    then show ?thesis unfolding resolveJSONPath_def keys by (simp only: resolve_leads)
  qed
  moreover have "assertion_error payload pe = None \<longleftrightarrow> (\<exists>y. resolveJSONPath payload (fst pe) = Some y \<and> fulfils y (snd pe))"
    by (cases pe) (auto simp: assertion_error_def matches_fulfils split: option.splits if_splits)
  ultimately have "assertion_error payload pe = None \<longleftrightarrow> (\<exists>x. leads_to v (k # ks) x \<and> fulfils (json_map x) (snd pe))" by auto
  then show ?thesis by (simp add: path_of_split keys)
qed

lemma readBody_whole: "readBody bytes err = (body, None) \<longleftrightarrow> body = bytes \<and> err = None \<and> length bytes \<le> 1048576"
  by (auto simp: readBody_def maxBody_def)

lemma status_expected_none:
  "status_expected expected code = None \<longleftrightarrow> (if expected = 0 then 200 \<le> code \<and> code < 300 else code = expected)"
  by (auto simp: status_expected_def)

text \<open>
  C37: an http-json check passes exactly when the server answered with the expected status, or any of the
  two hundreds when none is expected, with a body of at most 1 MiB that arrived whole and is one JSON
  object or null, followed by nothing but white space, in which every asserted path leads to a value that
  fulfils its expectation. In null no path leads anywhere, so it passes only a check without assertions.
\<close>

theorem http_json_verdict:
  "cr_success (http_json_result nt wb check d now answer) \<longleftrightarrow>
     (\<exists>ans v rest. answer = Inr ans
       \<and> (if hj_code check = 0 then 200 \<le> ha_code ans \<and> ha_code ans < 300 else ha_code ans = hj_code check)
       \<and> ha_body_error ans = None \<and> length (ha_body ans) \<le> 1048576
       \<and> wb_first wb (ha_body ans) = Inr (v, rest) \<and> set rest \<subseteq> {CHR '' '', CHR 0x09, CHR 0x0A, CHR 0x0D}
       \<and> (v = VNull \<or> (\<exists>kvs. v = VObj kvs))
       \<and> list_all (\<lambda>(path, expected). \<exists>keys x. path_of keys path \<and> leads_to v keys x \<and> fulfils (json_map x) expected)
           (hj_assertions check))"
proof (cases answer)
  case (Inr ans)
  define fine where "fine payload \<longleftrightarrow> List.map_filter (assertion_error payload) (sort_key fst (hj_assertions check)) = []" for payload
  define met where "met v \<longleftrightarrow> list_all (\<lambda>(path, expected). \<exists>keys x. path_of keys path \<and> leads_to v keys x
    \<and> fulfils (json_map x) expected) (hj_assertions check)" for v
  define gives where "gives v payload \<longleftrightarrow> v = VNull \<and> payload = VObj [] \<or> (\<exists>kvs. v = VObj kvs) \<and> payload = json_map v" for v payload
  have fine: "gives v payload \<Longrightarrow> fine payload \<longleftrightarrow> met v" for v payload
    unfolding fine_def met_def gives_def map_filter_none list_all_sort_key split_beta by (simp only: assertion_error_none)
  have gives: "(\<exists>payload. gives v payload) \<longleftrightarrow> v = VNull \<or> (\<exists>kvs. v = VObj kvs)" for v unfolding gives_def by blast
  have "cr_success (http_json_result nt wb check d now answer) \<longleftrightarrow> status_expected (hj_code check) (ha_code ans) = None
      \<and> (\<exists>body payload. readBody (ha_body ans) (ha_body_error ans) = (body, None)
          \<and> decode_payload wb body = Inr payload \<and> fine payload)"
    unfolding fine_def
    by (auto simp: Inr http_json_result_def split: option.splits prod.splits body_error.splits sum.splits list.splits)
  also have "\<dots> \<longleftrightarrow> status_expected (hj_code check) (ha_code ans) = None \<and> ha_body_error ans = None \<and> length (ha_body ans) \<le> 1048576
      \<and> (\<exists>v rest payload. wb_first wb (ha_body ans) = Inr (v, rest) \<and> set rest \<subseteq> {CHR '' '', CHR 0x09, CHR 0x0A, CHR 0x0D}
          \<and> gives v payload \<and> fine payload)"
    unfolding readBody_whole decode_payload_iff gives_def by blast
  also have "\<dots> \<longleftrightarrow> status_expected (hj_code check) (ha_code ans) = None \<and> ha_body_error ans = None \<and> length (ha_body ans) \<le> 1048576
      \<and> (\<exists>v rest. wb_first wb (ha_body ans) = Inr (v, rest) \<and> set rest \<subseteq> {CHR '' '', CHR 0x09, CHR 0x0A, CHR 0x0D}
          \<and> (v = VNull \<or> (\<exists>kvs. v = VObj kvs)) \<and> met v)"
    unfolding gives [symmetric] using fine by blast
  finally show ?thesis unfolding Inr status_expected_none met_def by simp
qed (simp add: http_json_result_def)

definition example_web :: "nat web" where
  "example_web =
     \<lparr>wb_get = (\<lambda>_ _ _ n. (Inl ''refused'', n)), wb_version = ''dev'',
      wb_first = (\<lambda>s. if s = ''{'' then Inl ''unexpected EOF''
        else Inr (VObj [(''a'', VNull), (''a'', VObj [(''b'', VNum ''1.0'')])], nl)),
      wb_mismatch = (\<lambda>_. ''mismatch'')\<rparr>"

text \<open>The path \<^verbatim>\<open>a.b\<close> leads through the second entry of the key to the number 1.0, which is 1; a second value after it fails the check.\<close>

theorem http_json_verdict_witness:
  "\<forall>nt. cr_success (http_json_result nt example_web \<lparr>hj_code = 0, hj_assertions = [(''a.b'', ''1'')]\<rparr> 5 0
     (Inr \<lparr>ha_code = 204, ha_not_after = None, ha_body = ''{}'', ha_body_error = None\<rparr>))
   \<and> \<not> cr_success (http_json_result nt example_web \<lparr>hj_code = 200, hj_assertions = []\<rparr> 5 0
     (Inr \<lparr>ha_code = 204, ha_not_after = None, ha_body = ''{}'', ha_body_error = None\<rparr>))"
proof -
  have path: "path_of [''a'', ''b''] ''a.b''" by (simp add: path_of_def)
  have lead: "leads_to (VObj [(''a'', VNull), (''a'', VObj [(''b'', VNum ''1.0'')])]) [''a'', ''b''] (VNum ''1.0'')"
    using inside [of "VObj [(''b'', VNum ''1.0'')]" "[''b'']" "VNum ''1.0''" "''a''" "[]" "[(''a'', VNull)]"]
      inside [OF here [of "VNum ''1.0''"], where k = "''b''" and post = "[]" and pre = "[]"] by simp
  have "jsonValueMatches (VNum ''1.0'') ''1''" by code_simp
  then have "fulfils (json_map (VNum ''1.0'')) ''1''" by (simp add: matches_fulfils)
  with path lead have "\<exists>keys x. path_of keys ''a.b'' \<and> leads_to (VObj [(''a'', VNull), (''a'', VObj [(''b'', VNum ''1.0'')])]) keys x
      \<and> fulfils (json_map x) ''1''" by blast
  then show ?thesis unfolding http_json_verdict by (simp add: example_web_def)
qed

end
