(* ===== verification/Spec2Isabelle.thy ===== *)
theory Spec2Isabelle
  imports Valkey_Keys Valkey_Test_Server Store_Properties Store_Incidents Store_Latency Rollup_Runner
    Rollup_Schedule Dashboard_Config Dashboard_View_Properties Dashboard_Http Dashboard_Assets
    Dashboard_Main Valkey_Test_Control Api_Deepcopy Operator_Main E2e_Utils
    Operator_Examples Operator_System Json_Verdict
begin

text \<open>
  A verification library for the endpoint monitoring operator: a Kubernetes operator that checks
  endpoints and alerts about them, and a dashboard that shows what the checks found. Both are Go
  programs; they meet in a Valkey server, where a notifier of the operator writes every check and the
  dashboard reads, rolls up and shows it.

  \<^bold>\<open>Parts and theories.\<close> Paths are below \<^verbatim>\<open>src/\<close>.

  \<^item> \<^bold>\<open>The language.\<close> \<open>Emo_Prelude\<close> has Go's integers with their wrap-around, maps as association lists
    with distinct keys, and results as sums of an error text and a value. \<open>Go_Strings\<close>, \<open>Go_Time\<close>,
    \<open>Go_Float\<close>, \<open>Go_Net\<close>, \<open>Go_Addr\<close>, \<open>Go_Path\<close>, \<open>Go_Regexp\<close> and \<open>Go_Url\<close> write out what the program uses of the standard library: strings
    are lists of bytes, times are nanoseconds since 1970 in UTC, a \<^verbatim>\<open>float64\<close> is a rational rounded to 53
    bits after every operation. The locale \<open>float_arith\<close> states what the proofs need of that rounding.

  \<^item> \<^bold>\<open>The store of the dashboard\<close> (\<^verbatim>\<open>dashboard/internal/store\<close>, \<^verbatim>\<open>valkeykeys\<close>). \<open>Valkey_Keys\<close> are the key
    names, \<open>Status_Ladder\<close> the status of a location and of an aggregate, \<open>Rollup_Data\<close> the records and
    their JSON documents. \<open>Valkey_Client\<close> states the laws of a Valkey connection as the locale
    \<open>valkey_laws\<close>, under which the lemmas of the store are proved; \<open>Valkey_Test_Server\<close> models the
    in-memory server of \<^verbatim>\<open>dashboard/internal/valkeytest\<close> and interprets the locale; \<open>Valkey_Test_Control\<close>
    has what a test does with it and the log of its commands. \<open>Store_Rollup\<close>, \<open>Store_Storage\<close>,
    \<open>Store_Properties\<close>, \<open>Store_Incidents\<close>, \<open>Store_Latency\<close> and \<open>Store_Examples\<close> follow \<^verbatim>\<open>store.go\<close> and
    \<^verbatim>\<open>latency.go\<close>: hourly and daily rollups, their expiry, uptime, incidents and latency series.

  \<^item> \<^bold>\<open>The rollup runner\<close> (\<^verbatim>\<open>dashboard/internal/rollup\<close>). \<open>Rollup_Runner\<close> has passes and backfills as state
    passing; \<open>Rollup_Schedule\<close> has the schedule as a transition system over the sections that hold the lock.

  \<^item> \<^bold>\<open>The dashboard\<close> (\<^verbatim>\<open>dashboard/internal/config\<close>, \<^verbatim>\<open>server\<close>). \<open>Dashboard_Config\<close>, \<open>Dashboard_Views\<close> with
    \<open>Dashboard_View_Properties\<close>, and \<open>Dashboard_Http\<close>, where the compressing writer is a state machine
    over the calls a handler makes on it. \<open>Dashboard_Assets\<close> links assets under their checksums (32-bit
    words). \<open>Dashboard_Main\<close> is the start-up of \<^verbatim>\<open>dashboard/cmd/dashboard\<close>.

  \<^item> \<^bold>\<open>Notifiers\<close> (\<^verbatim>\<open>internal/notifier\<close>, \<^verbatim>\<open>internal/common/smtpAuth\<close>). \<open>Notifier_Core\<close> has Slack, Discord and
    webhooks; \<open>Notifier_Email\<close> sends mail on the SMTP client of \<open>Smtp_Client\<close>; \<open>Notifier_Valkey\<close> writes to
    Valkey in the protocol of \<open>Resp_Protocol\<close>. \<open>Notifier_Factory\<close> builds a monitor's notifiers; the locale
    \<open>alert_channel\<close> is the interface they share, interpreted on each of the five. \<open>Endpoint_Display\<close> is
    \<^verbatim>\<open>DisplayEndpoint\<close>, the endpoint as alerts show it.

  \<^item> \<^bold>\<open>Drivers\<close> (\<^verbatim>\<open>internal/driver\<close>, \<^verbatim>\<open>internal/common/dane.go\<close>). \<open>Driver_Core\<close> has results, bodies, address
    families, tcp and ping, with \<open>Error_Text\<close> for the texts of errors; \<open>Driver_Http\<close> http, http-json, opensearch and trino, with
    \<open>Json_Verdict\<close> on when an http-json check passes, by a relation for paths and the grammar of JSON numbers;
    \<open>Driver_Net\<close> DANE, tls and redis; \<open>Driver_Probes\<close> smtp and dns; \<open>Driver_Sql\<close> mysql, mariadb and postgres; \<open>Driver_Nosql\<close>
    mongodb and scylladb. The locale \<open>reporting\<close> is the contract of \<^verbatim>\<open>Check\<close>; \<open>Driver_Factory\<close> shows that
    all that \<^verbatim>\<open>CreateDriver\<close> makes obeys it.

  \<^item> \<^bold>\<open>The controller\<close> (\<^verbatim>\<open>api/v1alpha1\<close>, \<^verbatim>\<open>internal/controller\<close>, \<^verbatim>\<open>pkg/factory\<close>). \<open>Monitor_Types\<close> are the API
    types, \<open>Alert_Retries\<close> is \<^verbatim>\<open>retry.go\<close> with \<^verbatim>\<open>CompositeNotifier\<close>, \<open>Monitor_Reconcile\<close> is \<^verbatim>\<open>Reconcile\<close>.
    \<open>Monitor_Properties\<close>, \<open>Retry_Properties\<close>, \<open>Retry_Invariant\<close>, \<open>Operator_Run\<close> and \<open>Operator_Schedule\<close> hold the
    proofs, \<open>Operator_Examples\<close> concrete runs, and \<open>Operator_System\<close> puts \<^verbatim>\<open>Reconcile\<close> on the factories.
    \<open>Api_Heap\<close> has the API types once more with their pointers on a heap, and the contract of a copy as the
    locale \<open>deep_copy\<close>; \<open>Api_Deepcopy\<close> interprets it on every function of \<^verbatim>\<open>zz_generated.deepcopy.go\<close>.
    \<open>Operator_Main\<close> is \<^verbatim>\<open>cmd/main.go\<close>: the options made of the flags, and the calls that start the manager.

  \<^item> \<^bold>\<open>The end-to-end tests\<close> (\<^verbatim>\<open>test/utils\<close>). \<open>E2e_Utils\<close> has the commands they run and the guard that keeps
    every one of them on the throwaway cluster.

  \<^bold>\<open>State and effects.\<close> A component's state is a record that its operations return updated. What lies
  outside the program (the API server, servers that are checked or written to, the clock, the DNS) is a
  world of any type \<open>'w\<close> that a record of functions acts on; the properties hold for all such functions,
  the witnesses use small concrete ones. Goroutines are records of their variables and one iteration of
  their loop is a step, so that steps of several interleave in any order (\<open>op_step\<close>, \<open>sched_step\<close>).

  \<^bold>\<open>What is shown.\<close> Of the store: a roll-up never lowers a stored count, what is written reads back, the
  scans find exactly the maximal runs of failures and the components of incidents, nothing depends on
  the iteration order of maps. Of the schedule: one backfill at a time, full ones an hour apart, and a
  failed hour stays owed until it is repaired. Of the dashboard: what a loaded configuration gives, what
  the pages show, that ranges never panic, that compression is transparent, and that an asset is the
  embedded file of its name. Of the notifiers: an
  alert reaches exactly those whose section asks for it and arrives where the dashboard reads, credentials
  stay on TLS, subjects cannot add headers, and the endpoint shown does not depend on its password. Of the drivers: every check reports, a monitor over both
  families passes when both checks do, when http-json passes, and that error texts do not depend on addresses. Of the controller: a change of status
  stays owed until all notifiers took it, retries are bounded, settle and yield to newer checks, nobody is
  told about a status that was not saved, whose error is returned, and a monitor that exists is always checked
  again, at most an interval after the later of now and its last check. Of the API
  types: a deep copy reads like the original, shares no memory with it and leaves it as it was.

  \<^bold>\<open>Bounds and fuel.\<close> The only fuel is that of the exchange of \<^verbatim>\<open>smtp.Client.Auth\<close> (\<open>auth_rounds\<close>): a server
  may challenge for ever, each round takes a unit and the last one ends in an error, and the property on
  credentials holds for any amount. The retry of a conflicting update makes at most five tries, the
  default of the client library. All else ends by structural recursion or by a measure on what is left
  to read. Integers of the program are 64-bit; \<open>wrap64\<close> stands where a product or sum of counts
  can leave their range. Instants are unbounded, as Go's span 292 billion years, and so are the distances
  between hours, which is exact for retentions below 106751 days, and the end of a failure window plus the
  merge gap, exact for ends more than five minutes below \<open>2 ^ 63\<close> seconds.

  \<^bold>\<open>Left out.\<close> Deadlines and timeouts show only as the errors they cause. Parameters are what \<^verbatim>\<open>net/url\<close>
  takes for a host, the parser of JSON texts behind \<^verbatim>\<open>encoding/json\<close>, templates, and the client libraries
  for databases, SES, Kubernetes and YAML. Logging, metrics, the texts of flags, the signal handlers, the
  files of the HTML templates and the registration of the API types have no state of the program's own.
  The redirects of \<^verbatim>\<open>http.ServeMux\<close> to clean paths and the pools of compressors are the library's.
\<close>

end
